theory Spec2Isabelle
  imports Main "HOL-Library.Sublist" "HOL-Library.Multiset"
begin

section \<open>Data model (package api, as used by networkd.go)\<close>

text \<open>
  Modelled from the spec: the structs of package \<open>api\<close>, whose declarations are outside the
  files at hand. The records below follow the data model of the specification and carry
  exactly the fields that \<open>networkd.go\<close> reads. Go's \<open>int\<close> fields are only compared and
  printed, never computed with, so they are modelled as \<open>int\<close>. Field names are prefixed with
  the struct they belong to, because three structs share \<open>Name\<close>, \<open>Addresses\<close>, ...
\<close>

record SystemNetworkRoute =
  To :: string
  Via :: string

record SystemNetworkInterface =
  if_Name :: string
  if_Hwaddr :: string
  if_MTU :: int
  if_Addresses :: "string list"
  if_Routes :: "SystemNetworkRoute list"
  if_LLDP :: bool
  if_VLAN :: int
  if_VLANTags :: "int list"

record SystemNetworkBond =
  bond_Name :: string
  bond_Hwaddr :: string
  bond_MTU :: int
  bond_Addresses :: "string list"
  bond_Routes :: "SystemNetworkRoute list"
  bond_LLDP :: bool
  bond_VLAN :: int
  bond_VLANTags :: "int list"
  bond_Members :: "string list"
  bond_Mode :: string

record SystemNetworkVLAN =
  vlan_Name :: string
  vlan_Parent :: string
  vlan_ID :: int
  vlan_MTU :: int
  vlan_Addresses :: "string list"
  vlan_Routes :: "SystemNetworkRoute list"

record SystemNetworkDNS =
  Hostname :: string
  Domain :: string
  SearchDomains :: "string list"
  Nameservers :: "string list"

record SystemNetworkNTP =
  Timeservers :: "string list"

text \<open>The proxy configuration is only handed on to \<open>UpdateEnvironment\<close>; its fields are never read.\<close>

typedecl SystemNetworkProxy

record SystemNetworkConfig =
  Interfaces :: "SystemNetworkInterface list"
  Bonds :: "SystemNetworkBond list"
  VLANs :: "SystemNetworkVLAN list"
  DNS :: "SystemNetworkDNS option"
  NTP :: "SystemNetworkNTP option"
  Proxy :: "SystemNetworkProxy option"

text \<open>\<open>networkdConfigFile\<close>: a file name and its contents.\<close>

record networkdConfigFile =
  Name :: string
  Contents :: string

text \<open>
  Errors: \<open>errors.New msg\<close>, an error handed back by the operating system or a subprocess
  (opaque, told apart by a number), and the run-time panic of an index out of range
  (\<open>b.Members[0]\<close> on a bond without members).
\<close>

datatype error = ErrorsNew string | External nat | PanicIndexOutOfRange

section \<open>Strings and formatting (Go standard library)\<close>

abbreviation NL :: string where
  "NL \<equiv> [CHR 0x0A]"

text \<open>\<open>strings.HasPrefix\<close>.\<close>

definition HasPrefix :: "string \<Rightarrow> string \<Rightarrow> bool" where
  "HasPrefix s p = (take (length p) s = p)"

text \<open>\<open>strings.Contains\<close>: \<open>substr\<close> occurs somewhere in \<open>s\<close>.\<close>

fun Contains :: "string \<Rightarrow> string \<Rightarrow> bool" where
  "Contains [] substr = (substr = [])"
| "Contains (c # s) substr = (HasPrefix (c # s) substr \<or> Contains s substr)"

text \<open>
  \<open>strings.ReplaceAll s old new\<close> for a pattern \<open>old\<close> of one character, which is the only
  way the program calls it (\<open>":"\<close> replaced by the empty string).
\<close>

fun ReplaceAll :: "string \<Rightarrow> char \<Rightarrow> string \<Rightarrow> string" where
  "ReplaceAll [] old new = []"
| "ReplaceAll (c # s) old new = (if c = old then new else [c]) @ ReplaceAll s old new"

text \<open>
  \<open>strings.ToLower\<close>. On text that is all ASCII (every byte below 128) Go moves the letters
  \<open>A\<close>..\<open>Z\<close> to \<open>a\<close>..\<open>z\<close> and leaves every other byte as it is. On any other text it maps
  \<open>unicode.ToLower\<close> over the runes (and rewrites invalid UTF-8); that part of the library is
  the parameter \<open>unicodeToLower\<close>, about which nothing is assumed.
\<close>

definition toLowerChar :: "char \<Rightarrow> char" where
  "toLowerChar c =
     (let n = of_char c :: nat in if 65 \<le> n \<and> n \<le> 90 then char_of (n + 32) else c)"

definition isASCII :: "string \<Rightarrow> bool" where
  "isASCII s = list_all (\<lambda>c. (of_char c :: nat) < 128) s"

definition ToLower :: "(string \<Rightarrow> string) \<Rightarrow> string \<Rightarrow> string" where
  "ToLower unicodeToLower s = (if isASCII s then map toLowerChar s else unicodeToLower s)"

text \<open>\<open>strings.Join\<close>.\<close>

fun Join :: "string list \<Rightarrow> string \<Rightarrow> string" where
  "Join [] sep = []"
| "Join [x] sep = x"
| "Join (x # y # xs) sep = x @ sep @ Join (y # xs) sep"

text \<open>\<open>strconv.FormatBool\<close>.\<close>

definition FormatBool :: "bool \<Rightarrow> string" where
  "FormatBool b = (if b then ''true'' else ''false'')"

text \<open>The verb \<open>%d\<close> of \<open>fmt.Sprintf\<close>: decimal digits, with a minus sign for a negative number.\<close>

fun digits :: "nat \<Rightarrow> string" where
  "digits n = (if n < 10 then [char_of (48 + n)] else digits (n div 10) @ [char_of (48 + n mod 10)])"

declare digits.simps [simp del]

definition fmt_d :: "int \<Rightarrow> string" where
  "fmt_d i = (if i < 0 then CHR ''-'' # digits (nat (- i)) else digits (nat i))"

section \<open>The configuration synthesizer\<close>

text \<open>
  The hardware address in lower case without its colons, as every generator derives it. The
  generators carry the parameter \<open>U\<close> of \<open>ToLower\<close> along.
\<close>

definition strippedHwaddr :: "(string \<Rightarrow> string) \<Rightarrow> string \<Rightarrow> string" where
  "strippedHwaddr U hwaddr = ToLower U (ReplaceAll hwaddr CHR '':'' [])"

subsection \<open>generateLinkFileContents\<close>

definition linkFile :: "(string \<Rightarrow> string) \<Rightarrow> string \<Rightarrow> string \<Rightarrow> networkdConfigFile" where
  "linkFile U prio hwaddr =
     \<lparr>Name = prio @ ''-en'' @ strippedHwaddr U hwaddr @ ''.link'',
      Contents = ''[Match]'' @ NL @ ''PermanentMACAddress='' @ hwaddr @ NL @ NL @
                 ''[Link]'' @ NL @ ''NamePolicy='' @ NL @
                 ''Name=en'' @ strippedHwaddr U hwaddr @ NL\<rparr>"

definition generateLinkFileContents ::
  "(string \<Rightarrow> string) \<Rightarrow> SystemNetworkConfig \<Rightarrow> networkdConfigFile list" where
  "generateLinkFileContents U networkCfg =
     map (\<lambda>i. linkFile U ''00'' (if_Hwaddr i)) (Interfaces networkCfg) @
     concat (map (\<lambda>b. map (\<lambda>member. linkFile U ''01'' member) (bond_Members b))
               (Bonds networkCfg))"

subsection \<open>generateNetdevFileContents\<close>

text \<open>\<open>mtuString\<close>: empty when the MTU is unset (0).\<close>

definition mtuString :: "int \<Rightarrow> string" where
  "mtuString mtu = (if mtu \<noteq> 0 then ''MTUBytes='' @ fmt_d mtu else [])"

text \<open>
  \<open>bondMacAddr\<close>: the bond's own \<open>Hwaddr\<close>, or \<open>b.Members[0]\<close> when that is empty. Indexing an
  empty \<open>Members\<close> panics.
\<close>

definition bondMacAddr :: "SystemNetworkBond \<Rightarrow> error + string" where
  "bondMacAddr b =
     (if bond_Hwaddr b = [] then
        (case bond_Members b of [] \<Rightarrow> Inl PanicIndexOutOfRange | m # _ \<Rightarrow> Inr m)
      else Inr (bond_Hwaddr b))"

definition bridgeNetdev :: "string \<Rightarrow> string \<Rightarrow> string \<Rightarrow> string \<Rightarrow> networkdConfigFile" where
  "bridgeNetdev fileName name mac mtu =
     \<lparr>Name = fileName,
      Contents = ''[NetDev]'' @ NL @ ''Name='' @ name @ NL @ ''Kind=bridge'' @ NL @
                 ''MACAddress='' @ mac @ NL @ mtu @ NL @ NL @
                 ''[Bridge]'' @ NL @ ''VLANFiltering=true'' @ NL\<rparr>"

definition bondNetdev :: "string \<Rightarrow> string \<Rightarrow> string \<Rightarrow> string \<Rightarrow> networkdConfigFile" where
  "bondNetdev stripped mac mtu mode =
     \<lparr>Name = ''11-bn'' @ stripped @ ''.netdev'',
      Contents = ''[NetDev]'' @ NL @ ''Name=bn'' @ stripped @ NL @ ''Kind=bond'' @ NL @
                 ''MACAddress='' @ mac @ NL @ mtu @ NL @ NL @
                 ''[Bond]'' @ NL @ ''Mode='' @ mode @ NL\<rparr>"

definition vlanNetdev :: "string \<Rightarrow> string \<Rightarrow> string \<Rightarrow> networkdConfigFile" where
  "vlanNetdev name parentMAC mtu =
     \<lparr>Name = ''12-'' @ name @ ''.netdev'',
      Contents = ''[NetDev]'' @ NL @ ''Name='' @ name @ NL @ ''Kind=veth'' @ NL @
                 ''MACAddress='' @ parentMAC @ NL @ mtu @ NL @ NL @
                 ''[Peer]'' @ NL @ ''Name=vl'' @ name @ NL\<rparr>"

text \<open>The first loop: one bridge device per interface.\<close>

definition interfaceNetdevs ::
  "(string \<Rightarrow> string) \<Rightarrow> SystemNetworkInterface list \<Rightarrow> networkdConfigFile list" where
  "interfaceNetdevs U is =
     map (\<lambda>i. bridgeNetdev (''10-br'' @ strippedHwaddr U (if_Hwaddr i) @ ''.netdev'')
                 (if_Name i) (if_Hwaddr i) (mtuString (if_MTU i))) is"

text \<open>The second loop: a bond device and a bridge device per bond; a panic ends the function.\<close>

fun bondNetdevs ::
  "(string \<Rightarrow> string) \<Rightarrow> SystemNetworkBond list \<Rightarrow> error + networkdConfigFile list" where
  "bondNetdevs U [] = Inr []"
| "bondNetdevs U (b # bs) =
     (case bondMacAddr b of
        Inl e \<Rightarrow> Inl e
      | Inr mac \<Rightarrow>
          (case bondNetdevs U bs of
             Inl e \<Rightarrow> Inl e
           | Inr rest \<Rightarrow>
               Inr (bondNetdev (strippedHwaddr U mac) mac (mtuString (bond_MTU b)) (bond_Mode b) #
                    bridgeNetdev (''11-br'' @ strippedHwaddr U mac @ ''.netdev'')
                      (bond_Name b) mac (mtuString (bond_MTU b)) #
                    rest)))"

text \<open>
  The parent lookup of the third loop. \<open>interfaceLookup\<close> is the scan of the interfaces, which
  stops at the first one whose name is the parent; \<open>bondLookup\<close> is the scan of the bonds, which
  runs only when the first scan left \<open>parentMACAddress\<close> empty.
\<close>

fun interfaceLookup :: "string \<Rightarrow> SystemNetworkInterface list \<Rightarrow> string" where
  "interfaceLookup parent [] = []"
| "interfaceLookup parent (i # is) =
     (if if_Name i = parent then if_Hwaddr i else interfaceLookup parent is)"

fun bondLookup :: "string \<Rightarrow> SystemNetworkBond list \<Rightarrow> error + string" where
  "bondLookup parent [] = Inr []"
| "bondLookup parent (b # bs) =
     (if bond_Name b = parent then
        (if bond_Hwaddr b \<noteq> [] then Inr (bond_Hwaddr b)
         else (case bond_Members b of [] \<Rightarrow> Inl PanicIndexOutOfRange | m # _ \<Rightarrow> Inr m))
      else bondLookup parent bs)"

definition parentMACAddress :: "SystemNetworkConfig \<Rightarrow> SystemNetworkVLAN \<Rightarrow> error + string" where
  "parentMACAddress networkCfg v =
     (let mac = interfaceLookup (vlan_Parent v) (Interfaces networkCfg)
      in if mac = [] then bondLookup (vlan_Parent v) (Bonds networkCfg) else Inr mac)"

fun vlanNetdevs :: "SystemNetworkConfig \<Rightarrow> SystemNetworkVLAN list \<Rightarrow> error + networkdConfigFile list" where
  "vlanNetdevs networkCfg [] = Inr []"
| "vlanNetdevs networkCfg (v # vs) =
     (case parentMACAddress networkCfg v of
        Inl e \<Rightarrow> Inl e
      | Inr mac \<Rightarrow>
          (case vlanNetdevs networkCfg vs of
             Inl e \<Rightarrow> Inl e
           | Inr rest \<Rightarrow> Inr (vlanNetdev (vlan_Name v) mac (mtuString (vlan_MTU v)) # rest)))"

definition generateNetdevFileContents ::
  "(string \<Rightarrow> string) \<Rightarrow> SystemNetworkConfig \<Rightarrow> error + networkdConfigFile list" where
  "generateNetdevFileContents U networkCfg =
     (case bondNetdevs U (Bonds networkCfg) of
        Inl e \<Rightarrow> Inl e
      | Inr bonds \<Rightarrow>
          (case vlanNetdevs networkCfg (VLANs networkCfg) of
             Inl e \<Rightarrow> Inl e
           | Inr vlans \<Rightarrow> Inr (interfaceNetdevs U (Interfaces networkCfg) @ bonds @ vlans)))"

subsection \<open>processAddresses, processRoutes and the section generators\<close>

text \<open>
  The loop of \<open>processAddresses\<close> over the state \<open>(ret, hasDHCP4, hasDHCP6, acceptIPv6RA)\<close>.
\<close>

fun processAddressesLoop ::
  "string list \<Rightarrow> string \<times> bool \<times> bool \<times> bool \<Rightarrow> string \<times> bool \<times> bool \<times> bool" where
  "processAddressesLoop [] st = st"
| "processAddressesLoop (addr # addrs) (ret, hasDHCP4, hasDHCP6, acceptIPv6RA) =
     processAddressesLoop addrs
       (if addr = ''dhcp4'' then (ret, True, hasDHCP6, acceptIPv6RA)
        else if addr = ''dhcp6'' then (ret, hasDHCP4, True, acceptIPv6RA)
        else if addr = ''slaac'' then (ret, hasDHCP4, hasDHCP6, True)
        else (ret @ ''Address='' @ addr @ NL, hasDHCP4, hasDHCP6, acceptIPv6RA))"

definition processAddresses :: "string list \<Rightarrow> string" where
  "processAddresses addresses =
     (let ret0 = (if length addresses \<noteq> 0 then ''LinkLocalAddressing=ipv6'' @ NL
                  else ''LinkLocalAddressing=no'' @ NL @ ''ConfigureWithoutCarrier=yes'' @ NL);
          (ret1, hasDHCP4, hasDHCP6, acceptIPv6RA) =
             processAddressesLoop addresses (ret0, False, False, False);
          ret2 = ret1 @ (if acceptIPv6RA then ''IPv6AcceptRA=true'' @ NL
                         else ''IPv6AcceptRA=false'' @ NL)
      in if hasDHCP4 \<and> hasDHCP6 then ret2 @ ''DHCP=yes'' @ NL
         else if hasDHCP4 then ret2 @ ''DHCP=ipv4'' @ NL
         else if hasDHCP6 then ret2 @ ''DHCP=ipv6'' @ NL
         else ret2)"

fun processRoutes :: "SystemNetworkRoute list \<Rightarrow> string" where
  "processRoutes [] = []"
| "processRoutes (route # routes) =
     NL @ ''[Route]'' @ NL @
     (if Via route = ''dhcp4'' then ''Gateway=_dhcp4'' @ NL
      else if Via route = ''slaac'' then ''Gateway=_ipv6ra'' @ NL
      else ''Gateway='' @ Via route @ NL) @
     ''Destination='' @ To route @ NL @
     processRoutes routes"

definition generateNetworkSectionContents ::
  "SystemNetworkDNS option \<Rightarrow> SystemNetworkNTP option \<Rightarrow> string" where
  "generateNetworkSectionContents dns ntp =
     (case dns of
        None \<Rightarrow> []
      | Some d \<Rightarrow>
          (if length (SearchDomains d) > 0 then ''Domains='' @ Join (SearchDomains d) '' '' @ NL
           else []) @
          concat (map (\<lambda>ns. ''DNS='' @ ns @ NL) (Nameservers d))) @
     (case ntp of
        None \<Rightarrow> []
      | Some n \<Rightarrow> concat (map (\<lambda>ts. ''NTP='' @ ts @ NL) (Timeservers n)))"

definition generateTimesyncContents :: "SystemNetworkNTP \<Rightarrow> string" where
  "generateTimesyncContents ntp =
     (if length (Timeservers ntp) = 0 then []
      else ''[Time]'' @ NL @ ''FallbackNTP='' @ Join (Timeservers ntp) '' '' @ NL)"

text \<open>
  \<open>generateBridgeVLANContents\<close>. \<open>vlanTagsOfVLANs\<close> is the loop over the VLAN definitions;
  \<open>slices.Sort\<close> yields the ascending arrangement of the slice (\<open>sort\<close>), and
  \<open>slices.Compact\<close> drops every element equal to its predecessor (\<open>remdups_adj\<close>).
\<close>

fun vlanTagsOfVLANs :: "string \<Rightarrow> SystemNetworkVLAN list \<Rightarrow> int list" where
  "vlanTagsOfVLANs bridgeName [] = []"
| "vlanTagsOfVLANs bridgeName (vlan # vlans) =
     (if vlan_Parent vlan = bridgeName then vlan_ID vlan # vlanTagsOfVLANs bridgeName vlans
      else vlanTagsOfVLANs bridgeName vlans)"

definition bridgeVLANTags :: "string \<Rightarrow> int \<Rightarrow> int list \<Rightarrow> SystemNetworkVLAN list \<Rightarrow> int list" where
  "bridgeVLANTags bridgeName specificVLAN additionalVLANTags vlans =
     remdups_adj (sort ((if specificVLAN \<noteq> 0 then [specificVLAN] else []) @
                        additionalVLANTags @ vlanTagsOfVLANs bridgeName vlans))"

definition generateBridgeVLANContents ::
  "string \<Rightarrow> int \<Rightarrow> int list \<Rightarrow> SystemNetworkVLAN list \<Rightarrow> string" where
  "generateBridgeVLANContents bridgeName specificVLAN additionalVLANTags vlans =
     (let vlanTags = bridgeVLANTags bridgeName specificVLAN additionalVLANTags vlans
      in if length vlanTags > 0 then
           (if specificVLAN \<noteq> 0 then
              NL @ ''[BridgeVLAN]'' @ NL @ ''PVID='' @ fmt_d specificVLAN @ NL @
              ''EgressUntagged='' @ fmt_d specificVLAN @ NL
            else []) @
           concat (map (\<lambda>tag. NL @ ''[BridgeVLAN]'' @ NL @ ''VLAN='' @ fmt_d tag @ NL) vlanTags)
         else [])"

text \<open>The loop of \<open>generateLinkSectionContents\<close> over \<open>(expectsIPv4, expectsIPv6)\<close>.\<close>

fun linkSectionLoop :: "string list \<Rightarrow> bool \<times> bool \<Rightarrow> bool \<times> bool" where
  "linkSectionLoop [] st = st"
| "linkSectionLoop (addr # addrs) (expectsIPv4, expectsIPv6) =
     linkSectionLoop addrs
       (if addr = ''dhcp4'' then (True, expectsIPv6)
        else if addr = ''dhcp6'' \<or> addr = ''slaac'' then (expectsIPv4, True)
        else (expectsIPv4 \<or> Contains addr ''.'', expectsIPv6 \<or> Contains addr '':''))"

definition generateLinkSectionContents :: "string list \<Rightarrow> string" where
  "generateLinkSectionContents addresses =
     (if length addresses = 0 then ''RequiredForOnline=no''
      else
        (let (expectsIPv4, expectsIPv6) = linkSectionLoop addresses (False, False)
         in if expectsIPv4 \<and> expectsIPv6 then
              ''RequiredForOnline=yes'' @ NL @ ''RequiredFamilyForOnline=both''
            else if expectsIPv4 then
              ''RequiredForOnline=yes'' @ NL @ ''RequiredFamilyForOnline=ipv4''
            else ''RequiredForOnline=yes'' @ NL @ ''RequiredFamilyForOnline=ipv6''))"

subsection \<open>generateNetworkFileContents\<close>

text \<open>
  The addressing policy of a logical device. The program spells this template out three times
  (interface, bond, VLAN) with the same text; \<open>addressingPolicy\<close> is that text, followed by
  \<open>processAddresses\<close> and, when there are routes, \<open>processRoutes\<close>.
\<close>

definition addressingPolicy ::
  "SystemNetworkConfig \<Rightarrow> string \<Rightarrow> string list \<Rightarrow> SystemNetworkRoute list \<Rightarrow> string" where
  "addressingPolicy networkCfg name addresses routes =
     ''[Match]'' @ NL @ ''Name='' @ name @ NL @ NL @
     ''[Link]'' @ NL @ generateLinkSectionContents addresses @ NL @ NL @
     ''[DHCP]'' @ NL @ ''ClientIdentifier=mac'' @ NL @ ''RouteMetric=100'' @ NL @
     ''UseMTU=true'' @ NL @ NL @
     ''[Network]'' @ NL @ generateNetworkSectionContents (DNS networkCfg) (NTP networkCfg) @
     processAddresses addresses @
     (if length routes > 0 then processRoutes routes else [])"

definition interfaceNetworks ::
  "(string \<Rightarrow> string) \<Rightarrow> SystemNetworkConfig \<Rightarrow> SystemNetworkInterface \<Rightarrow>
   networkdConfigFile list" where
  "interfaceNetworks U networkCfg i =
     [\<lparr>Name = ''20-'' @ if_Name i @ ''.network'',
       Contents = addressingPolicy networkCfg (if_Name i) (if_Addresses i) (if_Routes i)\<rparr>,
      \<lparr>Name = ''20-en'' @ strippedHwaddr U (if_Hwaddr i) @ ''.network'',
       Contents = ''[Match]'' @ NL @ ''Name=en'' @ strippedHwaddr U (if_Hwaddr i) @ NL @ NL @
                  ''[Network]'' @ NL @ ''Bridge='' @ if_Name i @ NL @
                  ''LLDP='' @ FormatBool (if_LLDP i) @ NL @
                  ''EmitLLDP='' @ FormatBool (if_LLDP i) @ NL @
                  generateBridgeVLANContents (if_Name i) (if_VLAN i) (if_VLANTags i)
                    (VLANs networkCfg)\<rparr>]"

definition bondMemberNetwork ::
  "(string \<Rightarrow> string) \<Rightarrow> string \<Rightarrow> bool \<Rightarrow> nat \<times> string \<Rightarrow> networkdConfigFile" where
  "bondMemberNetwork U stripped lldp im =
     \<lparr>Name = ''21-bn'' @ stripped @ ''-dev'' @ fmt_d (int (fst im)) @ ''.network'',
      Contents = ''[Match]'' @ NL @ ''Name=en'' @ strippedHwaddr U (snd im) @ NL @ NL @
                 ''[Network]'' @ NL @ ''Bond=bn'' @ stripped @ NL @
                 ''LLDP='' @ FormatBool lldp @ NL @
                 ''EmitLLDP='' @ FormatBool lldp @ NL\<rparr>"

definition bondNetworks ::
  "(string \<Rightarrow> string) \<Rightarrow> SystemNetworkConfig \<Rightarrow> SystemNetworkBond \<Rightarrow>
   error + networkdConfigFile list" where
  "bondNetworks U networkCfg b =
     (case bondMacAddr b of
        Inl e \<Rightarrow> Inl e
      | Inr mac \<Rightarrow>
          Inr ([\<lparr>Name = ''21-'' @ bond_Name b @ ''.network'',
                  Contents = addressingPolicy networkCfg (bond_Name b) (bond_Addresses b)
                               (bond_Routes b)\<rparr>,
                \<lparr>Name = ''21-bn'' @ strippedHwaddr U mac @ ''.network'',
                  Contents = ''[Match]'' @ NL @ ''Name=bn'' @ strippedHwaddr U mac @ NL @ NL @
                             ''[Network]'' @ NL @ ''Bridge='' @ bond_Name b @ NL @
                             generateBridgeVLANContents (bond_Name b) (bond_VLAN b)
                               (bond_VLANTags b) (VLANs networkCfg)\<rparr>] @
               map (bondMemberNetwork U (strippedHwaddr U mac) (bond_LLDP b))
                 (enumerate 0 (bond_Members b))))"

fun bondsNetworks ::
  "(string \<Rightarrow> string) \<Rightarrow> SystemNetworkConfig \<Rightarrow> SystemNetworkBond list \<Rightarrow>
   error + networkdConfigFile list" where
  "bondsNetworks U networkCfg [] = Inr []"
| "bondsNetworks U networkCfg (b # bs) =
     (case bondNetworks U networkCfg b of
        Inl e \<Rightarrow> Inl e
      | Inr files \<Rightarrow>
          (case bondsNetworks U networkCfg bs of
             Inl e \<Rightarrow> Inl e
           | Inr rest \<Rightarrow> Inr (files @ rest)))"

definition vlanNetworks ::
  "SystemNetworkConfig \<Rightarrow> SystemNetworkVLAN \<Rightarrow> networkdConfigFile list" where
  "vlanNetworks networkCfg v =
     [\<lparr>Name = ''22-vl'' @ vlan_Name v @ ''.network'',
       Contents = ''[Match]'' @ NL @ ''Name=vl'' @ vlan_Name v @ NL @ NL @
                  ''[Network]'' @ NL @ ''Bridge='' @ vlan_Parent v @ NL @ NL @
                  ''[BridgeVLAN]'' @ NL @ ''VLAN='' @ fmt_d (vlan_ID v) @ NL @
                  ''PVID='' @ fmt_d (vlan_ID v) @ NL @
                  ''EgressUntagged='' @ fmt_d (vlan_ID v) @ NL\<rparr>,
      \<lparr>Name = ''22-'' @ vlan_Name v @ ''.network'',
       Contents = addressingPolicy networkCfg (vlan_Name v) (vlan_Addresses v) (vlan_Routes v)\<rparr>]"

definition generateNetworkFileContents ::
  "(string \<Rightarrow> string) \<Rightarrow> SystemNetworkConfig \<Rightarrow> error + networkdConfigFile list" where
  "generateNetworkFileContents U networkCfg =
     (case bondsNetworks U networkCfg (Bonds networkCfg) of
        Inl e \<Rightarrow> Inl e
      | Inr bonds \<Rightarrow>
          Inr (concat (map (interfaceNetworks U networkCfg) (Interfaces networkCfg)) @
               bonds @
               concat (map (vlanNetworks networkCfg) (VLANs networkCfg))))"

section \<open>The outside world\<close>

text \<open>
  Modelled from the spec: \<open>SetHostname\<close>, \<open>UpdateEnvironment\<close> and \<open>RestartUnit\<close> are functions
  of package \<open>systemd\<close> outside the files at hand. The specification treats them as
  collaborators whose calls succeed or fail as a whole, so each is a single \<open>call\<close> whose
  result the environment gives.

  Everything else the program does to its surroundings is a \<open>call\<close> too: the file operations
  of package \<open>os\<close>, \<open>subprocess.RunCommandContext\<close> (the command and its arguments) and
  \<open>time.Sleep\<close>.

  The \<open>world\<close> is the clock (nanoseconds, the unit of \<open>time.Duration\<close>) and the calls made so
  far, oldest first. The environment \<open>env\<close> fixes how the surroundings answer: \<open>respond\<close> gives
  the result of a call (an error, or the output) after a given history, \<open>elapsed\<close> the time it
  takes (for \<open>Sleep\<close>, the time slept beyond the duration asked for), and \<open>rangeRank\<close> the
  order in which a \<open>range\<close> over a map visits its keys, which Go leaves open: the keys are
  visited by ascending rank. The package constants \<open>SystemdNetworkConfigPath\<close> and
  \<open>SystemdTimesyncConfigFile\<close>, the library function \<open>filepath.Join\<close> and the part of
  \<open>strings.ToLower\<close> that is left open (\<open>unicodeToLower\<close>) are parameters too.
  \<open>time.Now\<close> reads the clock; reading it is no call and takes no time.
\<close>

datatype call =
    SetHostname string
  | UpdateEnvironment "SystemNetworkProxy option"
  | RestartUnit string
  | RunCommand "string list"
  | RemoveAll string
  | Mkdir string
  | WriteFile string string
  | Remove string
  | Sleep int

record world =
  clock :: int
  calls :: "call list"

record env =
  respond :: "call list \<Rightarrow> call \<Rightarrow> error + string"
  elapsed :: "call list \<Rightarrow> call \<Rightarrow> nat"
  rangeRank :: "call list \<Rightarrow> string \<Rightarrow> nat"
  SystemdNetworkConfigPath :: string
  SystemdTimesyncConfigFile :: string
  filepathJoin :: "string \<Rightarrow> string \<Rightarrow> string"
  unicodeToLower :: "string \<Rightarrow> string"

definition exec :: "env \<Rightarrow> call \<Rightarrow> world \<Rightarrow> (error + string) \<times> world" where
  "exec E c w =
     (respond E (calls w) c,
      \<lparr>clock = clock w + int (elapsed E (calls w) c) + (case c of Sleep d \<Rightarrow> max d 0 | _ \<Rightarrow> 0),
       calls = calls w @ [c]\<rparr>)"

definition Millisecond :: int where
  "Millisecond = 1000000"

definition Second :: int where
  "Second = 1000000000"

text \<open>\<open>time.Sleep\<close> returns nothing.\<close>

definition sleep :: "env \<Rightarrow> int \<Rightarrow> world \<Rightarrow> world" where
  "sleep E d w = snd (exec E (Sleep d) w)"

section \<open>The artifact writer: generateNetworkConfiguration\<close>

text \<open>Each of the three loops that write the generated files; the first failure ends it.\<close>

fun writeFiles :: "env \<Rightarrow> networkdConfigFile list \<Rightarrow> world \<Rightarrow> (error + unit) \<times> world" where
  "writeFiles E [] w = (Inr (), w)"
| "writeFiles E (cfg # cfgs) w =
     (case exec E (WriteFile (filepathJoin E (SystemdNetworkConfigPath E) (Name cfg))
                     (Contents cfg)) w of
        (Inl err, w') \<Rightarrow> (Inl err, w')
      | (Inr _, w') \<Rightarrow> writeFiles E cfgs w')"

text \<open>
  The end of the function, from \<open>ntpCfg := ""\<close> on: write the time-sync file when there are
  time servers, remove it (whatever \<open>os.Remove\<close> answers) when there are none.
\<close>

definition writeTimesync :: "env \<Rightarrow> SystemNetworkConfig \<Rightarrow> world \<Rightarrow> (error + unit) \<times> world" where
  "writeTimesync E networkCfg w =
     (let (written, ntpCfg, w1) =
            (case NTP networkCfg of
               None \<Rightarrow> (Inr (), [], w)
             | Some ntp \<Rightarrow>
                 (let ntpCfg = generateTimesyncContents ntp
                  in if ntpCfg \<noteq> [] then
                       (case exec E (WriteFile (SystemdTimesyncConfigFile E) ntpCfg) w of
                          (Inl err, w') \<Rightarrow> (Inl err, ntpCfg, w')
                        | (Inr _, w') \<Rightarrow> (Inr (), ntpCfg, w'))
                     else (Inr (), ntpCfg, w)))
      in case written of
           Inl err \<Rightarrow> (Inl err, w1)
         | Inr _ \<Rightarrow>
             if NTP networkCfg = None \<or> ntpCfg = [] then
               (Inr (), snd (exec E (Remove (SystemdTimesyncConfigFile E)) w1))
             else (Inr (), w1))"

text \<open>
  \<open>generateNetworkConfiguration\<close> in two parts: \<open>writeArtifacts\<close> is the function up to the
  third loop (wipe the directory, create it, write the link, netdev and network files), and
  \<open>writeTimesync\<close> the rest. A panic of a generator ends the function where it is raised.
\<close>

definition writeArtifacts ::
  "env \<Rightarrow> SystemNetworkConfig \<Rightarrow> world \<Rightarrow> (error + unit) \<times> world" where
  "writeArtifacts E networkCfg w =
     (case exec E (RemoveAll (SystemdNetworkConfigPath E)) w of
        (Inl err, w1) \<Rightarrow> (Inl err, w1)
      | (Inr _, w1) \<Rightarrow>
     (case exec E (Mkdir (SystemdNetworkConfigPath E)) w1 of
        (Inl err, w2) \<Rightarrow> (Inl err, w2)
      | (Inr _, w2) \<Rightarrow>
     (case writeFiles E (generateLinkFileContents (unicodeToLower E) networkCfg) w2 of
        (Inl err, w3) \<Rightarrow> (Inl err, w3)
      | (Inr _, w3) \<Rightarrow>
     (case generateNetdevFileContents (unicodeToLower E) networkCfg of
        Inl panic \<Rightarrow> (Inl panic, w3)
      | Inr netdevs \<Rightarrow>
     (case writeFiles E netdevs w3 of
        (Inl err, w4) \<Rightarrow> (Inl err, w4)
      | (Inr _, w4) \<Rightarrow>
     (case generateNetworkFileContents (unicodeToLower E) networkCfg of
        Inl panic \<Rightarrow> (Inl panic, w4)
      | Inr networks \<Rightarrow> writeFiles E networks w4))))))"

definition generateNetworkConfiguration ::
  "env \<Rightarrow> SystemNetworkConfig \<Rightarrow> world \<Rightarrow> (error + unit) \<times> world" where
  "generateNetworkConfiguration E networkCfg w =
     (case writeArtifacts E networkCfg w of
        (Inl err, w5) \<Rightarrow> (Inl err, w5)
      | (Inr _, w5) \<Rightarrow> writeTimesync E networkCfg w5)"

section \<open>The rename convergence waiter: waitForUdevInterfaceRename\<close>

definition udevTrigger :: call where
  "udevTrigger = RunCommand [''udevadm'', ''trigger'', ''--action=add'']"

definition udevSettle :: call where
  "udevSettle = RunCommand [''udevadm'', ''settle'']"

definition journalRenamed :: call where
  "journalRenamed =
     RunCommand [''journalctl'', ''-t'', ''kernel'', ''-g'', ''en[[:xdigit:]]{12}: renamed from '']"

definition udevTimeout :: error where
  "udevTimeout = ErrorsNew ''timed out waiting for udev to rename interface(s)''"

lemma clock_exec: "clock w \<le> clock (snd (exec E c w))"
  by (simp add: exec_def split: call.splits)

lemma clock_exec_pair: "exec E c w = (r, w') \<Longrightarrow> clock w \<le> clock w'"
  using clock_exec [of w E c] by simp

lemma clock_sleep: "0 \<le> d \<Longrightarrow> clock w + d \<le> clock (sleep E d w)"
  by (simp add: sleep_def exec_def)

text \<open>
  The loop of \<open>waitForUdevInterfaceRename\<close> with its deadline \<open>endTime\<close>. It ends: a turn that
  goes on has slept 500 ms, so the clock passes the deadline after finitely many turns.
\<close>

function udevRenameLoop :: "env \<Rightarrow> int \<Rightarrow> world \<Rightarrow> (error + unit) \<times> world" where
  "udevRenameLoop E endTime w =
     (if clock w > endTime then (Inl udevTimeout, w)
      else
        (case exec E udevTrigger w of
           (Inl err, w1) \<Rightarrow> (Inl err, w1)
         | (Inr _, w1) \<Rightarrow>
        (case exec E udevSettle w1 of
           (Inl err, w2) \<Rightarrow> (Inl err, w2)
         | (Inr _, w2) \<Rightarrow>
        (case exec E journalRenamed w2 of
           (Inr _, w3) \<Rightarrow> (Inr (), w3)
         | (Inl _, w3) \<Rightarrow> udevRenameLoop E endTime (sleep E (500 * Millisecond) w3)))))"
  by pat_completeness auto
termination
proof (relation "measure (\<lambda>(E, endTime, w). nat (endTime + 1 - clock w))", goal_cases)
  case 1
  show ?case by simp
next
  case (2 E endTime w x1 w1 y1 x2 w2 y2 x3 w3 e)
  have "clock w \<le> clock w1" using 2 clock_exec_pair by metis
  moreover have "clock w1 \<le> clock w2" using 2 clock_exec_pair by metis
  moreover have "clock w2 \<le> clock w3" using 2 clock_exec_pair by metis
  moreover have "clock w3 + 500 * Millisecond \<le> clock (sleep E (500 * Millisecond) w3)"
    by (rule clock_sleep) (simp add: Millisecond_def)
  ultimately show ?case using 2 by (simp add: Millisecond_def)
qed

declare udevRenameLoop.simps [simp del]

definition waitForUdevInterfaceRename ::
  "env \<Rightarrow> int \<Rightarrow> world \<Rightarrow> (error + unit) \<times> world" where
  "waitForUdevInterfaceRename E timeout w = udevRenameLoop E (clock w + timeout) w"

section \<open>The online convergence waiter: waitForNetworkOnline\<close>

subsection \<open>The regular expression of getNumberOfIPs\<close>

text \<open>
  \<open>regexp.MustCompile(`inet6? (.+)/\d+ `)\<close> with \<open>FindAllStringSubmatch(output, -1)\<close>: the
  successive matches, each the leftmost one after the end of the one before and, at its start,
  the one a backtracking matcher finds first. The functions below are that matcher for this
  one expression; they return the text of the group \<open>(.+)\<close>, the only part of a match the
  program reads.

  \<open>matchTail\<close> matches \<open>/\d+\<close> and a space at the start of the text and returns what follows.
  The digits are taken greedily; giving one back never helps, since a digit would then stand
  where the space must.
\<close>

definition isDigit :: "char \<Rightarrow> bool" where
  "isDigit c = (48 \<le> (of_char c :: nat) \<and> (of_char c :: nat) \<le> 57)"

definition matchTail :: "string \<Rightarrow> string option" where
  "matchTail s =
     (case s of
        [] \<Rightarrow> None
      | c # t \<Rightarrow>
          if c = CHR ''/'' \<and> takeWhile isDigit t \<noteq> [] then
            (case dropWhile isDigit t of
               [] \<Rightarrow> None
             | d # rest \<Rightarrow> if d = CHR '' '' then Some rest else None)
          else None)"

text \<open>
  \<open>matchGroup acc s\<close> matches \<open>(.+)/\d+\<close> and a space, where \<open>acc\<close> is what the group has taken
  so far: the group first tries to take one more character (any but a newline), and only when
  the rest cannot match that way does it end here, if it holds at least one character.
\<close>

fun matchGroup :: "string \<Rightarrow> string \<Rightarrow> (string \<times> string) option" where
  "matchGroup acc [] = None"
| "matchGroup acc (c # s) =
     (case (if c = CHR 0x0A then None else matchGroup (acc @ [c]) s) of
        Some r \<Rightarrow> Some r
      | None \<Rightarrow>
          if acc \<noteq> [] then
            (case matchTail (c # s) of Some rest \<Rightarrow> Some (acc, rest) | None \<Rightarrow> None)
          else None)"

text \<open>\<open>matchAt s\<close>: a match that starts at the start of \<open>s\<close>; \<open>6?\<close> first tries to take the 6.\<close>

definition matchAt :: "string \<Rightarrow> (string \<times> string) option" where
  "matchAt s =
     (if HasPrefix s ''inet'' then
        (case (case drop 4 s of
                 c # d # u \<Rightarrow> if c = CHR ''6'' \<and> d = CHR '' '' then matchGroup [] u else None
               | _ \<Rightarrow> None) of
           Some r \<Rightarrow> Some r
         | None \<Rightarrow>
             (case drop 4 s of
                c # u \<Rightarrow> if c = CHR '' '' then matchGroup [] u else None
              | _ \<Rightarrow> None))
      else None)"

lemma matchTail_length: "matchTail s = Some rest \<Longrightarrow> length rest < length s"
proof -
  assume a: "matchTail s = Some rest"
  then obtain t where s: "s = CHR ''/'' # t"
    by (cases s) (auto simp: matchTail_def split: if_splits)
  from a s obtain d where "dropWhile isDigit t = d # rest"
    by (auto simp: matchTail_def split: if_splits list.splits)
  then have "length rest < length (dropWhile isDigit t)" by simp
  also have "\<dots> \<le> length t" by (rule length_dropWhile_le)
  finally show ?thesis using s by simp
qed

lemma matchGroup_length: "matchGroup acc s = Some (g, rest) \<Longrightarrow> length rest < length s"
proof (induction s arbitrary: acc)
  case Nil
  then show ?case by simp
next
  case (Cons c s)
  show ?case
  proof (cases "if c = CHR 0x0A then None else matchGroup (acc @ [c]) s")
    case (Some r)
    then have "matchGroup (acc @ [c]) s = Some (g, rest)"
      using Cons.prems by (auto split: if_splits)
    from Cons.IH [OF this] show ?thesis by simp
  next
    case None
    then have "matchTail (c # s) = Some rest"
      using Cons.prems by (auto split: if_splits option.splits)
    from matchTail_length [OF this] show ?thesis .
  qed
qed

lemma matchAt_length: "matchAt s = Some (g, rest) \<Longrightarrow> length rest < length s"
proof -
  assume a: "matchAt s = Some (g, rest)"
  have "\<exists>u. matchGroup [] u = Some (g, rest) \<and> length u \<le> length s"
  proof (cases "drop 4 s")
    case Nil
    then show ?thesis using a by (simp add: matchAt_def split: if_splits)
  next
    case (Cons c u)
    then have len: "length u \<le> length s"
      by (metis diff_le_self le_trans length_Cons length_drop lessI less_imp_le_nat)
    show ?thesis
    proof (cases u)
      case Nil
      then show ?thesis using a Cons len
        by (auto simp del: matchGroup.simps simp: matchAt_def split: if_splits)
    next
      case (Cons d u')
      then have "length u' \<le> length s" using len by simp
      then show ?thesis using a \<open>drop 4 s = c # u\<close> Cons len
        by (auto simp del: matchGroup.simps simp: matchAt_def split: if_splits option.splits)
    qed
  qed
  then obtain u where "matchGroup [] u = Some (g, rest)" "length u \<le> length s"
    by blast
  then show ?thesis using matchGroup_length [of "[]" u g rest] by simp
qed

function FindAllStringSubmatch :: "string \<Rightarrow> string list" where
  "FindAllStringSubmatch [] = []"
| "FindAllStringSubmatch (c # s) =
     (case matchAt (c # s) of
        Some (g, rest) \<Rightarrow> g # FindAllStringSubmatch rest
      | None \<Rightarrow> FindAllStringSubmatch s)"
  by pat_completeness auto
termination
proof (relation "measure length", goal_cases)
  case 1
  show ?case by simp
next
  case (2 c s)
  show ?case by simp
next
  case (3 c s x2 g rest)
  then show ?case using matchAt_length [of "c # s" g rest] by simp
qed

subsection \<open>The two queries\<close>

definition isOnline :: "env \<Rightarrow> string \<Rightarrow> world \<Rightarrow> bool \<times> world" where
  "isOnline E name w =
     (case exec E (RunCommand [''networkctl'', ''status'', name]) w of
        (Inl err, w') \<Rightarrow> (False, w')
      | (Inr output, w') \<Rightarrow> (Contains output ''Online state: online'', w'))"

text \<open>The loop of \<open>getNumberOfIPs\<close> over the matches, with the counter \<open>numIPs\<close>.\<close>

fun countIPs :: "string list \<Rightarrow> int \<Rightarrow> int" where
  "countIPs [] numIPs = numIPs"
| "countIPs (addr # matches) numIPs =
     (if HasPrefix addr ''fe80:'' then countIPs matches numIPs
      else countIPs matches (numIPs + 1))"

definition getNumberOfIPs :: "env \<Rightarrow> string \<Rightarrow> world \<Rightarrow> int \<times> world" where
  "getNumberOfIPs E name w =
     (case exec E (RunCommand [''ip'', ''address'', ''show'', name]) w of
        (Inl err, w') \<Rightarrow> (- 1, w')
      | (Inr output, w') \<Rightarrow> (countIPs (FindAllStringSubmatch output) 0, w'))"

subsection \<open>The devices to check\<close>

text \<open>
  \<open>devicesToCheck\<close> is a Go map from device name to the number of declared addresses, kept
  here as an association list with one entry per key; \<open>mapAssign\<close> is \<open>m[name] = n\<close>. The three
  loops that fill it differ only in the struct they read, so \<open>addDevices\<close> runs on the
  \<open>(Name, Addresses)\<close> pairs.
\<close>

fun mapAssign :: "string \<Rightarrow> int \<Rightarrow> (string \<times> int) list \<Rightarrow> (string \<times> int) list" where
  "mapAssign name n [] = [(name, n)]"
| "mapAssign name n ((k, v) # m) = (if k = name then (k, n) # m else (k, v) # mapAssign name n m)"

fun addDevices :: "(string \<times> string list) list \<Rightarrow> (string \<times> int) list \<Rightarrow> (string \<times> int) list" where
  "addDevices [] m = m"
| "addDevices ((name, addresses) # ds) m =
     (if length addresses = 0 then addDevices ds m
      else addDevices ds (mapAssign name (int (length addresses)) m))"

definition devicesToCheck :: "SystemNetworkConfig \<Rightarrow> (string \<times> int) list" where
  "devicesToCheck networkCfg =
     addDevices (map (\<lambda>v. (vlan_Name v, vlan_Addresses v)) (VLANs networkCfg))
       (addDevices (map (\<lambda>b. (bond_Name b, bond_Addresses b)) (Bonds networkCfg))
          (addDevices (map (\<lambda>i. (if_Name i, if_Addresses i)) (Interfaces networkCfg)) []))"

subsection \<open>The poll loop\<close>

text \<open>
  One pass of \<open>for name, numIPs := range devicesToCheck\<close>, in the order given; it stops at the
  first device that is not online or whose address count differs (\<open>break\<close>), and
  \<open>getNumberOfIPs\<close> is not asked when \<open>isOnline\<close> already said no.
\<close>

fun checkDevices :: "env \<Rightarrow> (string \<times> int) list \<Rightarrow> world \<Rightarrow> bool \<times> world" where
  "checkDevices E [] w = (True, w)"
| "checkDevices E ((name, numIPs) # ds) w =
     (case isOnline E name w of
        (False, w1) \<Rightarrow> (False, w1)
      | (True, w1) \<Rightarrow>
          (case getNumberOfIPs E name w1 of
             (n, w2) \<Rightarrow> if n \<noteq> numIPs then (False, w2) else checkDevices E ds w2))"

text \<open>The order of one \<open>range\<close> over the map: by the rank the environment gives each key.\<close>

definition rangeOver :: "env \<Rightarrow> world \<Rightarrow> (string \<times> int) list \<Rightarrow> (string \<times> int) list" where
  "rangeOver E w m = sort_key (\<lambda>kv. rangeRank E (calls w) (fst kv)) m"

definition onlineTimeout :: error where
  "onlineTimeout = ErrorsNew ''timed out waiting for network to come online''"

lemma clock_isOnline: "isOnline E name w = (b, w') \<Longrightarrow> clock w \<le> clock w'"
  by (auto simp: isOnline_def split: prod.splits sum.splits dest: clock_exec_pair)

lemma clock_getNumberOfIPs: "getNumberOfIPs E name w = (n, w') \<Longrightarrow> clock w \<le> clock w'"
  by (auto simp: getNumberOfIPs_def split: prod.splits sum.splits dest: clock_exec_pair)

lemma clock_checkDevices: "checkDevices E ds w = (b, w') \<Longrightarrow> clock w \<le> clock w'"
proof (induction ds arbitrary: w)
  case Nil
  then show ?case by simp
next
  case (Cons d ds)
  obtain name numIPs where d: "d = (name, numIPs)" by (cases d)
  obtain on w1 where o: "isOnline E name w = (on, w1)" by (cases "isOnline E name w")
  obtain n w2 where g: "getNumberOfIPs E name w1 = (n, w2)"
    by (cases "getNumberOfIPs E name w1")
  have c1: "clock w \<le> clock w1" by (rule clock_isOnline [OF o])
  have c2: "clock w1 \<le> clock w2" by (rule clock_getNumberOfIPs [OF g])
  show ?case
  proof (cases "on \<and> n = numIPs")
    case True
    then have "checkDevices E ds w2 = (b, w')" using Cons.prems d o g by simp
    from Cons.IH [OF this] c1 c2 show ?thesis by simp
  next
    case False
    then have "w' = w1 \<or> w' = w2" using Cons.prems d o g by (cases on) (auto split: if_splits)
    then show ?thesis using c1 c2 by auto
  qed
qed

text \<open>
  The loop of \<open>waitForNetworkOnline\<close> over the devices to check, with its deadline. It ends for
  the same reason as the loop of the rename waiter.
\<close>

function onlineLoop ::
  "env \<Rightarrow> (string \<times> int) list \<Rightarrow> int \<Rightarrow> world \<Rightarrow> (error + unit) \<times> world" where
  "onlineLoop E devices endTime w =
     (if clock w > endTime then (Inl onlineTimeout, w)
      else
        (case checkDevices E (rangeOver E w devices) w of
           (True, w1) \<Rightarrow> (Inr (), w1)
         | (False, w1) \<Rightarrow> onlineLoop E devices endTime (sleep E (500 * Millisecond) w1)))"
  by pat_completeness auto
termination
proof (relation "measure (\<lambda>(E, devices, endTime, w). nat (endTime + 1 - clock w))", goal_cases)
  case 1
  show ?case by simp
next
  case (2 E devices endTime w x w1)
  have "clock w \<le> clock w1" using 2 clock_checkDevices by metis
  moreover have "clock w1 + 500 * Millisecond \<le> clock (sleep E (500 * Millisecond) w1)"
    by (rule clock_sleep) (simp add: Millisecond_def)
  ultimately show ?case using 2 by (simp add: Millisecond_def)
qed

declare onlineLoop.simps [simp del]

definition waitForNetworkOnline ::
  "env \<Rightarrow> SystemNetworkConfig \<Rightarrow> int \<Rightarrow> world \<Rightarrow> (error + unit) \<times> world" where
  "waitForNetworkOnline E networkCfg timeout w =
     onlineLoop E (devicesToCheck networkCfg) (clock w + timeout) w"

section \<open>The apply orchestrator: ApplyNetworkConfiguration\<close>

text \<open>The hostname handed to \<open>SetHostname\<close>.\<close>

definition targetHostname :: "SystemNetworkConfig \<Rightarrow> string" where
  "targetHostname networkCfg =
     (case DNS networkCfg of
        None \<Rightarrow> []
      | Some dns \<Rightarrow>
          if Hostname dns \<noteq> [] then
            (if Domain dns \<noteq> [] then Hostname dns @ ''.'' @ Domain dns else Hostname dns)
          else [])"

definition noConfigError :: error where
  "noConfigError = ErrorsNew ''no network configuration provided''"

text \<open>A call whose output is dropped: only success or the error is kept.\<close>

definition run :: "env \<Rightarrow> call \<Rightarrow> world \<Rightarrow> (error + unit) \<times> world" where
  "run E c w = (case exec E c w of (Inl err, w') \<Rightarrow> (Inl err, w') | (Inr _, w') \<Rightarrow> (Inr (), w'))"

definition ApplyNetworkConfiguration ::
  "env \<Rightarrow> SystemNetworkConfig option \<Rightarrow> int \<Rightarrow> world \<Rightarrow> (error + unit) \<times> world" where
  "ApplyNetworkConfiguration E networkCfgPtr timeout w =
     (case networkCfgPtr of
        None \<Rightarrow> (Inl noConfigError, w)
      | Some networkCfg \<Rightarrow>
     (case run E (SetHostname (targetHostname networkCfg)) w of
        (Inl err, w1) \<Rightarrow> (Inl err, w1)
      | (Inr _, w1) \<Rightarrow>
     (case run E (UpdateEnvironment (Proxy networkCfg)) w1 of
        (Inl err, w2) \<Rightarrow> (Inl err, w2)
      | (Inr _, w2) \<Rightarrow>
     (case generateNetworkConfiguration E networkCfg w2 of
        (Inl err, w3) \<Rightarrow> (Inl err, w3)
      | (Inr _, w3) \<Rightarrow>
     (case waitForUdevInterfaceRename E (5 * Second) w3 of
        (Inl err, w4) \<Rightarrow> (Inl err, w4)
      | (Inr _, w4) \<Rightarrow>
     (case run E (RestartUnit ''systemd-networkd'') w4 of
        (Inl err, w5) \<Rightarrow> (Inl err, w5)
      | (Inr _, w5) \<Rightarrow>
     (case run E (RestartUnit ''systemd-timesyncd'') w5 of
        (Inl err, w6) \<Rightarrow> (Inl err, w6)
      | (Inr _, w6) \<Rightarrow> waitForNetworkOnline E networkCfg timeout w6)))))))"

section \<open>Link-match artifacts (C7)\<close>

lemma ReplaceAll_delete: "ReplaceAll s c [] = filter (\<lambda>x. x \<noteq> c) s"
  by (induction s) auto

lemma isASCII_filter: "isASCII s \<Longrightarrow> isASCII (filter P s)"
  by (induction s) (auto simp: isASCII_def)

lemma strippedHwaddr_filter:
  "strippedHwaddr U hw = ToLower U (filter (\<lambda>c. c \<noteq> CHR '':'') hw)"
  by (simp add: strippedHwaddr_def ReplaceAll_delete)

lemma strippedHwaddr_eq:
  "isASCII hw \<Longrightarrow> strippedHwaddr U hw = map toLowerChar (filter (\<lambda>c. c \<noteq> CHR '':'') hw)"
  by (simp add: strippedHwaddr_filter ToLower_def isASCII_filter)

lemma toLowerChar_not_upper:
  "\<not> (65 \<le> (of_char (toLowerChar c) :: nat) \<and> (of_char (toLowerChar c) :: nat) \<le> 90)"
  by (auto simp: toLowerChar_def Let_def)

lemma toLowerChar_colon: "toLowerChar c = CHR '':'' \<Longrightarrow> c = CHR '':''"
proof (cases "65 \<le> (of_char c :: nat) \<and> (of_char c :: nat) \<le> 90")
  case True
  assume "toLowerChar c = CHR '':''"
  then have "char_of (of_char c + 32 :: nat) = CHR '':''"
    using True by (simp add: toLowerChar_def)
  then have "(of_char (char_of (of_char c + 32 :: nat)) :: nat) = of_char CHR '':''"
    by simp
  then show ?thesis using True by simp
next
  case False
  assume "toLowerChar c = CHR '':''"
  then show ?thesis using False by (simp add: toLowerChar_def)
qed

lemma link00: "HasPrefix (Name (linkFile U ''00'' hw)) ''00-''"
  by (simp add: linkFile_def HasPrefix_def)

lemma link01: "\<not> HasPrefix (Name (linkFile U ''01'' hw)) ''00-''"
  by (simp add: linkFile_def HasPrefix_def)

lemma filter_links:
  "filter (\<lambda>f. HasPrefix (Name f) ''00-'') (generateLinkFileContents U networkCfg) =
     map (\<lambda>i. linkFile U ''00'' (if_Hwaddr i)) (Interfaces networkCfg)"
proof -
  have a: "filter (\<lambda>f. HasPrefix (Name f) ''00-'') (map (\<lambda>i. linkFile U ''00'' (if_Hwaddr i)) is)
          = map (\<lambda>i. linkFile U ''00'' (if_Hwaddr i)) is" for "is"
    by (induction "is") (simp_all add: link00)
  have b: "filter (\<lambda>f. HasPrefix (Name f) ''00-'') (map (\<lambda>member. linkFile U ''01'' member) ms) = []"
    for ms
    by (induction ms) (simp_all add: link01)
  have c: "filter (\<lambda>f. HasPrefix (Name f) ''00-'')
             (concat (map (\<lambda>b. map (\<lambda>member. linkFile U ''01'' member) (bond_Members b)) bs)) = []"
    for bs
    by (induction bs) (simp_all add: b)
  show ?thesis by (simp add: generateLinkFileContents_def a c)
qed

lemma example_hwaddr_ascii: "isASCII ''AA:BB:CC:DD:EE:FF''"
  by code_simp

lemma example_hwaddr_lower:
  "map toLowerChar (filter (\<lambda>c. c \<noteq> CHR '':'') ''AA:BB:CC:DD:EE:FF'') = ''aabbccddeeff''"
  by code_simp

text \<open>
  Claim C7. Among the files of \<open>generateLinkFileContents\<close>, those whose name starts with \<open>00-\<close>
  are exactly one per interface, in the order of the interfaces: the file
  \<open>00-en<mac>.link\<close> that matches on \<open>PermanentMACAddress=<Hwaddr>\<close>, sets an empty
  \<open>NamePolicy=\<close> and assigns \<open>Name=en<mac>\<close>, where \<open><mac>\<close> is \<open>strings.ToLower\<close> of the
  hardware address without its colons. For a hardware address that is ASCII, \<open><mac>\<close> is the
  address without its colons and with \<open>A\<close>..\<open>Z\<close> in lower case, so it holds no colon and no
  capital letter; \<open>AA:BB:CC:DD:EE:FF\<close> gives \<open>enaabbccddeeff\<close>.
\<close>

theorem link_match_artifact_per_interface:
  "filter (\<lambda>f. HasPrefix (Name f) ''00-'') (generateLinkFileContents U networkCfg) =
     map (\<lambda>i. \<lparr>Name = ''00-en'' @ strippedHwaddr U (if_Hwaddr i) @ ''.link'',
                Contents = ''[Match]'' @ NL @ ''PermanentMACAddress='' @ if_Hwaddr i @ NL @ NL @
                           ''[Link]'' @ NL @ ''NamePolicy='' @ NL @
                           ''Name=en'' @ strippedHwaddr U (if_Hwaddr i) @ NL\<rparr>)
       (Interfaces networkCfg)
   \<and> strippedHwaddr U hw = ToLower U (filter (\<lambda>c. c \<noteq> CHR '':'') hw)
   \<and> (isASCII hw \<longrightarrow>
        strippedHwaddr U hw = map toLowerChar (filter (\<lambda>c. c \<noteq> CHR '':'') hw)
      \<and> CHR '':'' \<notin> set (strippedHwaddr U hw)
      \<and> filter (\<lambda>c. 65 \<le> (of_char c :: nat) \<and> (of_char c :: nat) \<le> 90)
           (strippedHwaddr U hw) = [])
   \<and> ''en'' @ strippedHwaddr U ''AA:BB:CC:DD:EE:FF'' = ''enaabbccddeeff''"
proof (intro conjI impI)
  show "filter (\<lambda>f. HasPrefix (Name f) ''00-'') (generateLinkFileContents U networkCfg) =
     map (\<lambda>i. \<lparr>Name = ''00-en'' @ strippedHwaddr U (if_Hwaddr i) @ ''.link'',
                Contents = ''[Match]'' @ NL @ ''PermanentMACAddress='' @ if_Hwaddr i @ NL @ NL @
                           ''[Link]'' @ NL @ ''NamePolicy='' @ NL @
                           ''Name=en'' @ strippedHwaddr U (if_Hwaddr i) @ NL\<rparr>)
       (Interfaces networkCfg)"
    by (simp add: filter_links linkFile_def)
  show "strippedHwaddr U hw = ToLower U (filter (\<lambda>c. c \<noteq> CHR '':'') hw)"
    by (rule strippedHwaddr_filter)
  show "''en'' @ strippedHwaddr U ''AA:BB:CC:DD:EE:FF'' = ''enaabbccddeeff''"
    by (simp only: strippedHwaddr_eq [OF example_hwaddr_ascii] example_hwaddr_lower) simp
next
  assume a: "isASCII hw"
  show "strippedHwaddr U hw = map toLowerChar (filter (\<lambda>c. c \<noteq> CHR '':'') hw)"
    by (rule strippedHwaddr_eq [OF a])
  show "CHR '':'' \<notin> set (strippedHwaddr U hw)"
    by (auto simp: strippedHwaddr_eq [OF a] dest!: toLowerChar_colon [OF sym])
  show "filter (\<lambda>c. 65 \<le> (of_char c :: nat) \<and> (of_char c :: nat) \<le> 90)
           (strippedHwaddr U hw) = []"
    unfolding strippedHwaddr_eq [OF a] filter_empty_conv using toLowerChar_not_upper by auto
qed

theorem link_match_artifact_per_interface_witness:
  "isASCII ''AA:BB:CC:DD:EE:FF''
   \<and> strippedHwaddr (\<lambda>s. s) ''AA:BB:CC:DD:EE:FF'' = ''aabbccddeeff''
   \<and> CHR '':'' \<notin> set (strippedHwaddr (\<lambda>s. s) ''AA:BB:CC:DD:EE:FF'')
   \<and> filter (\<lambda>c. 65 \<le> (of_char c :: nat) \<and> (of_char c :: nat) \<le> 90)
        (strippedHwaddr (\<lambda>s. s) ''AA:BB:CC:DD:EE:FF'') = []"
proof -
  note t = mp [OF conjunct1 [OF conjunct2 [OF conjunct2 [OF
             link_match_artifact_per_interface
               [where U = "\<lambda>s. s" and hw = "''AA:BB:CC:DD:EE:FF''"]]]] example_hwaddr_ascii]
  have "strippedHwaddr (\<lambda>s. s) ''AA:BB:CC:DD:EE:FF'' = ''aabbccddeeff''"
    using conjunct1 [OF t] by (simp only: example_hwaddr_lower)
  then show ?thesis using example_hwaddr_ascii conjunct2 [OF t] by (intro conjI) simp_all
qed

section \<open>Required address family (C6)\<close>

lemma Contains_single: "Contains s [c] \<longleftrightarrow> c \<in> set s"
  by (induction s) (auto simp: HasPrefix_def)

text \<open>
  The families an address list asks for, in the words of the specification: IPv4 is expected
  when \<open>dhcp4\<close> is listed or some entry contains a dot, IPv6 when \<open>dhcp6\<close> or \<open>slaac\<close> is listed
  or some entry contains a colon. (None of the three tokens contains a dot or a colon.)
\<close>

definition expectsIPv4 :: "string list \<Rightarrow> bool" where
  "expectsIPv4 addresses = (''dhcp4'' \<in> set addresses \<or> (\<exists>a \<in> set addresses. CHR ''.'' \<in> set a))"

definition expectsIPv6 :: "string list \<Rightarrow> bool" where
  "expectsIPv6 addresses =
     (''dhcp6'' \<in> set addresses \<or> ''slaac'' \<in> set addresses \<or> (\<exists>a \<in> set addresses. CHR '':'' \<in> set a))"

lemma linkSectionLoop_eq:
  "linkSectionLoop addrs (b4, b6) = (b4 \<or> expectsIPv4 addrs, b6 \<or> expectsIPv6 addrs)"
proof (induction addrs arbitrary: b4 b6)
  case Nil
  then show ?case by (simp add: expectsIPv4_def expectsIPv6_def)
next
  case (Cons a addrs)
  show ?case
    by (simp add: Cons.IH Contains_single expectsIPv4_def expectsIPv6_def) auto
qed

text \<open>
  Claim C6. \<open>generateLinkSectionContents\<close> renders \<open>RequiredForOnline=no\<close> for the empty list,
  and otherwise \<open>RequiredForOnline=yes\<close> with \<open>RequiredFamilyForOnline=both\<close> when both families
  are expected, \<open>ipv4\<close> when only IPv4 is, and \<open>ipv6\<close> in every other case. In particular
  \<open>["dhcp4"]\<close> gives \<open>ipv4\<close>, \<open>["slaac"]\<close> gives \<open>ipv6\<close>, \<open>["dhcp4","slaac"]\<close> gives \<open>both\<close> and
  \<open>[]\<close> gives \<open>RequiredForOnline=no\<close>.
\<close>

theorem required_family_for_online:
  "generateLinkSectionContents addresses =
     (if addresses = [] then ''RequiredForOnline=no''
      else if expectsIPv4 addresses \<and> expectsIPv6 addresses then
        ''RequiredForOnline=yes'' @ NL @ ''RequiredFamilyForOnline=both''
      else if expectsIPv4 addresses then
        ''RequiredForOnline=yes'' @ NL @ ''RequiredFamilyForOnline=ipv4''
      else ''RequiredForOnline=yes'' @ NL @ ''RequiredFamilyForOnline=ipv6'')
   \<and> generateLinkSectionContents [''dhcp4''] =
        ''RequiredForOnline=yes'' @ NL @ ''RequiredFamilyForOnline=ipv4''
   \<and> generateLinkSectionContents [''slaac''] =
        ''RequiredForOnline=yes'' @ NL @ ''RequiredFamilyForOnline=ipv6''
   \<and> generateLinkSectionContents [''dhcp4'', ''slaac''] =
        ''RequiredForOnline=yes'' @ NL @ ''RequiredFamilyForOnline=both''
   \<and> generateLinkSectionContents [] = ''RequiredForOnline=no''"
proof -
  have main: "generateLinkSectionContents addrs =
     (if addrs = [] then ''RequiredForOnline=no''
      else if expectsIPv4 addrs \<and> expectsIPv6 addrs then
        ''RequiredForOnline=yes'' @ NL @ ''RequiredFamilyForOnline=both''
      else if expectsIPv4 addrs then
        ''RequiredForOnline=yes'' @ NL @ ''RequiredFamilyForOnline=ipv4''
      else ''RequiredForOnline=yes'' @ NL @ ''RequiredFamilyForOnline=ipv6'')" for addrs
    by (simp add: generateLinkSectionContents_def linkSectionLoop_eq)
  show ?thesis
    by (intro conjI) (simp_all add: main expectsIPv4_def expectsIPv6_def)
qed

section \<open>The DHCP combination table (C5)\<close>

text \<open>An entry that is none of the three tokens: a static address.\<close>

definition isStaticAddress :: "string \<Rightarrow> bool" where
  "isStaticAddress addr = (addr \<noteq> ''dhcp4'' \<and> addr \<noteq> ''dhcp6'' \<and> addr \<noteq> ''slaac'')"

lemma processAddressesLoop_eq:
  "processAddressesLoop addrs (ret, h4, h6, ra) =
     (ret @ concat (map (\<lambda>a. ''Address='' @ a @ NL) (filter isStaticAddress addrs)),
      h4 \<or> ''dhcp4'' \<in> set addrs, h6 \<or> ''dhcp6'' \<in> set addrs, ra \<or> ''slaac'' \<in> set addrs)"
proof (induction addrs arbitrary: ret h4 h6 ra)
  case Nil
  then show ?case by simp
next
  case (Cons a addrs)
  show ?case by (simp add: Cons.IH isStaticAddress_def)
qed

text \<open>The \<open>DHCP=\<close> line of the combination table of the specification.\<close>

definition dhcpLine :: "string list \<Rightarrow> string list" where
  "dhcpLine addresses =
     (if ''dhcp4'' \<in> set addresses \<and> ''dhcp6'' \<in> set addresses then [''DHCP=yes'']
      else if ''dhcp4'' \<in> set addresses then [''DHCP=ipv4'']
      else if ''dhcp6'' \<in> set addresses then [''DHCP=ipv6'']
      else [])"

lemma processAddresses_eq:
  "processAddresses addresses =
     (if addresses = [] then ''LinkLocalAddressing=no'' @ NL @ ''ConfigureWithoutCarrier=yes'' @ NL
      else ''LinkLocalAddressing=ipv6'' @ NL) @
     concat (map (\<lambda>a. ''Address='' @ a @ NL) (filter isStaticAddress addresses)) @
     (if ''slaac'' \<in> set addresses then ''IPv6AcceptRA=true'' @ NL else ''IPv6AcceptRA=false'' @ NL) @
     concat (map (\<lambda>l. l @ NL) (dhcpLine addresses))"
  by (simp add: processAddresses_def processAddressesLoop_eq dhcpLine_def)

text \<open>The lines of a text: the pieces between newlines (\<open>strings.Split(s, "\n")\<close>).\<close>

fun splitLines :: "string \<Rightarrow> string list" where
  "splitLines [] = [[]]"
| "splitLines (c # s) =
     (if c = CHR 0x0A then [] # splitLines s
      else (case splitLines s of [] \<Rightarrow> [[c]] | l # ls \<Rightarrow> (c # l) # ls))"

lemma splitLines_line: "CHR 0x0A \<notin> set l \<Longrightarrow> splitLines (l @ NL @ s) = l # splitLines s"
  by (induction l) auto

lemma splitLines_lines:
  "\<forall>l \<in> set ls. CHR 0x0A \<notin> set l \<Longrightarrow>
   splitLines (concat (map (\<lambda>l. l @ NL) ls) @ s) = ls @ splitLines s"
proof (induction ls)
  case Nil
  then show ?case by simp
next
  case (Cons l ls)
  then show ?case using splitLines_line [of l "concat (map (\<lambda>l. l @ NL) ls) @ s"] by simp
qed

text \<open>The lines \<open>processAddresses\<close> emits, one list element per line.\<close>

definition policyLines :: "string list \<Rightarrow> string list" where
  "policyLines addresses =
     (if addresses = [] then [''LinkLocalAddressing=no'', ''ConfigureWithoutCarrier=yes'']
      else [''LinkLocalAddressing=ipv6'']) @
     map (\<lambda>a. ''Address='' @ a) (filter isStaticAddress addresses) @
     [if ''slaac'' \<in> set addresses then ''IPv6AcceptRA=true'' else ''IPv6AcceptRA=false''] @
     dhcpLine addresses"

lemma processAddresses_policyLines:
  "processAddresses addresses = concat (map (\<lambda>l. l @ NL) (policyLines addresses))"
  by (simp add: processAddresses_eq policyLines_def comp_def)

lemma policyLines_no_newline:
  assumes "\<forall>a \<in> set addresses. CHR 0x0A \<notin> set a"
  shows "\<forall>l \<in> set (policyLines addresses). CHR 0x0A \<notin> set l"
  using assms by (auto simp: policyLines_def dhcpLine_def)

lemma splitLines_processAddresses:
  assumes "\<forall>a \<in> set addresses. CHR 0x0A \<notin> set a"
  shows "splitLines (processAddresses addresses) = policyLines addresses @ [[]]"
  using splitLines_lines [OF policyLines_no_newline [OF assms], of "[]"]
  by (simp add: processAddresses_policyLines)

lemma dhcp_lines_of_policy:
  "filter (\<lambda>l. HasPrefix l ''DHCP='') (policyLines addresses @ [[]]) = dhcpLine addresses"
proof -
  have "filter (\<lambda>l. HasPrefix l ''DHCP='') (map (\<lambda>a. ''Address='' @ a) as) = []" for as
    by (induction as) (simp_all add: HasPrefix_def)
  then show ?thesis
    by (simp add: policyLines_def dhcpLine_def HasPrefix_def)
qed


text \<open>
  Claim C5. The text of \<open>processAddresses\<close> is: the link-local header, one line
  \<open>Address=<entry>\<close> for every entry that is none of \<open>dhcp4\<close>, \<open>dhcp6\<close>, \<open>slaac\<close> (verbatim, in
  order), the line \<open>IPv6AcceptRA=true\<close> when \<open>slaac\<close> is listed and \<open>IPv6AcceptRA=false\<close> when not,
  and last \<open>DHCP=yes\<close> when both \<open>dhcp4\<close> and \<open>dhcp6\<close> are listed, \<open>DHCP=ipv4\<close> for \<open>dhcp4\<close>
  alone, \<open>DHCP=ipv6\<close> for \<open>dhcp6\<close> alone, and nothing when neither is listed. Read line by line
  (for entries that hold no newline): the lines that start with \<open>DHCP=\<close> are exactly the one
  line of that table or none, the lines that start with \<open>Address=\<close> are exactly the static
  entries, and \<open>IPv6AcceptRA=true\<close> is a line exactly when \<open>slaac\<close> is listed.
\<close>

theorem dhcp_combination:
  "processAddresses addresses =
     (if addresses = [] then ''LinkLocalAddressing=no'' @ NL @ ''ConfigureWithoutCarrier=yes'' @ NL
      else ''LinkLocalAddressing=ipv6'' @ NL) @
     concat (map (\<lambda>a. ''Address='' @ a @ NL) (filter isStaticAddress addresses)) @
     (if ''slaac'' \<in> set addresses then ''IPv6AcceptRA=true'' @ NL else ''IPv6AcceptRA=false'' @ NL) @
     (if ''dhcp4'' \<in> set addresses \<and> ''dhcp6'' \<in> set addresses then ''DHCP=yes'' @ NL
      else if ''dhcp4'' \<in> set addresses then ''DHCP=ipv4'' @ NL
      else if ''dhcp6'' \<in> set addresses then ''DHCP=ipv6'' @ NL
      else [])
   \<and> ((\<forall>a \<in> set addresses. CHR 0x0A \<notin> set a) \<longrightarrow>
        filter (\<lambda>l. HasPrefix l ''DHCP='') (splitLines (processAddresses addresses)) =
          (if ''dhcp4'' \<in> set addresses \<and> ''dhcp6'' \<in> set addresses then [''DHCP=yes'']
           else if ''dhcp4'' \<in> set addresses then [''DHCP=ipv4'']
           else if ''dhcp6'' \<in> set addresses then [''DHCP=ipv6'']
           else [])
      \<and> filter (\<lambda>l. HasPrefix l ''Address='') (splitLines (processAddresses addresses)) =
          map (\<lambda>a. ''Address='' @ a) (filter isStaticAddress addresses)
      \<and> (''IPv6AcceptRA=true'' \<in> set (splitLines (processAddresses addresses))
            \<longleftrightarrow> ''slaac'' \<in> set addresses))"
proof (intro conjI impI)
  show "processAddresses addresses =
     (if addresses = [] then ''LinkLocalAddressing=no'' @ NL @ ''ConfigureWithoutCarrier=yes'' @ NL
      else ''LinkLocalAddressing=ipv6'' @ NL) @
     concat (map (\<lambda>a. ''Address='' @ a @ NL) (filter isStaticAddress addresses)) @
     (if ''slaac'' \<in> set addresses then ''IPv6AcceptRA=true'' @ NL else ''IPv6AcceptRA=false'' @ NL) @
     (if ''dhcp4'' \<in> set addresses \<and> ''dhcp6'' \<in> set addresses then ''DHCP=yes'' @ NL
      else if ''dhcp4'' \<in> set addresses then ''DHCP=ipv4'' @ NL
      else if ''dhcp6'' \<in> set addresses then ''DHCP=ipv6'' @ NL
      else [])"
    by (simp add: processAddresses_eq dhcpLine_def)
next
  assume nl: "\<forall>a \<in> set addresses. CHR 0x0A \<notin> set a"
  show "filter (\<lambda>l. HasPrefix l ''DHCP='') (splitLines (processAddresses addresses)) =
          (if ''dhcp4'' \<in> set addresses \<and> ''dhcp6'' \<in> set addresses then [''DHCP=yes'']
           else if ''dhcp4'' \<in> set addresses then [''DHCP=ipv4'']
           else if ''dhcp6'' \<in> set addresses then [''DHCP=ipv6'']
           else [])"
    unfolding splitLines_processAddresses [OF nl] dhcp_lines_of_policy
    by (simp add: dhcpLine_def)
next
  assume nl: "\<forall>a \<in> set addresses. CHR 0x0A \<notin> set a"
  have "filter (\<lambda>l. HasPrefix l ''Address='') (map (\<lambda>a. ''Address='' @ a) as) =
          map (\<lambda>a. ''Address='' @ a) as" for as
    by (induction as) (simp_all add: HasPrefix_def)
  then show "filter (\<lambda>l. HasPrefix l ''Address='') (splitLines (processAddresses addresses)) =
          map (\<lambda>a. ''Address='' @ a) (filter isStaticAddress addresses)"
    unfolding splitLines_processAddresses [OF nl]
    by (simp add: policyLines_def dhcpLine_def HasPrefix_def)
next
  assume nl: "\<forall>a \<in> set addresses. CHR 0x0A \<notin> set a"
  show "''IPv6AcceptRA=true'' \<in> set (splitLines (processAddresses addresses))
            \<longleftrightarrow> ''slaac'' \<in> set addresses"
    unfolding splitLines_processAddresses [OF nl]
    by (auto simp: policyLines_def dhcpLine_def)
qed

theorem dhcp_combination_witness:
  "list_all (\<lambda>a. CHR 0x0A \<notin> set a) [''dhcp4'', ''10.0.0.5/24'', ''slaac'']
   \<and> filter (\<lambda>l. HasPrefix l ''DHCP='')
        (splitLines (processAddresses [''dhcp4'', ''10.0.0.5/24'', ''slaac''])) = [''DHCP=ipv4'']
   \<and> filter (\<lambda>l. HasPrefix l ''Address='')
        (splitLines (processAddresses [''dhcp4'', ''10.0.0.5/24'', ''slaac''])) = [''Address=10.0.0.5/24'']
   \<and> ''IPv6AcceptRA=true'' \<in> set (splitLines (processAddresses [''dhcp4'', ''10.0.0.5/24'', ''slaac'']))"
proof -
  have h: "\<forall>a \<in> set [''dhcp4'', ''10.0.0.5/24'', ''slaac'']. CHR 0x0A \<notin> set a" by simp
  note r = mp [OF conjunct2 [OF dhcp_combination [of "[''dhcp4'', ''10.0.0.5/24'', ''slaac'']"]] h]
  show ?thesis using h r by (simp add: isStaticAddress_def)
qed


section \<open>The tag set of a bridge (C3)\<close>

text \<open>
  The tag set of a bridge in the words of the specification: the primary VLAN id when it is
  not zero, the additional tags, and the id of every VLAN entry whose parent is the bridge.
\<close>

definition bridgeTagSet :: "string \<Rightarrow> int \<Rightarrow> int list \<Rightarrow> SystemNetworkVLAN list \<Rightarrow> int set" where
  "bridgeTagSet bridgeName specificVLAN additionalVLANTags vlans =
     (if specificVLAN \<noteq> 0 then {specificVLAN} else {}) \<union> set additionalVLANTags \<union>
     vlan_ID ` {v \<in> set vlans. vlan_Parent v = bridgeName}"

lemma distinct_remdups_adj_sorted: "sorted xs \<Longrightarrow> distinct (remdups_adj xs)"
  by (induction xs rule: remdups_adj.induct) (auto simp: less_le)

lemma set_vlanTagsOfVLANs:
  "set (vlanTagsOfVLANs bridgeName vlans) = vlan_ID ` {v \<in> set vlans. vlan_Parent v = bridgeName}"
  by (induction vlans) auto

lemma bridgeVLANTags_set:
  "set (bridgeVLANTags bridgeName specificVLAN additionalVLANTags vlans) =
     bridgeTagSet bridgeName specificVLAN additionalVLANTags vlans"
  by (auto simp: bridgeVLANTags_def bridgeTagSet_def set_vlanTagsOfVLANs)

lemma bridgeVLANTags_sorted:
  "sorted (bridgeVLANTags bridgeName specificVLAN additionalVLANTags vlans)"
  by (simp add: bridgeVLANTags_def)

lemma bridgeVLANTags_distinct:
  "distinct (bridgeVLANTags bridgeName specificVLAN additionalVLANTags vlans)"
  by (simp add: bridgeVLANTags_def distinct_remdups_adj_sorted)

lemma bridgeVLANTags_cong:
  assumes "set tags' = set tags" "set vlans' = set vlans"
  shows "bridgeVLANTags bridgeName specificVLAN tags' vlans' =
         bridgeVLANTags bridgeName specificVLAN tags vlans"
proof (rule sorted_distinct_set_unique)
  show "set (bridgeVLANTags bridgeName specificVLAN tags' vlans') =
        set (bridgeVLANTags bridgeName specificVLAN tags vlans)"
    using assms by (simp add: bridgeVLANTags_set bridgeTagSet_def)
qed (rule bridgeVLANTags_sorted bridgeVLANTags_distinct)+

lemma generateBridgeVLANContents_eq:
  "generateBridgeVLANContents bridgeName specificVLAN additionalVLANTags vlans =
     (if specificVLAN \<noteq> 0 then
        NL @ ''[BridgeVLAN]'' @ NL @ ''PVID='' @ fmt_d specificVLAN @ NL @
        ''EgressUntagged='' @ fmt_d specificVLAN @ NL
      else []) @
     concat (map (\<lambda>tag. NL @ ''[BridgeVLAN]'' @ NL @ ''VLAN='' @ fmt_d tag @ NL)
       (bridgeVLANTags bridgeName specificVLAN additionalVLANTags vlans))"
proof (cases "bridgeVLANTags bridgeName specificVLAN additionalVLANTags vlans = []")
  case True
  then have "bridgeTagSet bridgeName specificVLAN additionalVLANTags vlans = {}"
    using bridgeVLANTags_set [of bridgeName specificVLAN additionalVLANTags vlans] by simp
  then have "specificVLAN = 0" by (auto simp: bridgeTagSet_def split: if_splits)
  then show ?thesis using True by (simp add: generateBridgeVLANContents_def)
next
  case False
  then show ?thesis by (simp add: generateBridgeVLANContents_def Let_def)
qed


lemma bridgeVLANTags_eq:
  "bridgeVLANTags bridgeName specificVLAN additionalVLANTags vlans =
     sorted_list_of_set (bridgeTagSet bridgeName specificVLAN additionalVLANTags vlans)"
proof (rule sorted_distinct_set_unique)
  have "finite (bridgeTagSet bridgeName specificVLAN additionalVLANTags vlans)"
    by (simp add: bridgeTagSet_def)
  then show "set (bridgeVLANTags bridgeName specificVLAN additionalVLANTags vlans) =
     set (sorted_list_of_set (bridgeTagSet bridgeName specificVLAN additionalVLANTags vlans))"
    by (simp add: bridgeVLANTags_set)
qed (simp_all add: bridgeVLANTags_sorted bridgeVLANTags_distinct)

text \<open>
  Claim C3. \<open>generateBridgeVLANContents\<close> renders one \<open>[BridgeVLAN]\<close> block \<open>VLAN=<tag>\<close> for
  each element of the tag set of the bridge, ascending and each once
  (\<open>sorted_list_of_set\<close>), after a block with \<open>PVID=\<close> and \<open>EgressUntagged=\<close> of the primary
  VLAN id when that is not zero. So the text depends on the additional tags and on the VLAN
  entries only through the sets of their elements: permuting or repeating entries changes
  nothing. Primary VLAN 20 with additional tags \<open>[30, 20, 10]\<close> and one VLAN entry of id 30
  on the bridge renders the tags 10, 20, 30.
\<close>

theorem bridge_vlan_tag_set:
  "generateBridgeVLANContents bridgeName specificVLAN additionalVLANTags vlans =
     (if specificVLAN \<noteq> 0 then
        NL @ ''[BridgeVLAN]'' @ NL @ ''PVID='' @ fmt_d specificVLAN @ NL @
        ''EgressUntagged='' @ fmt_d specificVLAN @ NL
      else []) @
     concat (map (\<lambda>tag. NL @ ''[BridgeVLAN]'' @ NL @ ''VLAN='' @ fmt_d tag @ NL)
       (sorted_list_of_set (bridgeTagSet bridgeName specificVLAN additionalVLANTags vlans)))
   \<and> (set tags' = set additionalVLANTags \<and> set vlans' = set vlans \<longrightarrow>
        generateBridgeVLANContents bridgeName specificVLAN tags' vlans' =
        generateBridgeVLANContents bridgeName specificVLAN additionalVLANTags vlans)
   \<and> generateBridgeVLANContents ''br0'' 20 [30, 20, 10]
        [\<lparr>vlan_Name = ''vlan30'', vlan_Parent = ''br0'', vlan_ID = 30, vlan_MTU = 0,
          vlan_Addresses = [], vlan_Routes = []\<rparr>] =
      NL @ ''[BridgeVLAN]'' @ NL @ ''PVID=20'' @ NL @ ''EgressUntagged=20'' @ NL @
      NL @ ''[BridgeVLAN]'' @ NL @ ''VLAN=10'' @ NL @
      NL @ ''[BridgeVLAN]'' @ NL @ ''VLAN=20'' @ NL @
      NL @ ''[BridgeVLAN]'' @ NL @ ''VLAN=30'' @ NL"
proof (intro conjI impI)
  show "generateBridgeVLANContents bridgeName specificVLAN additionalVLANTags vlans =
     (if specificVLAN \<noteq> 0 then
        NL @ ''[BridgeVLAN]'' @ NL @ ''PVID='' @ fmt_d specificVLAN @ NL @
        ''EgressUntagged='' @ fmt_d specificVLAN @ NL
      else []) @
     concat (map (\<lambda>tag. NL @ ''[BridgeVLAN]'' @ NL @ ''VLAN='' @ fmt_d tag @ NL)
       (sorted_list_of_set (bridgeTagSet bridgeName specificVLAN additionalVLANTags vlans)))"
    by (simp only: generateBridgeVLANContents_eq bridgeVLANTags_eq)
next
  assume "set tags' = set additionalVLANTags \<and> set vlans' = set vlans"
  then have "bridgeVLANTags bridgeName specificVLAN tags' vlans' =
             bridgeVLANTags bridgeName specificVLAN additionalVLANTags vlans"
    by (simp add: bridgeVLANTags_cong [of tags' additionalVLANTags vlans' vlans])
  then show "generateBridgeVLANContents bridgeName specificVLAN tags' vlans' =
        generateBridgeVLANContents bridgeName specificVLAN additionalVLANTags vlans"
    by (simp add: generateBridgeVLANContents_def)
next
  show "generateBridgeVLANContents ''br0'' 20 [30, 20, 10]
        [\<lparr>vlan_Name = ''vlan30'', vlan_Parent = ''br0'', vlan_ID = 30, vlan_MTU = 0,
          vlan_Addresses = [], vlan_Routes = []\<rparr>] =
      NL @ ''[BridgeVLAN]'' @ NL @ ''PVID=20'' @ NL @ ''EgressUntagged=20'' @ NL @
      NL @ ''[BridgeVLAN]'' @ NL @ ''VLAN=10'' @ NL @
      NL @ ''[BridgeVLAN]'' @ NL @ ''VLAN=20'' @ NL @
      NL @ ''[BridgeVLAN]'' @ NL @ ''VLAN=30'' @ NL"
    by code_simp
qed

theorem bridge_vlan_tag_set_witness:
  "set [10, 30, 30, 20, 10] = set [30, 20, 10 :: int]
   \<and> generateBridgeVLANContents ''br0'' 20 [10, 30, 30, 20, 10] [] =
      generateBridgeVLANContents ''br0'' 20 [30, 20, 10] []"
proof -
  have h: "set [10, 30, 30, 20, 10] = set [30, 20, 10 :: int] \<and>
           set ([] :: SystemNetworkVLAN list) = set []"
    by auto
  note r = mp [OF conjunct1 [OF conjunct2 [OF bridge_vlan_tag_set
                 [of "''br0''" 20 "[30, 20, 10]" "[]" "[10, 30, 30, 20, 10]" "[]"]]] h]
  show ?thesis
  proof (rule conjI)
    show "set [10, 30, 30, 20, 10] = set [30, 20, 10 :: int]" by auto
    show "generateBridgeVLANContents ''br0'' 20 [10, 30, 30, 20, 10] [] =
      generateBridgeVLANContents ''br0'' 20 [30, 20, 10] []" by (rule r)
  qed
qed

section \<open>Bond and VLAN hardware addresses (C4)\<close>

text \<open>
  The two derivations in the words of the specification. The rendering MAC of a bond is its
  \<open>Hwaddr\<close> when that is not empty, otherwise its first member. The parent MAC of a VLAN is the
  \<open>Hwaddr\<close> of the first interface named as the parent; without such an interface, the
  rendering MAC of the first bond named so; without either, the empty string.
\<close>

definition bondRenderingMAC :: "SystemNetworkBond \<Rightarrow> string" where
  "bondRenderingMAC b = (if bond_Hwaddr b \<noteq> [] then bond_Hwaddr b else hd (bond_Members b))"

definition vlanParentMAC :: "SystemNetworkConfig \<Rightarrow> string \<Rightarrow> string" where
  "vlanParentMAC networkCfg parent =
     (case find (\<lambda>i. if_Name i = parent) (Interfaces networkCfg) of
        Some i \<Rightarrow> if_Hwaddr i
      | None \<Rightarrow>
          (case find (\<lambda>b. bond_Name b = parent) (Bonds networkCfg) of
             Some b \<Rightarrow> bondRenderingMAC b
           | None \<Rightarrow> []))"

lemma bondMacAddr_eq:
  "bond_Hwaddr b = [] \<longrightarrow> bond_Members b \<noteq> [] \<Longrightarrow> bondMacAddr b = Inr (bondRenderingMAC b)"
  by (auto simp: bondMacAddr_def bondRenderingMAC_def split: list.splits)

lemma interfaceLookup_eq:
  "interfaceLookup parent is =
     (case find (\<lambda>i. if_Name i = parent) is of Some i \<Rightarrow> if_Hwaddr i | None \<Rightarrow> [])"
  by (induction "is") auto

lemma bondLookup_eq:
  "\<forall>b \<in> set bs. bond_Hwaddr b = [] \<longrightarrow> bond_Members b \<noteq> [] \<Longrightarrow>
   bondLookup parent bs =
     Inr (case find (\<lambda>b. bond_Name b = parent) bs of Some b \<Rightarrow> bondRenderingMAC b | None \<Rightarrow> [])"
  by (induction bs) (auto simp: bondRenderingMAC_def split: list.splits)

lemma find_bond_None:
  "\<forall>b \<in> set bs. bond_Name b \<noteq> parent \<Longrightarrow> find (\<lambda>b. bond_Name b = parent) bs = None"
  by (induction bs) auto

lemma parentMACAddress_eq:
  assumes members: "\<forall>b \<in> set (Bonds networkCfg). bond_Hwaddr b = [] \<longrightarrow> bond_Members b \<noteq> []"
    and hwaddr: "\<forall>i \<in> set (Interfaces networkCfg). if_Hwaddr i = [] \<longrightarrow>
                   (\<forall>b \<in> set (Bonds networkCfg). bond_Name b \<noteq> if_Name i)"
  shows "parentMACAddress networkCfg v = Inr (vlanParentMAC networkCfg (vlan_Parent v))"
proof (cases "find (\<lambda>i. if_Name i = vlan_Parent v) (Interfaces networkCfg)")
  case None
  then show ?thesis
    by (simp add: parentMACAddress_def vlanParentMAC_def interfaceLookup_eq bondLookup_eq [OF members] Let_def)
next
  case (Some i)
  then have i: "i \<in> set (Interfaces networkCfg)" "if_Name i = vlan_Parent v"
    by (auto simp: find_Some_iff)
  show ?thesis
  proof (cases "if_Hwaddr i = []")
    case False
    then show ?thesis using Some
      by (simp add: parentMACAddress_def vlanParentMAC_def interfaceLookup_eq Let_def)
  next
    case True
    then have "\<forall>b \<in> set (Bonds networkCfg). bond_Name b \<noteq> vlan_Parent v"
      using hwaddr i by metis
    then have "find (\<lambda>b. bond_Name b = vlan_Parent v) (Bonds networkCfg) = None"
      by (rule find_bond_None)
    then show ?thesis using Some True
      by (simp add: parentMACAddress_def vlanParentMAC_def interfaceLookup_eq
          bondLookup_eq [OF members] Let_def)
  qed
qed

lemma bondNetdevs_eq:
  "\<forall>b \<in> set bs. bond_Hwaddr b = [] \<longrightarrow> bond_Members b \<noteq> [] \<Longrightarrow>
   bondNetdevs U bs =
     Inr (concat (map (\<lambda>b.
       [bondNetdev (strippedHwaddr U (bondRenderingMAC b)) (bondRenderingMAC b)
          (mtuString (bond_MTU b)) (bond_Mode b),
        bridgeNetdev (''11-br'' @ strippedHwaddr U (bondRenderingMAC b) @ ''.netdev'')
          (bond_Name b) (bondRenderingMAC b) (mtuString (bond_MTU b))]) bs))"
  by (induction bs) (simp_all add: bondMacAddr_eq)

lemma vlanNetdevs_eq:
  assumes members: "\<forall>b \<in> set (Bonds networkCfg). bond_Hwaddr b = [] \<longrightarrow> bond_Members b \<noteq> []"
    and hwaddr: "\<forall>i \<in> set (Interfaces networkCfg). if_Hwaddr i = [] \<longrightarrow>
                   (\<forall>b \<in> set (Bonds networkCfg). bond_Name b \<noteq> if_Name i)"
  shows "vlanNetdevs networkCfg vs =
     Inr (map (\<lambda>v. vlanNetdev (vlan_Name v) (vlanParentMAC networkCfg (vlan_Parent v))
                  (mtuString (vlan_MTU v))) vs)"
  by (induction vs) (simp_all add: parentMACAddress_eq [OF members hwaddr])

text \<open>
  Where the interface scan ends on an interface whose \<open>Hwaddr\<close> is empty, the code goes on to
  the bonds, since it tells "no interface found" from the empty string it started with: a bond
  of the same name then gives the parent MAC. This is the one case that the hypothesis of the
  theorem below leaves out.
\<close>

lemma parentMACAddress_empty_interface_Hwaddr:
  "parentMACAddress
     \<lparr>Interfaces =
        [\<lparr>if_Name = ''up0'', if_Hwaddr = [], if_MTU = 0, if_Addresses = [],
          if_Routes = [], if_LLDP = False, if_VLAN = 0, if_VLANTags = []\<rparr>],
      Bonds =
        [\<lparr>bond_Name = ''up0'', bond_Hwaddr = ''aa:bb:cc:dd:ee:ff'', bond_MTU = 0,
          bond_Addresses = [], bond_Routes = [], bond_LLDP = False, bond_VLAN = 0,
          bond_VLANTags = [], bond_Members = [''11:22:33:44:55:66''], bond_Mode = ''802.3ad''\<rparr>],
      VLANs = [], DNS = None, NTP = None, Proxy = None\<rparr>
     \<lparr>vlan_Name = ''v1'', vlan_Parent = ''up0'', vlan_ID = 10, vlan_MTU = 0,
      vlan_Addresses = [], vlan_Routes = []\<rparr> = Inr ''aa:bb:cc:dd:ee:ff''"
  by (simp add: parentMACAddress_def)

text \<open>
  Claim C4. Take a configuration in which every bond without \<open>Hwaddr\<close> has a member (the data
  model asks for non-empty \<open>Members\<close>) and in which an interface without \<open>Hwaddr\<close> shares its
  name with no bond (so it is when every interface has its permanent MAC, and also when names
  are unique across the configuration). Then \<open>generateNetdevFileContents\<close> returns the bridge
  devices of the interfaces, then for each bond its bond device and its bridge device, both
  with the line \<open>MACAddress=\<close> of the rendering MAC of the bond (its \<open>Hwaddr\<close> when that is not
  empty, otherwise its first member) and named after that MAC, then for each VLAN its veth
  device with the line \<open>MACAddress=\<close> of the parent MAC that the lookup by name gives: the first
  interface of that name, otherwise the first bond of that name, otherwise the empty string.
  An interface and a bond may bear the same name: the interface wins.
\<close>

theorem bond_and_vlan_mac:
  assumes members: "\<forall>b \<in> set (Bonds networkCfg). bond_Hwaddr b = [] \<longrightarrow> bond_Members b \<noteq> []"
    and hwaddr: "\<forall>i \<in> set (Interfaces networkCfg). if_Hwaddr i = [] \<longrightarrow>
                   (\<forall>b \<in> set (Bonds networkCfg). bond_Name b \<noteq> if_Name i)"
  shows "generateNetdevFileContents U networkCfg =
     Inr (interfaceNetdevs U (Interfaces networkCfg) @
          concat (map (\<lambda>b.
            [\<lparr>Name = ''11-bn'' @ strippedHwaddr U (bondRenderingMAC b) @ ''.netdev'',
              Contents = ''[NetDev]'' @ NL @
                         ''Name=bn'' @ strippedHwaddr U (bondRenderingMAC b) @ NL @
                         ''Kind=bond'' @ NL @
                         ''MACAddress='' @ bondRenderingMAC b @ NL @
                         mtuString (bond_MTU b) @ NL @ NL @
                         ''[Bond]'' @ NL @ ''Mode='' @ bond_Mode b @ NL\<rparr>,
             \<lparr>Name = ''11-br'' @ strippedHwaddr U (bondRenderingMAC b) @ ''.netdev'',
              Contents = ''[NetDev]'' @ NL @
                         ''Name='' @ bond_Name b @ NL @
                         ''Kind=bridge'' @ NL @
                         ''MACAddress='' @ bondRenderingMAC b @ NL @
                         mtuString (bond_MTU b) @ NL @ NL @
                         ''[Bridge]'' @ NL @ ''VLANFiltering=true'' @ NL\<rparr>])
            (Bonds networkCfg)) @
          map (\<lambda>v.
            \<lparr>Name = ''12-'' @ vlan_Name v @ ''.netdev'',
             Contents = ''[NetDev]'' @ NL @
                        ''Name='' @ vlan_Name v @ NL @
                        ''Kind=veth'' @ NL @
                        ''MACAddress='' @ vlanParentMAC networkCfg (vlan_Parent v) @ NL @
                        mtuString (vlan_MTU v) @ NL @ NL @
                        ''[Peer]'' @ NL @ ''Name=vl'' @ vlan_Name v @ NL\<rparr>)
            (VLANs networkCfg))"
  by (simp add: generateNetdevFileContents_def bondNetdevs_eq [OF members]
      vlanNetdevs_eq [OF members hwaddr] bondNetdev_def bridgeNetdev_def vlanNetdev_def)

theorem bond_and_vlan_mac_witness:
  "generateNetdevFileContents (\<lambda>s. s)
     \<lparr>Interfaces =
        [\<lparr>if_Name = ''up0'', if_Hwaddr = ''00:11:22:33:44:55'', if_MTU = 0, if_Addresses = [],
          if_Routes = [], if_LLDP = False, if_VLAN = 0, if_VLANTags = []\<rparr>],
      Bonds =
        [\<lparr>bond_Name = ''up0'', bond_Hwaddr = ''66:77:88:99:AA:BB'', bond_MTU = 0,
          bond_Addresses = [], bond_Routes = [], bond_LLDP = False, bond_VLAN = 0,
          bond_VLANTags = [], bond_Members = [''cc:cc:cc:cc:cc:cc''],
          bond_Mode = ''active-backup''\<rparr>,
         \<lparr>bond_Name = ''bond0'', bond_Hwaddr = [], bond_MTU = 0, bond_Addresses = [],
          bond_Routes = [], bond_LLDP = False, bond_VLAN = 0, bond_VLANTags = [],
          bond_Members = [''aa:bb:cc:dd:ee:ff'', ''11:22:33:44:55:66''],
          bond_Mode = ''802.3ad''\<rparr>],
      VLANs =
        [\<lparr>vlan_Name = ''v1'', vlan_Parent = ''up0'', vlan_ID = 10, vlan_MTU = 0,
          vlan_Addresses = [], vlan_Routes = []\<rparr>,
         \<lparr>vlan_Name = ''v2'', vlan_Parent = ''bond0'', vlan_ID = 20, vlan_MTU = 0,
          vlan_Addresses = [], vlan_Routes = []\<rparr>,
         \<lparr>vlan_Name = ''v3'', vlan_Parent = ''missing'', vlan_ID = 30, vlan_MTU = 0,
          vlan_Addresses = [], vlan_Routes = []\<rparr>],
      DNS = None, NTP = None, Proxy = None\<rparr> =
   Inr [\<lparr>Name = ''10-br001122334455.netdev'',
         Contents = ''[NetDev]'' @ NL @ ''Name=up0'' @ NL @ ''Kind=bridge'' @ NL @
                    ''MACAddress=00:11:22:33:44:55'' @ NL @ NL @ NL @
                    ''[Bridge]'' @ NL @ ''VLANFiltering=true'' @ NL\<rparr>,
        \<lparr>Name = ''11-bn66778899aabb.netdev'',
         Contents = ''[NetDev]'' @ NL @ ''Name=bn66778899aabb'' @ NL @ ''Kind=bond'' @ NL @
                    ''MACAddress=66:77:88:99:AA:BB'' @ NL @ NL @ NL @
                    ''[Bond]'' @ NL @ ''Mode=active-backup'' @ NL\<rparr>,
        \<lparr>Name = ''11-br66778899aabb.netdev'',
         Contents = ''[NetDev]'' @ NL @ ''Name=up0'' @ NL @ ''Kind=bridge'' @ NL @
                    ''MACAddress=66:77:88:99:AA:BB'' @ NL @ NL @ NL @
                    ''[Bridge]'' @ NL @ ''VLANFiltering=true'' @ NL\<rparr>,
        \<lparr>Name = ''11-bnaabbccddeeff.netdev'',
         Contents = ''[NetDev]'' @ NL @ ''Name=bnaabbccddeeff'' @ NL @ ''Kind=bond'' @ NL @
                    ''MACAddress=aa:bb:cc:dd:ee:ff'' @ NL @ NL @ NL @
                    ''[Bond]'' @ NL @ ''Mode=802.3ad'' @ NL\<rparr>,
        \<lparr>Name = ''11-braabbccddeeff.netdev'',
         Contents = ''[NetDev]'' @ NL @ ''Name=bond0'' @ NL @ ''Kind=bridge'' @ NL @
                    ''MACAddress=aa:bb:cc:dd:ee:ff'' @ NL @ NL @ NL @
                    ''[Bridge]'' @ NL @ ''VLANFiltering=true'' @ NL\<rparr>,
        \<lparr>Name = ''12-v1.netdev'',
         Contents = ''[NetDev]'' @ NL @ ''Name=v1'' @ NL @ ''Kind=veth'' @ NL @
                    ''MACAddress=00:11:22:33:44:55'' @ NL @ NL @ NL @
                    ''[Peer]'' @ NL @ ''Name=vlv1'' @ NL\<rparr>,
        \<lparr>Name = ''12-v2.netdev'',
         Contents = ''[NetDev]'' @ NL @ ''Name=v2'' @ NL @ ''Kind=veth'' @ NL @
                    ''MACAddress=aa:bb:cc:dd:ee:ff'' @ NL @ NL @ NL @
                    ''[Peer]'' @ NL @ ''Name=vlv2'' @ NL\<rparr>,
        \<lparr>Name = ''12-v3.netdev'',
         Contents = ''[NetDev]'' @ NL @ ''Name=v3'' @ NL @ ''Kind=veth'' @ NL @
                    ''MACAddress='' @ NL @ NL @ NL @
                    ''[Peer]'' @ NL @ ''Name=vlv3'' @ NL\<rparr>]"
proof -
  have s1: "strippedHwaddr (\<lambda>s. s) ''00:11:22:33:44:55'' = ''001122334455''" by code_simp
  have s2: "strippedHwaddr (\<lambda>s. s) ''aa:bb:cc:dd:ee:ff'' = ''aabbccddeeff''" by code_simp
  have s3: "strippedHwaddr (\<lambda>s. s) ''66:77:88:99:AA:BB'' = ''66778899aabb''" by code_simp
  show ?thesis
    by (subst bond_and_vlan_mac)
       (simp_all add: s1 s2 s3 interfaceNetdevs_def bridgeNetdev_def bondRenderingMAC_def
          vlanParentMAC_def mtuString_def)
qed

section \<open>The calls a step makes\<close>

text \<open>
  What a step may add to the calls of the world: \<open>onlyCalls P w w'\<close> says that \<open>w'\<close> has the
  calls of \<open>w\<close> followed by calls that all satisfy \<open>P\<close>. \<open>isFileOp\<close> are the file operations of
  the artifact writer, \<open>isRenameCall\<close> the commands and the sleep of the rename waiter,
  \<open>isOnlineCall\<close> the two queries and the sleep of the online waiter.
\<close>

definition isFileOp :: "call \<Rightarrow> bool" where
  "isFileOp c =
     (case c of RemoveAll _ \<Rightarrow> True | Mkdir _ \<Rightarrow> True | WriteFile _ _ \<Rightarrow> True
      | Remove _ \<Rightarrow> True | _ \<Rightarrow> False)"

definition onlyCalls :: "(call \<Rightarrow> bool) \<Rightarrow> world \<Rightarrow> world \<Rightarrow> bool" where
  "onlyCalls P w w' = (\<exists>cs. calls w' = calls w @ cs \<and> list_all P cs)"

lemma onlyCalls_refl: "onlyCalls P w w"
  by (simp add: onlyCalls_def)

lemma onlyCalls_trans: "onlyCalls P w w1 \<Longrightarrow> onlyCalls P w1 w2 \<Longrightarrow> onlyCalls P w w2"
  by (auto simp: onlyCalls_def)

lemma onlyCalls_mono: "onlyCalls P w w' \<Longrightarrow> (\<And>c. P c \<Longrightarrow> Q c) \<Longrightarrow> onlyCalls Q w w'"
  by (auto simp: onlyCalls_def list_all_iff)

lemma calls_exec: "exec E c w = (r, w') \<Longrightarrow> calls w' = calls w @ [c]"
  by (auto simp: exec_def)

lemma result_exec: "exec E c w = (r, w') \<Longrightarrow> r = respond E (calls w) c"
  by (auto simp: exec_def)

lemma onlyCalls_exec: "exec E c w = (r, w') \<Longrightarrow> P c \<Longrightarrow> onlyCalls P w w'"
  by (auto simp: onlyCalls_def dest: calls_exec)

lemma calls_run: "run E c w = (r, w') \<Longrightarrow> calls w' = calls w @ [c]"
  by (auto simp: run_def split: prod.splits sum.splits dest: calls_exec)

lemma onlyCalls_writeFiles: "writeFiles E files w = (r, w') \<Longrightarrow> onlyCalls isFileOp w w'"
proof (induction files arbitrary: w)
  case Nil
  then show ?case by (simp add: onlyCalls_refl)
next
  case (Cons cfg cfgs)
  let ?c = "WriteFile (filepathJoin E (SystemdNetworkConfigPath E) (Name cfg)) (Contents cfg)"
  obtain r1 w1 where e: "exec E ?c w = (r1, w1)" by (cases "exec E ?c w")
  have o: "onlyCalls isFileOp w w1" by (rule onlyCalls_exec [OF e]) (simp add: isFileOp_def)
  show ?case
  proof (cases r1)
    case (Inl err)
    then have "w' = w1" using Cons.prems e by simp
    then show ?thesis using o by simp
  next
    case (Inr out)
    then have "writeFiles E cfgs w1 = (r, w')" using Cons.prems e by simp
    from onlyCalls_trans [OF o Cons.IH [OF this]] show ?thesis .
  qed
qed

lemma onlyCalls_writeArtifacts:
  assumes "writeArtifacts E networkCfg w = (r, w')"
  shows "onlyCalls isFileOp w w'"
proof -
  let ?dir = "SystemdNetworkConfigPath E"
  obtain r1 w1 where e1: "exec E (RemoveAll ?dir) w = (r1, w1)" by (cases "exec E (RemoveAll ?dir) w")
  obtain r2 w2 where e2: "exec E (Mkdir ?dir) w1 = (r2, w2)" by (cases "exec E (Mkdir ?dir) w1")
  obtain r3 w3 where e3: "writeFiles E (generateLinkFileContents (unicodeToLower E) networkCfg) w2 = (r3, w3)"
    by (cases "writeFiles E (generateLinkFileContents (unicodeToLower E) networkCfg) w2")
  have o1: "onlyCalls isFileOp w w1" by (rule onlyCalls_exec [OF e1]) (simp add: isFileOp_def)
  have o2: "onlyCalls isFileOp w w2"
    by (rule onlyCalls_trans [OF o1 onlyCalls_exec [OF e2]]) (simp add: isFileOp_def)
  have o3: "onlyCalls isFileOp w w3"
    by (rule onlyCalls_trans [OF o2 onlyCalls_writeFiles [OF e3]])
  have w: "\<And>files r4 w4. writeFiles E files w3 = (r4, w4) \<Longrightarrow> onlyCalls isFileOp w w4"
    by (rule onlyCalls_trans [OF o3 onlyCalls_writeFiles])
  have w2: "\<And>files files' r4 w4 r5 w5. writeFiles E files w3 = (r4, w4) \<Longrightarrow>
      writeFiles E files' w4 = (r5, w5) \<Longrightarrow> onlyCalls isFileOp w w5"
    by (rule onlyCalls_trans [OF w onlyCalls_writeFiles])
  show ?thesis
    using assms e1 e2 e3 o1 o2 o3 w w2
    by (auto simp: writeArtifacts_def split: sum.splits prod.splits)
qed

lemma onlyCalls_writeTimesync:
  assumes "writeTimesync E networkCfg w = (r, w')"
  shows "onlyCalls isFileOp w w'"
proof -
  have a: "\<And>c r1 w1. exec E c w = (r1, w1) \<Longrightarrow> isFileOp c \<Longrightarrow> onlyCalls isFileOp w w1"
    by (rule onlyCalls_exec)
  have b: "\<And>c c' r1 w1. exec E c w = (r1, w1) \<Longrightarrow> isFileOp c \<Longrightarrow> isFileOp c' \<Longrightarrow>
             onlyCalls isFileOp w (snd (exec E c' w1))"
    by (rule onlyCalls_trans [OF onlyCalls_exec onlyCalls_exec [OF surjective_pairing]])
  have c: "\<And>c. isFileOp c \<Longrightarrow> onlyCalls isFileOp w (snd (exec E c w))"
    by (rule onlyCalls_exec [OF surjective_pairing])
  have f: "\<And>x y. isFileOp (WriteFile x y)" "\<And>x. isFileOp (Remove x)"
    by (simp_all add: isFileOp_def)
  show ?thesis
    using assms a b c f
    by (auto simp: writeTimesync_def Let_def onlyCalls_refl split: option.splits if_splits prod.splits sum.splits)
qed

lemma onlyCalls_generateNetworkConfiguration:
  assumes "generateNetworkConfiguration E networkCfg w = (r, w')"
  shows "onlyCalls isFileOp w w'"
  using assms onlyCalls_writeArtifacts onlyCalls_trans [OF onlyCalls_writeArtifacts onlyCalls_writeTimesync]
  by (fastforce simp: generateNetworkConfiguration_def split: prod.splits sum.splits)


definition isRenameCall :: "call \<Rightarrow> bool" where
  "isRenameCall c =
     (c = udevTrigger \<or> c = udevSettle \<or> c = journalRenamed \<or> c = Sleep (500 * Millisecond))"

fun isOnlineCall :: "call \<Rightarrow> bool" where
  "isOnlineCall (RunCommand [a, b, name]) = (a = ''networkctl'' \<and> b = ''status'')"
| "isOnlineCall (RunCommand [a, b, c, name]) = (a = ''ip'' \<and> b = ''address'' \<and> c = ''show'')"
| "isOnlineCall (Sleep d) = (d = 500 * Millisecond)"
| "isOnlineCall _ = False"

lemma calls_sleep: "calls (sleep E d w) = calls w @ [Sleep d]"
  by (simp add: sleep_def exec_def)

lemma onlyCalls_sleep: "P (Sleep d) \<Longrightarrow> onlyCalls P w (sleep E d w)"
  by (simp add: onlyCalls_def calls_sleep)

lemma onlyCalls_udevRenameLoop:
  "udevRenameLoop E endTime w = (r, w') \<Longrightarrow> onlyCalls isRenameCall w w'"
proof (induction E endTime w rule: udevRenameLoop.induct)
  case (1 E endTime w)
  show ?case
  proof (cases "clock w > endTime")
    case True
    then have "w' = w" using "1.prems" by (simp add: udevRenameLoop.simps [of E endTime w])
    then show ?thesis by (simp add: onlyCalls_refl)
  next
    case False
    obtain r1 w1 where e1: "exec E udevTrigger w = (r1, w1)" by (cases "exec E udevTrigger w")
    obtain r2 w2 where e2: "exec E udevSettle w1 = (r2, w2)" by (cases "exec E udevSettle w1")
    obtain r3 w3 where e3: "exec E journalRenamed w2 = (r3, w3)"
      by (cases "exec E journalRenamed w2")
    have o1: "onlyCalls isRenameCall w w1"
      by (rule onlyCalls_exec [OF e1]) (simp add: isRenameCall_def)
    have o2: "onlyCalls isRenameCall w w2"
      by (rule onlyCalls_trans [OF o1 onlyCalls_exec [OF e2]]) (simp add: isRenameCall_def)
    have o3: "onlyCalls isRenameCall w w3"
      by (rule onlyCalls_trans [OF o2 onlyCalls_exec [OF e3]]) (simp add: isRenameCall_def)
    have o4: "onlyCalls isRenameCall w (sleep E (500 * Millisecond) w3)"
      by (rule onlyCalls_trans [OF o3 onlyCalls_sleep]) (simp add: isRenameCall_def)
    show ?thesis
    proof (cases "\<exists>y1 y2 e. r1 = Inr y1 \<and> r2 = Inr y2 \<and> r3 = Inl e")
      case True
      then obtain y1 y2 e where r: "r1 = Inr y1" "r2 = Inr y2" "r3 = Inl e" by blast
      have "udevRenameLoop E endTime (sleep E (500 * Millisecond) w3) = (r, w')"
        using "1.prems" False e1 e2 e3 r by (simp add: udevRenameLoop.simps [of E endTime w])
      from "1.IH" [OF False e1 [symmetric] r(1) e2 [symmetric] r(2) e3 [symmetric] r(3) this]
      show ?thesis by (rule onlyCalls_trans [OF o4])
    next
      case False
      then have "w' = w1 \<or> w' = w2 \<or> w' = w3"
        using "1.prems" \<open>\<not> endTime < clock w\<close> e1 e2 e3
        by (auto simp: udevRenameLoop.simps [of E endTime w] split: sum.splits)
      then show ?thesis using o1 o2 o3 by auto
    qed
  qed
qed

lemma onlyCalls_waitForUdevInterfaceRename:
  "waitForUdevInterfaceRename E timeout w = (r, w') \<Longrightarrow> onlyCalls isRenameCall w w'"
  by (simp add: waitForUdevInterfaceRename_def onlyCalls_udevRenameLoop)

lemma onlyCalls_isOnline: "isOnline E name w = (b, w') \<Longrightarrow> onlyCalls isOnlineCall w w'"
  by (auto simp: isOnline_def split: prod.splits sum.splits intro: onlyCalls_exec)

lemma onlyCalls_getNumberOfIPs: "getNumberOfIPs E name w = (n, w') \<Longrightarrow> onlyCalls isOnlineCall w w'"
  by (auto simp: getNumberOfIPs_def split: prod.splits sum.splits intro: onlyCalls_exec)

lemma onlyCalls_checkDevices: "checkDevices E ds w = (b, w') \<Longrightarrow> onlyCalls isOnlineCall w w'"
proof (induction ds arbitrary: w)
  case Nil
  then show ?case by (simp add: onlyCalls_refl)
next
  case (Cons d ds)
  obtain name numIPs where d: "d = (name, numIPs)" by (cases d)
  obtain on w1 where o: "isOnline E name w = (on, w1)" by (cases "isOnline E name w")
  obtain n w2 where g: "getNumberOfIPs E name w1 = (n, w2)"
    by (cases "getNumberOfIPs E name w1")
  have c1: "onlyCalls isOnlineCall w w1" by (rule onlyCalls_isOnline [OF o])
  have c2: "onlyCalls isOnlineCall w w2"
    by (rule onlyCalls_trans [OF c1 onlyCalls_getNumberOfIPs [OF g]])
  show ?case
  proof (cases "on \<and> n = numIPs")
    case True
    then have "checkDevices E ds w2 = (b, w')" using Cons.prems d o g by simp
    from onlyCalls_trans [OF c2 Cons.IH [OF this]] show ?thesis .
  next
    case False
    then have "w' = w1 \<or> w' = w2" using Cons.prems d o g by (cases on) (auto split: if_splits)
    then show ?thesis using c1 c2 by auto
  qed
qed

lemma onlyCalls_onlineLoop:
  "onlineLoop E devices endTime w = (r, w') \<Longrightarrow> onlyCalls isOnlineCall w w'"
proof (induction E devices endTime w rule: onlineLoop.induct)
  case (1 E devices endTime w)
  show ?case
  proof (cases "clock w > endTime")
    case True
    then have "w' = w" using "1.prems" by (simp add: onlineLoop.simps [of E devices endTime w])
    then show ?thesis by (simp add: onlyCalls_refl)
  next
    case False
    obtain b w1 where c: "checkDevices E (rangeOver E w devices) w = (b, w1)"
      by (cases "checkDevices E (rangeOver E w devices) w")
    have o1: "onlyCalls isOnlineCall w w1" by (rule onlyCalls_checkDevices [OF c])
    show ?thesis
    proof (cases b)
      case True
      then have "w' = w1" using "1.prems" False c
        by (simp add: onlineLoop.simps [of E devices endTime w])
      then show ?thesis using o1 by simp
    next
      case b: False
      have bf: "b = False" using b by simp
      have "onlineLoop E devices endTime (sleep E (500 * Millisecond) w1) = (r, w')"
        using "1.prems" \<open>\<not> endTime < clock w\<close> c b by (simp add: onlineLoop.simps [of E devices endTime w])
      from "1.IH" [OF \<open>\<not> endTime < clock w\<close> c [symmetric] bf this]
      have "onlyCalls isOnlineCall (sleep E (500 * Millisecond) w1) w'" .
      moreover have "onlyCalls isOnlineCall w1 (sleep E (500 * Millisecond) w1)"
        by (rule onlyCalls_sleep) simp
      ultimately show ?thesis using o1 onlyCalls_trans by blast
    qed
  qed
qed

lemma onlyCalls_waitForNetworkOnline:
  "waitForNetworkOnline E networkCfg timeout w = (r, w') \<Longrightarrow> onlyCalls isOnlineCall w w'"
  by (simp add: waitForNetworkOnline_def onlyCalls_onlineLoop)

section \<open>An environment for examples\<close>

text \<open>An environment for examples: calls take no time, and \<open>r\<close> gives the answers.\<close>

definition quietEnv :: "(call list \<Rightarrow> call \<Rightarrow> error + string) \<Rightarrow> env" where
  "quietEnv r =
     \<lparr>respond = r, elapsed = (\<lambda>h c. 0), rangeRank = (\<lambda>h n. 0),
      SystemdNetworkConfigPath = ''/run/systemd/network'',
      SystemdTimesyncConfigFile = ''/run/systemd/timesyncd.conf'',
      filepathJoin = (\<lambda>d n. d @ ''/'' @ n), unicodeToLower = (\<lambda>s. s)\<rparr>"

lemma respond_quietEnv [simp]: "respond (quietEnv r) = r"
  by (simp add: quietEnv_def)

lemma elapsed_quietEnv [simp]: "elapsed (quietEnv r) h c = 0"
  by (simp add: quietEnv_def)

section \<open>The target hostname (C9)\<close>

lemma onlyCalls_any: "onlyCalls P w w' \<Longrightarrow> onlyCalls (\<lambda>c. True) w w'"
  by (erule onlyCalls_mono) simp

lemma onlyCalls_run: "run E c w = (r, w') \<Longrightarrow> onlyCalls (\<lambda>c. True) w w'"
  by (auto simp: onlyCalls_def dest: calls_run)

lemma onlyCalls_Apply_tail:
  assumes "(case run E (UpdateEnvironment (Proxy networkCfg)) w1 of
        (Inl err, w2) \<Rightarrow> (Inl err, w2)
      | (Inr _, w2) \<Rightarrow>
     (case generateNetworkConfiguration E networkCfg w2 of
        (Inl err, w3) \<Rightarrow> (Inl err, w3)
      | (Inr _, w3) \<Rightarrow>
     (case waitForUdevInterfaceRename E (5 * Second) w3 of
        (Inl err, w4) \<Rightarrow> (Inl err, w4)
      | (Inr _, w4) \<Rightarrow>
     (case run E (RestartUnit ''systemd-networkd'') w4 of
        (Inl err, w5) \<Rightarrow> (Inl err, w5)
      | (Inr _, w5) \<Rightarrow>
     (case run E (RestartUnit ''systemd-timesyncd'') w5 of
        (Inl err, w6) \<Rightarrow> (Inl err, w6)
      | (Inr _, w6) \<Rightarrow> waitForNetworkOnline E networkCfg timeout w6))))) = (r, w')"
  shows "onlyCalls (\<lambda>c. True) w1 w'"
proof -
  obtain r2 w2 where s2: "run E (UpdateEnvironment (Proxy networkCfg)) w1 = (r2, w2)"
    by (cases "run E (UpdateEnvironment (Proxy networkCfg)) w1")
  obtain r3 w3 where s3: "generateNetworkConfiguration E networkCfg w2 = (r3, w3)"
    by (cases "generateNetworkConfiguration E networkCfg w2")
  obtain r4 w4 where s4: "waitForUdevInterfaceRename E (5 * Second) w3 = (r4, w4)"
    by (cases "waitForUdevInterfaceRename E (5 * Second) w3")
  obtain r5 w5 where s5: "run E (RestartUnit ''systemd-networkd'') w4 = (r5, w5)"
    by (cases "run E (RestartUnit ''systemd-networkd'') w4")
  obtain r6 w6 where s6: "run E (RestartUnit ''systemd-timesyncd'') w5 = (r6, w6)"
    by (cases "run E (RestartUnit ''systemd-timesyncd'') w5")
  obtain r7 w7 where s7: "waitForNetworkOnline E networkCfg timeout w6 = (r7, w7)"
    by (cases "waitForNetworkOnline E networkCfg timeout w6")
  have o2: "onlyCalls (\<lambda>c. True) w1 w2" by (rule onlyCalls_run [OF s2])
  have o3: "onlyCalls (\<lambda>c. True) w1 w3"
    by (rule onlyCalls_trans [OF o2 onlyCalls_any [OF onlyCalls_generateNetworkConfiguration [OF s3]]])
  have o4: "onlyCalls (\<lambda>c. True) w1 w4"
    by (rule onlyCalls_trans [OF o3 onlyCalls_any [OF onlyCalls_waitForUdevInterfaceRename [OF s4]]])
  have o5: "onlyCalls (\<lambda>c. True) w1 w5" by (rule onlyCalls_trans [OF o4 onlyCalls_run [OF s5]])
  have o6: "onlyCalls (\<lambda>c. True) w1 w6" by (rule onlyCalls_trans [OF o5 onlyCalls_run [OF s6]])
  have o7: "onlyCalls (\<lambda>c. True) w1 w7"
    by (rule onlyCalls_trans [OF o6 onlyCalls_any [OF onlyCalls_waitForNetworkOnline [OF s7]]])
  have "w' = w2 \<or> w' = w3 \<or> w' = w4 \<or> w' = w5 \<or> w' = w6 \<or> w' = w7"
    using assms s2 s3 s4 s5 s6 s7 by (auto split: sum.splits)
  then show ?thesis using o2 o3 o4 o5 o6 o7 by auto
qed

text \<open>
  Claim C9. The hostname is empty without a DNS configuration and when \<open>Hostname\<close> is empty,
  whatever \<open>Domain\<close> holds; it is \<open>Hostname\<close> when only \<open>Domain\<close> is empty, and
  \<open>Hostname.Domain\<close> when both are set. It is the argument of the first call that
  \<open>ApplyNetworkConfiguration\<close> makes, \<open>SetHostname\<close>.
\<close>

theorem hostname_derivation:
  "targetHostname (networkCfg\<lparr>DNS := None\<rparr>) = []
   \<and> targetHostname (networkCfg\<lparr>DNS := Some dns\<rparr>) =
       (if Hostname dns = [] then []
        else if Domain dns = [] then Hostname dns
        else Hostname dns @ ''.'' @ Domain dns)
   \<and> targetHostname (networkCfg\<lparr>DNS := Some (dns\<lparr>Hostname := [], Domain := domain\<rparr>)\<rparr>) = []
   \<and> (\<exists>rest. calls (snd (ApplyNetworkConfiguration E (Some networkCfg) timeout w)) =
          calls w @ SetHostname (targetHostname networkCfg) # rest)"
proof (intro conjI)
  show "targetHostname (networkCfg\<lparr>DNS := None\<rparr>) = []"
    by (simp add: targetHostname_def)
  show "targetHostname (networkCfg\<lparr>DNS := Some dns\<rparr>) =
       (if Hostname dns = [] then []
        else if Domain dns = [] then Hostname dns
        else Hostname dns @ ''.'' @ Domain dns)"
    by (simp add: targetHostname_def)
  show "targetHostname (networkCfg\<lparr>DNS := Some (dns\<lparr>Hostname := [], Domain := domain\<rparr>)\<rparr>) = []"
    by (simp add: targetHostname_def)
  show "\<exists>rest. calls (snd (ApplyNetworkConfiguration E (Some networkCfg) timeout w)) =
          calls w @ SetHostname (targetHostname networkCfg) # rest"
  proof -
    let ?h = "SetHostname (targetHostname networkCfg)"
    obtain r1 w1 where s1: "run E ?h w = (r1, w1)" by (cases "run E ?h w")
    have c1: "calls w1 = calls w @ [?h]" by (rule calls_run [OF s1])
    show ?thesis
    proof (cases r1)
      case (Inl err)
      then have "snd (ApplyNetworkConfiguration E (Some networkCfg) timeout w) = w1"
        using s1 by (simp add: ApplyNetworkConfiguration_def)
      then show ?thesis using c1 by simp
    next
      case (Inr u)
      obtain r w' where a: "ApplyNetworkConfiguration E (Some networkCfg) timeout w = (r, w')"
        by (cases "ApplyNetworkConfiguration E (Some networkCfg) timeout w")
      then have "onlyCalls (\<lambda>c. True) w1 w'"
        using s1 Inr
        by (intro onlyCalls_Apply_tail [where E = E and networkCfg = networkCfg and timeout = timeout and r = r])
           (simp add: ApplyNetworkConfiguration_def)
      then show ?thesis using a c1 by (auto simp: onlyCalls_def)
    qed
  qed
qed

section \<open>The time-sync fallback file (C10)\<close>

lemma generateTimesyncContents_empty:
  "generateTimesyncContents ntp = [] \<longleftrightarrow> Timeservers ntp = []"
  by (simp add: generateTimesyncContents_def)

text \<open>
  Claim C10. After the artifacts are written (\<open>writeArtifacts\<close> succeeded and left the world
  \<open>w5\<close>): without an NTP configuration, or with one that lists no time server,
  \<open>generateNetworkConfiguration\<close> makes one more call, the removal of the time-sync file, and
  returns success whatever that call answers; with time servers it makes one more call, the
  write of the time-sync file with the \<open>FallbackNTP\<close> list, returns the error of that write when
  it fails and success when it does not, and removes nothing.
\<close>

theorem timesync_file_handling:
  assumes "writeArtifacts E networkCfg w = (Inr (), w5)"
  shows "(NTP networkCfg = None \<or> (\<exists>ntp. NTP networkCfg = Some ntp \<and> Timeservers ntp = []) \<longrightarrow>
            fst (generateNetworkConfiguration E networkCfg w) = Inr ()
          \<and> calls (snd (generateNetworkConfiguration E networkCfg w)) =
              calls w5 @ [Remove (SystemdTimesyncConfigFile E)])
       \<and> (\<forall>ntp. NTP networkCfg = Some ntp \<and> Timeservers ntp \<noteq> [] \<longrightarrow>
            fst (generateNetworkConfiguration E networkCfg w) =
              (case respond E (calls w5)
                      (WriteFile (SystemdTimesyncConfigFile E) (generateTimesyncContents ntp)) of
                 Inl err \<Rightarrow> Inl err
               | Inr _ \<Rightarrow> Inr ())
          \<and> calls (snd (generateNetworkConfiguration E networkCfg w)) =
              calls w5 @ [WriteFile (SystemdTimesyncConfigFile E)
                            (''[Time]'' @ NL @ ''FallbackNTP='' @ Join (Timeservers ntp) '' '' @ NL)])"
proof (intro conjI impI allI)
  assume "NTP networkCfg = None \<or> (\<exists>ntp. NTP networkCfg = Some ntp \<and> Timeservers ntp = [])"
  then show "fst (generateNetworkConfiguration E networkCfg w) = Inr ()"
    using assms
    by (auto simp: generateNetworkConfiguration_def writeTimesync_def generateTimesyncContents_def)
next
  assume "NTP networkCfg = None \<or> (\<exists>ntp. NTP networkCfg = Some ntp \<and> Timeservers ntp = [])"
  then show "calls (snd (generateNetworkConfiguration E networkCfg w)) =
              calls w5 @ [Remove (SystemdTimesyncConfigFile E)]"
    using assms
    by (auto simp: generateNetworkConfiguration_def writeTimesync_def generateTimesyncContents_def
        exec_def)
next
  fix ntp
  assume n: "NTP networkCfg = Some ntp \<and> Timeservers ntp \<noteq> []"
  then show "fst (generateNetworkConfiguration E networkCfg w) =
              (case respond E (calls w5)
                      (WriteFile (SystemdTimesyncConfigFile E) (generateTimesyncContents ntp)) of
                 Inl err \<Rightarrow> Inl err
               | Inr _ \<Rightarrow> Inr ())"
    using assms
    by (auto simp: generateNetworkConfiguration_def writeTimesync_def generateTimesyncContents_empty
        exec_def Let_def split: sum.splits)
next
  fix ntp
  assume n: "NTP networkCfg = Some ntp \<and> Timeservers ntp \<noteq> []"
  then have g: "generateTimesyncContents ntp =
      ''[Time]'' @ NL @ ''FallbackNTP='' @ Join (Timeservers ntp) '' '' @ NL"
    by (simp add: generateTimesyncContents_def)
  have ne: "generateTimesyncContents ntp \<noteq> []" using n by (simp add: generateTimesyncContents_empty)
  show "calls (snd (generateNetworkConfiguration E networkCfg w)) =
              calls w5 @ [WriteFile (SystemdTimesyncConfigFile E)
                            (''[Time]'' @ NL @ ''FallbackNTP='' @ Join (Timeservers ntp) '' '' @ NL)]"
    using assms n ne unfolding g [symmetric]
    by (auto simp: generateNetworkConfiguration_def writeTimesync_def
        exec_def Let_def split: sum.splits)
qed


theorem timesync_file_handling_witness:
  "fst (generateNetworkConfiguration
         \<lparr>respond = (\<lambda>h c. case c of Remove p \<Rightarrow> Inl (External 1)
                                | WriteFile p x \<Rightarrow> if p = ''/ts.conf'' then Inl (External 2) else Inr []
                                | _ \<Rightarrow> Inr []),
          elapsed = (\<lambda>h c. 0), rangeRank = (\<lambda>h n. 0),
          SystemdNetworkConfigPath = ''/net'', SystemdTimesyncConfigFile = ''/ts.conf'',
          filepathJoin = (\<lambda>d n. d @ ''/'' @ n), unicodeToLower = (\<lambda>s. s)\<rparr>
         \<lparr>Interfaces = [], Bonds = [], VLANs = [], DNS = None, NTP = None, Proxy = None\<rparr>
         \<lparr>clock = 0, calls = []\<rparr>) = Inr ()
   \<and> calls (snd (generateNetworkConfiguration
         \<lparr>respond = (\<lambda>h c. case c of Remove p \<Rightarrow> Inl (External 1)
                                | WriteFile p x \<Rightarrow> if p = ''/ts.conf'' then Inl (External 2) else Inr []
                                | _ \<Rightarrow> Inr []),
          elapsed = (\<lambda>h c. 0), rangeRank = (\<lambda>h n. 0),
          SystemdNetworkConfigPath = ''/net'', SystemdTimesyncConfigFile = ''/ts.conf'',
          filepathJoin = (\<lambda>d n. d @ ''/'' @ n), unicodeToLower = (\<lambda>s. s)\<rparr>
         \<lparr>Interfaces = [], Bonds = [], VLANs = [], DNS = None, NTP = None, Proxy = None\<rparr>
         \<lparr>clock = 0, calls = []\<rparr>)) = [RemoveAll ''/net'', Mkdir ''/net'', Remove ''/ts.conf'']
   \<and> fst (generateNetworkConfiguration
         \<lparr>respond = (\<lambda>h c. case c of Remove p \<Rightarrow> Inl (External 1)
                                | WriteFile p x \<Rightarrow> if p = ''/ts.conf'' then Inl (External 2) else Inr []
                                | _ \<Rightarrow> Inr []),
          elapsed = (\<lambda>h c. 0), rangeRank = (\<lambda>h n. 0),
          SystemdNetworkConfigPath = ''/net'', SystemdTimesyncConfigFile = ''/ts.conf'',
          filepathJoin = (\<lambda>d n. d @ ''/'' @ n), unicodeToLower = (\<lambda>s. s)\<rparr>
         \<lparr>Interfaces = [], Bonds = [], VLANs = [], DNS = None,
          NTP = Some \<lparr>Timeservers = [''pool.ntp.org'']\<rparr>, Proxy = None\<rparr>
         \<lparr>clock = 0, calls = []\<rparr>) = Inl (External 2)"
proof -
  let ?E = "\<lparr>respond = (\<lambda>h c. case c of Remove p \<Rightarrow> Inl (External 1)
                                | WriteFile p x \<Rightarrow> if p = ''/ts.conf'' then Inl (External 2) else Inr []
                                | _ \<Rightarrow> Inr []),
          elapsed = (\<lambda>h c. 0), rangeRank = (\<lambda>h n. 0),
          SystemdNetworkConfigPath = ''/net'', SystemdTimesyncConfigFile = ''/ts.conf'',
          filepathJoin = (\<lambda>d n. d @ ''/'' @ n), unicodeToLower = (\<lambda>s. s)\<rparr>"
  let ?A = "\<lparr>Interfaces = [], Bonds = [], VLANs = [], DNS = None, NTP = None, Proxy = None\<rparr>"
  let ?B = "\<lparr>Interfaces = [], Bonds = [], VLANs = [], DNS = None,
          NTP = Some \<lparr>Timeservers = [''pool.ntp.org'']\<rparr>, Proxy = None\<rparr>"
  let ?w = "\<lparr>clock = 0, calls = []\<rparr>"
  let ?w5 = "\<lparr>clock = 0, calls = [RemoveAll ''/net'', Mkdir ''/net'']\<rparr>"
  have a: "writeArtifacts ?E ?A ?w = (Inr (), ?w5)"
    by (simp add: writeArtifacts_def exec_def generateLinkFileContents_def
        generateNetdevFileContents_def generateNetworkFileContents_def interfaceNetdevs_def)
  have b: "writeArtifacts ?E ?B ?w = (Inr (), ?w5)"
    by (simp add: writeArtifacts_def exec_def generateLinkFileContents_def
        generateNetdevFileContents_def generateNetworkFileContents_def interfaceNetdevs_def)
  have ha: "NTP ?A = None \<or> (\<exists>ntp. NTP ?A = Some ntp \<and> Timeservers ntp = [])" by simp
  have hb: "NTP ?B = Some \<lparr>Timeservers = [''pool.ntp.org'']\<rparr> \<and>
            Timeservers \<lparr>Timeservers = [''pool.ntp.org'']\<rparr> \<noteq> []" by simp
  note ra = mp [OF conjunct1 [OF timesync_file_handling [OF a]] ha]
  note rb = mp [OF spec [OF conjunct2 [OF timesync_file_handling [OF b]]] hb]
  have r1: "fst (generateNetworkConfiguration ?E ?A ?w) = Inr ()"
    using ra by (rule conjunct1)
  have r2: "calls (snd (generateNetworkConfiguration ?E ?A ?w)) =
              [RemoveAll ''/net'', Mkdir ''/net'', Remove ''/ts.conf'']"
    using conjunct2 [OF ra] by simp
  have r3: "fst (generateNetworkConfiguration ?E ?B ?w) = Inl (External 2)"
    using conjunct1 [OF rb] by simp
  show ?thesis using r1 r2 r3 by (intro conjI)
qed

section \<open>The order of the apply steps (C2)\<close>

text \<open>
  Steps run in order, in the words of the specification: the first step that fails ends the
  sequence with its error, and no later step runs.
\<close>

fun inOrder :: "(world \<Rightarrow> (error + unit) \<times> world) list \<Rightarrow> world \<Rightarrow> (error + unit) \<times> world" where
  "inOrder [] w = (Inr (), w)"
| "inOrder (step # steps) w =
     (case step w of (Inl err, w') \<Rightarrow> (Inl err, w') | (Inr _, w') \<Rightarrow> inOrder steps w')"

lemma Apply_inOrder:
  "ApplyNetworkConfiguration E (Some networkCfg) timeout w =
     inOrder [run E (SetHostname (targetHostname networkCfg)),
              run E (UpdateEnvironment (Proxy networkCfg)),
              generateNetworkConfiguration E networkCfg,
              waitForUdevInterfaceRename E (5 * Second),
              run E (RestartUnit ''systemd-networkd''),
              run E (RestartUnit ''systemd-timesyncd''),
              waitForNetworkOnline E networkCfg timeout] w"
  by (simp add: ApplyNetworkConfiguration_def split: prod.splits sum.splits)

lemma Apply_artifact_failure:
  assumes s1: "run E (SetHostname (targetHostname networkCfg)) w = (Inr (), w1)"
    and s2: "run E (UpdateEnvironment (Proxy networkCfg)) w1 = (Inr (), w2)"
    and s3: "generateNetworkConfiguration E networkCfg w2 = (Inl err, w3)"
  shows "ApplyNetworkConfiguration E (Some networkCfg) timeout w = (Inl err, w3)"
    and "\<exists>fs. calls w3 = calls w @ [SetHostname (targetHostname networkCfg),
                                    UpdateEnvironment (Proxy networkCfg)] @ fs \<and>
              list_all isFileOp fs"
proof -
  show "ApplyNetworkConfiguration E (Some networkCfg) timeout w = (Inl err, w3)"
    using s1 s2 s3 by (simp add: ApplyNetworkConfiguration_def)
  from onlyCalls_generateNetworkConfiguration [OF s3]
  obtain fs where "calls w3 = calls w2 @ fs" "list_all isFileOp fs"
    by (auto simp: onlyCalls_def)
  then show "\<exists>fs. calls w3 = calls w @ [SetHostname (targetHostname networkCfg),
                                    UpdateEnvironment (Proxy networkCfg)] @ fs \<and>
              list_all isFileOp fs"
    using calls_run [OF s1] calls_run [OF s2] by simp
qed

lemma Apply_success_trace:
  assumes "ApplyNetworkConfiguration E (Some networkCfg) timeout w = (Inr (), w')"
  shows "\<exists>fs us os. calls w' =
           calls w @ [SetHostname (targetHostname networkCfg), UpdateEnvironment (Proxy networkCfg)] @
           fs @ us @ [RestartUnit ''systemd-networkd'', RestartUnit ''systemd-timesyncd''] @ os
         \<and> list_all isFileOp fs \<and> list_all isRenameCall us \<and> list_all isOnlineCall os"
proof -
  obtain r1 w1 where s1: "run E (SetHostname (targetHostname networkCfg)) w = (r1, w1)"
    by (cases "run E (SetHostname (targetHostname networkCfg)) w")
  obtain r2 w2 where s2: "run E (UpdateEnvironment (Proxy networkCfg)) w1 = (r2, w2)"
    by (cases "run E (UpdateEnvironment (Proxy networkCfg)) w1")
  obtain r3 w3 where s3: "generateNetworkConfiguration E networkCfg w2 = (r3, w3)"
    by (cases "generateNetworkConfiguration E networkCfg w2")
  obtain r4 w4 where s4: "waitForUdevInterfaceRename E (5 * Second) w3 = (r4, w4)"
    by (cases "waitForUdevInterfaceRename E (5 * Second) w3")
  obtain r5 w5 where s5: "run E (RestartUnit ''systemd-networkd'') w4 = (r5, w5)"
    by (cases "run E (RestartUnit ''systemd-networkd'') w4")
  obtain r6 w6 where s6: "run E (RestartUnit ''systemd-timesyncd'') w5 = (r6, w6)"
    by (cases "run E (RestartUnit ''systemd-timesyncd'') w5")
  have all: "waitForNetworkOnline E networkCfg timeout w6 = (Inr (), w')"
    using assms s1 s2 s3 s4 s5 s6
    by (auto simp: ApplyNetworkConfiguration_def split: sum.splits)
  obtain fs where fs: "calls w3 = calls w2 @ fs" "list_all isFileOp fs"
    using onlyCalls_generateNetworkConfiguration [OF s3] by (auto simp: onlyCalls_def)
  obtain us where us: "calls w4 = calls w3 @ us" "list_all isRenameCall us"
    using onlyCalls_waitForUdevInterfaceRename [OF s4] by (auto simp: onlyCalls_def)
  obtain os where os: "calls w' = calls w6 @ os" "list_all isOnlineCall os"
    using onlyCalls_waitForNetworkOnline [OF all] by (auto simp: onlyCalls_def)
  have "calls w' =
           calls w @ [SetHostname (targetHostname networkCfg), UpdateEnvironment (Proxy networkCfg)] @
           fs @ us @ [RestartUnit ''systemd-networkd'', RestartUnit ''systemd-timesyncd''] @ os"
    using calls_run [OF s1] calls_run [OF s2] calls_run [OF s5] calls_run [OF s6] fs us os
    by simp
  then show ?thesis using fs us os by blast
qed

lemma run_respond:
  "fst (run E c w) = (case respond E (calls w) c of Inl e \<Rightarrow> Inl e | Inr out \<Rightarrow> Inr ())"
  by (simp add: run_def exec_def split: sum.splits)

lemma run_calls: "calls (snd (run E c w)) = calls w @ [c]"
  by (simp add: run_def exec_def split: sum.splits)

lemma Apply_hostname_failure:
  "respond E (calls w) (SetHostname (targetHostname networkCfg)) = Inl err \<longrightarrow>
     fst (ApplyNetworkConfiguration E (Some networkCfg) timeout w) = Inl err
   \<and> calls (snd (ApplyNetworkConfiguration E (Some networkCfg) timeout w)) =
       calls w @ [SetHostname (targetHostname networkCfg)]"
  by (simp add: ApplyNetworkConfiguration_def run_def exec_def)

lemma Apply_proxy_failure:
  "respond E (calls w) (SetHostname (targetHostname networkCfg)) = Inr out1 \<and>
   respond E (calls w @ [SetHostname (targetHostname networkCfg)])
     (UpdateEnvironment (Proxy networkCfg)) = Inl err \<longrightarrow>
     fst (ApplyNetworkConfiguration E (Some networkCfg) timeout w) = Inl err
   \<and> calls (snd (ApplyNetworkConfiguration E (Some networkCfg) timeout w)) =
       calls w @ [SetHostname (targetHostname networkCfg), UpdateEnvironment (Proxy networkCfg)]"
  by (simp add: ApplyNetworkConfiguration_def run_def exec_def)

lemma Apply_rename_failure:
  "run E (SetHostname (targetHostname networkCfg)) w = (Inr (), w1) \<and>
   run E (UpdateEnvironment (Proxy networkCfg)) w1 = (Inr (), w2) \<and>
   generateNetworkConfiguration E networkCfg w2 = (Inr (), w3) \<and>
   waitForUdevInterfaceRename E (5 * Second) w3 = (Inl err, w4) \<longrightarrow>
     ApplyNetworkConfiguration E (Some networkCfg) timeout w = (Inl err, w4)
   \<and> (\<exists>fs us. calls w4 = calls w @ [SetHostname (targetHostname networkCfg),
                                       UpdateEnvironment (Proxy networkCfg)] @ fs @ us
              \<and> list_all isFileOp fs \<and> list_all isRenameCall us)"
proof (intro impI conjI, goal_cases)
  case 1
  then show ?case by (simp add: ApplyNetworkConfiguration_def)
next
  case 2
  then have s1: "run E (SetHostname (targetHostname networkCfg)) w = (Inr (), w1)"
    and s2: "run E (UpdateEnvironment (Proxy networkCfg)) w1 = (Inr (), w2)"
    and s3: "generateNetworkConfiguration E networkCfg w2 = (Inr (), w3)"
    and s4: "waitForUdevInterfaceRename E (5 * Second) w3 = (Inl err, w4)"
    by simp_all
  obtain fs where fs: "calls w3 = calls w2 @ fs" "list_all isFileOp fs"
    using onlyCalls_generateNetworkConfiguration [OF s3] by (auto simp: onlyCalls_def)
  obtain us where us: "calls w4 = calls w3 @ us" "list_all isRenameCall us"
    using onlyCalls_waitForUdevInterfaceRename [OF s4] by (auto simp: onlyCalls_def)
  have "calls w4 = calls w @ [SetHostname (targetHostname networkCfg),
                              UpdateEnvironment (Proxy networkCfg)] @ fs @ us"
    using calls_run [OF s1] calls_run [OF s2] fs us by simp
  then show ?case using fs us by blast
qed

lemma Apply_networkd_failure:
  "run E (SetHostname (targetHostname networkCfg)) w = (Inr (), w1) \<and>
   run E (UpdateEnvironment (Proxy networkCfg)) w1 = (Inr (), w2) \<and>
   generateNetworkConfiguration E networkCfg w2 = (Inr (), w3) \<and>
   waitForUdevInterfaceRename E (5 * Second) w3 = (Inr (), w4) \<and>
   respond E (calls w4) (RestartUnit ''systemd-networkd'') = Inl err \<longrightarrow>
     fst (ApplyNetworkConfiguration E (Some networkCfg) timeout w) = Inl err
   \<and> calls (snd (ApplyNetworkConfiguration E (Some networkCfg) timeout w)) =
       calls w4 @ [RestartUnit ''systemd-networkd'']"
proof (intro impI)
  assume a: "run E (SetHostname (targetHostname networkCfg)) w = (Inr (), w1) \<and>
   run E (UpdateEnvironment (Proxy networkCfg)) w1 = (Inr (), w2) \<and>
   generateNetworkConfiguration E networkCfg w2 = (Inr (), w3) \<and>
   waitForUdevInterfaceRename E (5 * Second) w3 = (Inr (), w4) \<and>
   respond E (calls w4) (RestartUnit ''systemd-networkd'') = Inl err"
  then have "ApplyNetworkConfiguration E (Some networkCfg) timeout w =
               run E (RestartUnit ''systemd-networkd'') w4"
    by (simp add: ApplyNetworkConfiguration_def run_def exec_def)
  then show "fst (ApplyNetworkConfiguration E (Some networkCfg) timeout w) = Inl err
   \<and> calls (snd (ApplyNetworkConfiguration E (Some networkCfg) timeout w)) =
       calls w4 @ [RestartUnit ''systemd-networkd'']"
    using a by (simp add: run_respond run_calls)
qed

lemma Apply_timesyncd_failure:
  "run E (SetHostname (targetHostname networkCfg)) w = (Inr (), w1) \<and>
   run E (UpdateEnvironment (Proxy networkCfg)) w1 = (Inr (), w2) \<and>
   generateNetworkConfiguration E networkCfg w2 = (Inr (), w3) \<and>
   waitForUdevInterfaceRename E (5 * Second) w3 = (Inr (), w4) \<and>
   respond E (calls w4) (RestartUnit ''systemd-networkd'') = Inr out5 \<and>
   respond E (calls w4 @ [RestartUnit ''systemd-networkd''])
     (RestartUnit ''systemd-timesyncd'') = Inl err \<longrightarrow>
     fst (ApplyNetworkConfiguration E (Some networkCfg) timeout w) = Inl err
   \<and> calls (snd (ApplyNetworkConfiguration E (Some networkCfg) timeout w)) =
       calls w4 @ [RestartUnit ''systemd-networkd'', RestartUnit ''systemd-timesyncd'']"
  by (simp add: ApplyNetworkConfiguration_def) (simp add: run_def exec_def)

lemma Apply_online_result:
  "run E (SetHostname (targetHostname networkCfg)) w = (Inr (), w1) \<and>
   run E (UpdateEnvironment (Proxy networkCfg)) w1 = (Inr (), w2) \<and>
   generateNetworkConfiguration E networkCfg w2 = (Inr (), w3) \<and>
   waitForUdevInterfaceRename E (5 * Second) w3 = (Inr (), w4) \<and>
   run E (RestartUnit ''systemd-networkd'') w4 = (Inr (), w5) \<and>
   run E (RestartUnit ''systemd-timesyncd'') w5 = (Inr (), w6) \<longrightarrow>
     ApplyNetworkConfiguration E (Some networkCfg) timeout w =
       waitForNetworkOnline E networkCfg timeout w6"
  by (simp add: ApplyNetworkConfiguration_def)

lemma Apply_artifact_failure_imp:
  "run E (SetHostname (targetHostname networkCfg)) w = (Inr (), w1) \<and>
   run E (UpdateEnvironment (Proxy networkCfg)) w1 = (Inr (), w2) \<and>
   generateNetworkConfiguration E networkCfg w2 = (Inl err, w3) \<longrightarrow>
     ApplyNetworkConfiguration E (Some networkCfg) timeout w = (Inl err, w3)
   \<and> (\<exists>fs. calls w3 = calls w @ [SetHostname (targetHostname networkCfg),
                                   UpdateEnvironment (Proxy networkCfg)] @ fs
            \<and> list_all isFileOp fs)"
  using Apply_artifact_failure [of E networkCfg w w1 w2 err w3] by blast

lemma Apply_success_trace_imp:
  "ApplyNetworkConfiguration E (Some networkCfg) timeout w = (Inr (), w') \<longrightarrow>
     (\<exists>fs us os. calls w' =
        calls w @ [SetHostname (targetHostname networkCfg), UpdateEnvironment (Proxy networkCfg)] @
        fs @ us @ [RestartUnit ''systemd-networkd'', RestartUnit ''systemd-timesyncd''] @ os
      \<and> list_all isFileOp fs \<and> list_all isRenameCall us \<and> list_all isOnlineCall os)"
  using Apply_success_trace [of E networkCfg timeout w w'] by blast

text \<open>
  Environments for the examples: every call takes no time and succeeds with an empty output,
  but for the calls that \<open>bad\<close> holds of, which fail.
\<close>

definition failOn :: "(call \<Rightarrow> bool) \<Rightarrow> env" where
  "failOn bad = quietEnv (\<lambda>h c. if bad c then Inl (External 7) else Inr [])"

definition emptyConfig :: SystemNetworkConfig where
  "emptyConfig = \<lparr>Interfaces = [], Bonds = [], VLANs = [], DNS = None, NTP = None, Proxy = None\<rparr>"

definition netPath :: string where
  "netPath = ''/run/systemd/network''"

definition timesyncPath :: string where
  "timesyncPath = ''/run/systemd/timesyncd.conf''"

lemma emptyConfig_simps:
  "targetHostname emptyConfig = []" "Proxy emptyConfig = None"
  by (simp_all add: emptyConfig_def targetHostname_def)

lemma run_failOn:
  "run (failOn bad) c \<lparr>clock = 0, calls = h\<rparr> =
     ((if bad c then Inl (External 7) else Inr ()),
      \<lparr>clock = (case c of Sleep d \<Rightarrow> max d 0 | _ \<Rightarrow> 0), calls = h @ [c]\<rparr>)"
  by (simp add: run_def exec_def failOn_def)

lemma respond_failOn:
  "respond (failOn bad) h c = (if bad c then Inl (External 7) else Inr [])"
  by (simp add: failOn_def)

lemma generate_failOn:
  "\<not> bad (RemoveAll netPath) \<Longrightarrow>
   generateNetworkConfiguration (failOn bad) emptyConfig \<lparr>clock = 0, calls = h\<rparr> =
     (if bad (Mkdir netPath)
      then (Inl (External 7), \<lparr>clock = 0, calls = h @ [RemoveAll netPath, Mkdir netPath]\<rparr>)
      else (Inr (), \<lparr>clock = 0, calls = h @ [RemoveAll netPath, Mkdir netPath,
                                              Remove timesyncPath]\<rparr>))"
  by (simp add: generateNetworkConfiguration_def writeArtifacts_def writeTimesync_def exec_def
      failOn_def quietEnv_def emptyConfig_def netPath_def timesyncPath_def
      generateLinkFileContents_def generateNetdevFileContents_def
      generateNetworkFileContents_def interfaceNetdevs_def)

lemma rename_failOn:
  "\<not> bad udevTrigger \<Longrightarrow> \<not> bad udevSettle \<Longrightarrow> \<not> bad journalRenamed \<Longrightarrow>
   waitForUdevInterfaceRename (failOn bad) (5 * Second) \<lparr>clock = 0, calls = h\<rparr> =
     (Inr (), \<lparr>clock = 0, calls = h @ [udevTrigger, udevSettle, journalRenamed]\<rparr>)"
  unfolding waitForUdevInterfaceRename_def
  by (subst udevRenameLoop.simps)
     (simp add: Second_def exec_def failOn_def udevTrigger_def udevSettle_def journalRenamed_def)

lemma online_failOn:
  "waitForNetworkOnline (failOn bad) emptyConfig timeout \<lparr>clock = 0, calls = h\<rparr> =
     (if timeout < 0 then Inl onlineTimeout else Inr (), \<lparr>clock = 0, calls = h\<rparr>)"
  unfolding waitForNetworkOnline_def
  by (subst onlineLoop.simps) (simp add: devicesToCheck_def rangeOver_def emptyConfig_def)

text \<open>
  Claim C2. Without a configuration \<open>ApplyNetworkConfiguration\<close> returns the error
  \<open>no network configuration provided\<close> and leaves the world as it was. With one, it is the
  seven steps hostname, proxy environment, artifact generation and write, rename wait (5 s),
  restart of \<open>systemd-networkd\<close>, restart of \<open>systemd-timesyncd\<close>, online wait, run in order.
  A step that is one call (hostname, proxy environment, either restart) fails exactly when the
  outside world answers that call with an error. Step by step: when the hostname call is
  answered with an error, that error is the result and the hostname call is the only call
  made; when the proxy environment call is, the calls made are these two; when the artifact
  write fails, its error is the result and the calls made are the hostname, the proxy
  environment and file operations only: no command, restart or sleep; when the rename wait
  fails, its error is the result and only calls of the rename waiter have followed the file
  operations; when the restart of \<open>systemd-networkd\<close> is answered with an error, that error is
  the result and this restart is the last call; when the restart of \<open>systemd-timesyncd\<close> is,
  the two restarts are the last calls; when the six steps succeed, the result is that of the
  online wait. When the whole succeeds, the calls made are, in this order, the hostname, the
  proxy environment, file operations, calls of the rename waiter, the two restarts, calls of
  the online waiter.
\<close>

theorem apply_steps_in_order:
  "ApplyNetworkConfiguration E None timeout w = (Inl noConfigError, w)
   \<and> ApplyNetworkConfiguration E (Some networkCfg) timeout w =
       inOrder [run E (SetHostname (targetHostname networkCfg)),
                run E (UpdateEnvironment (Proxy networkCfg)),
                generateNetworkConfiguration E networkCfg,
                waitForUdevInterfaceRename E (5 * Second),
                run E (RestartUnit ''systemd-networkd''),
                run E (RestartUnit ''systemd-timesyncd''),
                waitForNetworkOnline E networkCfg timeout] w
   \<and> (run E (SetHostname (targetHostname networkCfg)) w = (Inr (), w1) \<and>
       run E (UpdateEnvironment (Proxy networkCfg)) w1 = (Inr (), w2) \<and>
       generateNetworkConfiguration E networkCfg w2 = (Inl err, w3) \<longrightarrow>
         ApplyNetworkConfiguration E (Some networkCfg) timeout w = (Inl err, w3)
       \<and> (\<exists>fs. calls w3 = calls w @ [SetHostname (targetHostname networkCfg),
                                       UpdateEnvironment (Proxy networkCfg)] @ fs
                \<and> list_all isFileOp fs))
   \<and> (ApplyNetworkConfiguration E (Some networkCfg) timeout w = (Inr (), w') \<longrightarrow>
        (\<exists>fs us os. calls w' =
           calls w @ [SetHostname (targetHostname networkCfg), UpdateEnvironment (Proxy networkCfg)] @
           fs @ us @ [RestartUnit ''systemd-networkd'', RestartUnit ''systemd-timesyncd''] @ os
         \<and> list_all isFileOp fs \<and> list_all isRenameCall us \<and> list_all isOnlineCall os))
   \<and> fst (run E c w) = (case respond E (calls w) c of Inl e \<Rightarrow> Inl e | Inr out \<Rightarrow> Inr ())
   \<and> calls (snd (run E c w)) = calls w @ [c]
   \<and> (respond E (calls w) (SetHostname (targetHostname networkCfg)) = Inl err \<longrightarrow>
         fst (ApplyNetworkConfiguration E (Some networkCfg) timeout w) = Inl err
       \<and> calls (snd (ApplyNetworkConfiguration E (Some networkCfg) timeout w)) =
           calls w @ [SetHostname (targetHostname networkCfg)])
   \<and> (respond E (calls w) (SetHostname (targetHostname networkCfg)) = Inr out1 \<and>
       respond E (calls w @ [SetHostname (targetHostname networkCfg)])
         (UpdateEnvironment (Proxy networkCfg)) = Inl err \<longrightarrow>
         fst (ApplyNetworkConfiguration E (Some networkCfg) timeout w) = Inl err
       \<and> calls (snd (ApplyNetworkConfiguration E (Some networkCfg) timeout w)) =
           calls w @ [SetHostname (targetHostname networkCfg),
                      UpdateEnvironment (Proxy networkCfg)])
   \<and> (run E (SetHostname (targetHostname networkCfg)) w = (Inr (), w1) \<and>
       run E (UpdateEnvironment (Proxy networkCfg)) w1 = (Inr (), w2) \<and>
       generateNetworkConfiguration E networkCfg w2 = (Inr (), w3) \<and>
       waitForUdevInterfaceRename E (5 * Second) w3 = (Inl err, w4) \<longrightarrow>
         ApplyNetworkConfiguration E (Some networkCfg) timeout w = (Inl err, w4)
       \<and> (\<exists>fs us. calls w4 = calls w @ [SetHostname (targetHostname networkCfg),
                                           UpdateEnvironment (Proxy networkCfg)] @ fs @ us
                  \<and> list_all isFileOp fs \<and> list_all isRenameCall us))
   \<and> (run E (SetHostname (targetHostname networkCfg)) w = (Inr (), w1) \<and>
       run E (UpdateEnvironment (Proxy networkCfg)) w1 = (Inr (), w2) \<and>
       generateNetworkConfiguration E networkCfg w2 = (Inr (), w3) \<and>
       waitForUdevInterfaceRename E (5 * Second) w3 = (Inr (), w4) \<and>
       respond E (calls w4) (RestartUnit ''systemd-networkd'') = Inl err \<longrightarrow>
         fst (ApplyNetworkConfiguration E (Some networkCfg) timeout w) = Inl err
       \<and> calls (snd (ApplyNetworkConfiguration E (Some networkCfg) timeout w)) =
           calls w4 @ [RestartUnit ''systemd-networkd''])
   \<and> (run E (SetHostname (targetHostname networkCfg)) w = (Inr (), w1) \<and>
       run E (UpdateEnvironment (Proxy networkCfg)) w1 = (Inr (), w2) \<and>
       generateNetworkConfiguration E networkCfg w2 = (Inr (), w3) \<and>
       waitForUdevInterfaceRename E (5 * Second) w3 = (Inr (), w4) \<and>
       respond E (calls w4) (RestartUnit ''systemd-networkd'') = Inr out5 \<and>
       respond E (calls w4 @ [RestartUnit ''systemd-networkd''])
         (RestartUnit ''systemd-timesyncd'') = Inl err \<longrightarrow>
         fst (ApplyNetworkConfiguration E (Some networkCfg) timeout w) = Inl err
       \<and> calls (snd (ApplyNetworkConfiguration E (Some networkCfg) timeout w)) =
           calls w4 @ [RestartUnit ''systemd-networkd'', RestartUnit ''systemd-timesyncd''])
   \<and> (run E (SetHostname (targetHostname networkCfg)) w = (Inr (), w1) \<and>
       run E (UpdateEnvironment (Proxy networkCfg)) w1 = (Inr (), w2) \<and>
       generateNetworkConfiguration E networkCfg w2 = (Inr (), w3) \<and>
       waitForUdevInterfaceRename E (5 * Second) w3 = (Inr (), w4) \<and>
       run E (RestartUnit ''systemd-networkd'') w4 = (Inr (), w5) \<and>
       run E (RestartUnit ''systemd-timesyncd'') w5 = (Inr (), w6) \<longrightarrow>
         ApplyNetworkConfiguration E (Some networkCfg) timeout w =
           waitForNetworkOnline E networkCfg timeout w6)"
proof (intro conjI)
  show "ApplyNetworkConfiguration E None timeout w = (Inl noConfigError, w)"
    by (simp add: ApplyNetworkConfiguration_def)
qed (rule Apply_inOrder Apply_artifact_failure_imp Apply_success_trace_imp run_respond
       run_calls Apply_hostname_failure Apply_proxy_failure Apply_rename_failure
       Apply_networkd_failure Apply_timesyncd_failure Apply_online_result)+

theorem apply_steps_in_order_witness:
  "ApplyNetworkConfiguration (failOn (\<lambda>c. c = Mkdir netPath)) (Some emptyConfig) (30 * Second)
     \<lparr>clock = 0, calls = []\<rparr> =
   (Inl (External 7),
    \<lparr>clock = 0,
     calls = [SetHostname [], UpdateEnvironment None, RemoveAll netPath, Mkdir netPath]\<rparr>)
   \<and> ApplyNetworkConfiguration (failOn (\<lambda>c. False)) (Some emptyConfig) (30 * Second)
     \<lparr>clock = 0, calls = []\<rparr> =
   (Inr (),
    \<lparr>clock = 0,
     calls = [SetHostname [], UpdateEnvironment None, RemoveAll netPath, Mkdir netPath,
              Remove timesyncPath, udevTrigger, udevSettle, journalRenamed,
              RestartUnit ''systemd-networkd'', RestartUnit ''systemd-timesyncd'']\<rparr>)
   \<and> (\<exists>fs us os.
         [SetHostname [], UpdateEnvironment None, RemoveAll netPath, Mkdir netPath,
          Remove timesyncPath, udevTrigger, udevSettle, journalRenamed,
          RestartUnit ''systemd-networkd'', RestartUnit ''systemd-timesyncd''] =
         [SetHostname [], UpdateEnvironment None] @ fs @ us @
         [RestartUnit ''systemd-networkd'', RestartUnit ''systemd-timesyncd''] @ os
       \<and> list_all isFileOp fs \<and> list_all isRenameCall us \<and> list_all isOnlineCall os)
   \<and> fst (ApplyNetworkConfiguration (failOn (\<lambda>c. c = SetHostname [])) (Some emptyConfig)
            (30 * Second) \<lparr>clock = 0, calls = []\<rparr>) = Inl (External 7)
   \<and> calls (snd (ApplyNetworkConfiguration (failOn (\<lambda>c. c = SetHostname [])) (Some emptyConfig)
            (30 * Second) \<lparr>clock = 0, calls = []\<rparr>)) = [SetHostname []]
   \<and> fst (ApplyNetworkConfiguration (failOn (\<lambda>c. c = UpdateEnvironment None)) (Some emptyConfig)
            (30 * Second) \<lparr>clock = 0, calls = []\<rparr>) = Inl (External 7)
   \<and> calls (snd (ApplyNetworkConfiguration (failOn (\<lambda>c. c = UpdateEnvironment None))
            (Some emptyConfig) (30 * Second) \<lparr>clock = 0, calls = []\<rparr>)) =
       [SetHostname [], UpdateEnvironment None]
   \<and> fst (ApplyNetworkConfiguration (failOn (\<lambda>c. c = RestartUnit ''systemd-networkd''))
            (Some emptyConfig) (30 * Second) \<lparr>clock = 0, calls = []\<rparr>) = Inl (External 7)
   \<and> calls (snd (ApplyNetworkConfiguration (failOn (\<lambda>c. c = RestartUnit ''systemd-networkd''))
            (Some emptyConfig) (30 * Second) \<lparr>clock = 0, calls = []\<rparr>)) =
       [SetHostname [], UpdateEnvironment None, RemoveAll netPath, Mkdir netPath,
        Remove timesyncPath, udevTrigger, udevSettle, journalRenamed,
        RestartUnit ''systemd-networkd'']
   \<and> fst (ApplyNetworkConfiguration (failOn (\<lambda>c. c = RestartUnit ''systemd-timesyncd''))
            (Some emptyConfig) (30 * Second) \<lparr>clock = 0, calls = []\<rparr>) = Inl (External 7)
   \<and> calls (snd (ApplyNetworkConfiguration (failOn (\<lambda>c. c = RestartUnit ''systemd-timesyncd''))
            (Some emptyConfig) (30 * Second) \<lparr>clock = 0, calls = []\<rparr>)) =
       [SetHostname [], UpdateEnvironment None, RemoveAll netPath, Mkdir netPath,
        Remove timesyncPath, udevTrigger, udevSettle, journalRenamed,
        RestartUnit ''systemd-networkd'', RestartUnit ''systemd-timesyncd'']"
proof -
  let ?w = "\<lparr>clock = 0, calls = []\<rparr>"
  let ?w1 = "\<lparr>clock = 0, calls = [SetHostname []]\<rparr>"
  let ?w2 = "\<lparr>clock = 0, calls = [SetHostname [], UpdateEnvironment None]\<rparr>"
  let ?w3 = "\<lparr>clock = 0, calls = [SetHostname [], UpdateEnvironment None, RemoveAll netPath,
               Mkdir netPath]\<rparr>"
  let ?w3' = "\<lparr>clock = 0, calls = [SetHostname [], UpdateEnvironment None, RemoveAll netPath,
               Mkdir netPath, Remove timesyncPath]\<rparr>"
  let ?w4 = "\<lparr>clock = 0, calls = [SetHostname [], UpdateEnvironment None, RemoveAll netPath,
               Mkdir netPath, Remove timesyncPath, udevTrigger, udevSettle, journalRenamed]\<rparr>"
  let ?w5 = "\<lparr>clock = 0, calls = [SetHostname [], UpdateEnvironment None, RemoveAll netPath,
               Mkdir netPath, Remove timesyncPath, udevTrigger, udevSettle, journalRenamed,
               RestartUnit ''systemd-networkd'']\<rparr>"
  let ?w6 = "\<lparr>clock = 0, calls = [SetHostname [], UpdateEnvironment None, RemoveAll netPath,
               Mkdir netPath, Remove timesyncPath, udevTrigger, udevSettle, journalRenamed,
               RestartUnit ''systemd-networkd'', RestartUnit ''systemd-timesyncd'']\<rparr>"
  have s1: "bad (SetHostname []) = False \<Longrightarrow>
            run (failOn bad) (SetHostname (targetHostname emptyConfig)) ?w = (Inr (), ?w1)" for bad
    by (simp add: run_failOn emptyConfig_simps)
  have s2: "bad (UpdateEnvironment None) = False \<Longrightarrow>
            run (failOn bad) (UpdateEnvironment (Proxy emptyConfig)) ?w1 = (Inr (), ?w2)" for bad
    by (simp add: run_failOn emptyConfig_simps)
  have s3: "bad (RemoveAll netPath) = False \<Longrightarrow> bad (Mkdir netPath) = False \<Longrightarrow>
            generateNetworkConfiguration (failOn bad) emptyConfig ?w2 = (Inr (), ?w3')" for bad
    by (simp add: generate_failOn)
  have s4: "bad udevTrigger = False \<Longrightarrow> bad udevSettle = False \<Longrightarrow> bad journalRenamed = False \<Longrightarrow>
            waitForUdevInterfaceRename (failOn bad) (5 * Second) ?w3' = (Inr (), ?w4)" for bad
    using rename_failOn [of bad "calls ?w3'"] by simp
  have s5: "bad (RestartUnit ''systemd-networkd'') = False \<Longrightarrow>
            run (failOn bad) (RestartUnit ''systemd-networkd'') ?w4 = (Inr (), ?w5)" for bad
    by (simp add: run_failOn)
  have s6: "bad (RestartUnit ''systemd-timesyncd'') = False \<Longrightarrow>
            run (failOn bad) (RestartUnit ''systemd-timesyncd'') ?w5 = (Inr (), ?w6)" for bad
    by (simp add: run_failOn)
  have nb: "udevTrigger \<noteq> RestartUnit u" "udevSettle \<noteq> RestartUnit u"
    "journalRenamed \<noteq> RestartUnit u" for u
    by (simp_all add: udevTrigger_def udevSettle_def journalRenamed_def)

  let ?Em = "failOn (\<lambda>c. c = Mkdir netPath)"
  have m3: "generateNetworkConfiguration ?Em emptyConfig ?w2 = (Inl (External 7), ?w3)"
    by (simp add: generate_failOn)
  note tm = apply_steps_in_order [where E = ?Em and networkCfg = emptyConfig
      and timeout = "30 * Second" and w = ?w and ?w1.0 = ?w1 and ?w2.0 = ?w2
      and err = "External 7" and ?w3.0 = ?w3]
  have r1: "ApplyNetworkConfiguration ?Em (Some emptyConfig) (30 * Second) ?w =
              (Inl (External 7), ?w3)"
    using mp [OF tm [THEN conjunct2, THEN conjunct2, THEN conjunct1]] s1 [of "\<lambda>c. c = Mkdir netPath"]
      s2 [of "\<lambda>c. c = Mkdir netPath"] m3 by simp

  let ?E0 = "failOn (\<lambda>c. False)"
  note t0 = apply_steps_in_order [where E = ?E0 and networkCfg = emptyConfig
      and timeout = "30 * Second" and w = ?w and ?w1.0 = ?w1 and ?w2.0 = ?w2
      and ?w3.0 = ?w3' and ?w4.0 = ?w4 and ?w5.0 = ?w5 and ?w6.0 = ?w6 and w' = ?w6]
  have "ApplyNetworkConfiguration ?E0 (Some emptyConfig) (30 * Second) ?w =
          waitForNetworkOnline ?E0 emptyConfig (30 * Second) ?w6"
    by (rule mp [OF t0 [THEN conjunct2, THEN conjunct2, THEN conjunct2, THEN conjunct2,
          THEN conjunct2, THEN conjunct2, THEN conjunct2, THEN conjunct2, THEN conjunct2,
          THEN conjunct2, THEN conjunct2]])
       (simp add: s1 s2 s3 s4 s5 s6)
  then have r2: "ApplyNetworkConfiguration ?E0 (Some emptyConfig) (30 * Second) ?w = (Inr (), ?w6)"
    by (simp add: online_failOn Second_def)
  note ok = mp [OF t0 [THEN conjunct2, THEN conjunct2, THEN conjunct2, THEN conjunct1] r2]

  let ?Eh = "failOn (\<lambda>c. c = SetHostname [])"
  note th = apply_steps_in_order [where E = ?Eh and networkCfg = emptyConfig
      and timeout = "30 * Second" and w = ?w and err = "External 7"]
  have r3: "fst (ApplyNetworkConfiguration ?Eh (Some emptyConfig) (30 * Second) ?w) = Inl (External 7)
     \<and> calls (snd (ApplyNetworkConfiguration ?Eh (Some emptyConfig) (30 * Second) ?w)) =
         [SetHostname []]"
    using mp [OF th [THEN conjunct2, THEN conjunct2, THEN conjunct2, THEN conjunct2,
          THEN conjunct2, THEN conjunct2, THEN conjunct1]]
    by (simp add: respond_failOn emptyConfig_simps)

  let ?Ep = "failOn (\<lambda>c. c = UpdateEnvironment None)"
  note tp = apply_steps_in_order [where E = ?Ep and networkCfg = emptyConfig
      and timeout = "30 * Second" and w = ?w and err = "External 7" and ?out1.0 = "[]"]
  have r4: "fst (ApplyNetworkConfiguration ?Ep (Some emptyConfig) (30 * Second) ?w) = Inl (External 7)
     \<and> calls (snd (ApplyNetworkConfiguration ?Ep (Some emptyConfig) (30 * Second) ?w)) =
         [SetHostname [], UpdateEnvironment None]"
    using mp [OF tp [THEN conjunct2, THEN conjunct2, THEN conjunct2, THEN conjunct2,
          THEN conjunct2, THEN conjunct2, THEN conjunct2, THEN conjunct1]]
    by (simp add: respond_failOn emptyConfig_simps)

  let ?En = "failOn (\<lambda>c. c = RestartUnit ''systemd-networkd'')"
  note tn = apply_steps_in_order [where E = ?En and networkCfg = emptyConfig
      and timeout = "30 * Second" and w = ?w and ?w1.0 = ?w1 and ?w2.0 = ?w2
      and ?w3.0 = ?w3' and ?w4.0 = ?w4 and err = "External 7"]
  have r5: "fst (ApplyNetworkConfiguration ?En (Some emptyConfig) (30 * Second) ?w) = Inl (External 7)
     \<and> calls (snd (ApplyNetworkConfiguration ?En (Some emptyConfig) (30 * Second) ?w)) =
         calls ?w4 @ [RestartUnit ''systemd-networkd'']"
    by (rule mp [OF tn [THEN conjunct2, THEN conjunct2, THEN conjunct2, THEN conjunct2,
          THEN conjunct2, THEN conjunct2, THEN conjunct2, THEN conjunct2, THEN conjunct2,
          THEN conjunct1]])
       (simp add: s1 s2 s3 s4 respond_failOn nb)

  let ?Et = "failOn (\<lambda>c. c = RestartUnit ''systemd-timesyncd'')"
  note tt = apply_steps_in_order [where E = ?Et and networkCfg = emptyConfig
      and timeout = "30 * Second" and w = ?w and ?w1.0 = ?w1 and ?w2.0 = ?w2
      and ?w3.0 = ?w3' and ?w4.0 = ?w4 and err = "External 7" and ?out5.0 = "[]"]
  have r6: "fst (ApplyNetworkConfiguration ?Et (Some emptyConfig) (30 * Second) ?w) = Inl (External 7)
     \<and> calls (snd (ApplyNetworkConfiguration ?Et (Some emptyConfig) (30 * Second) ?w)) =
         calls ?w4 @ [RestartUnit ''systemd-networkd'', RestartUnit ''systemd-timesyncd'']"
    by (rule mp [OF tt [THEN conjunct2, THEN conjunct2, THEN conjunct2, THEN conjunct2,
          THEN conjunct2, THEN conjunct2, THEN conjunct2, THEN conjunct2, THEN conjunct2,
          THEN conjunct2, THEN conjunct1]])
       (simp add: s1 s2 s3 s4 respond_failOn nb)
  show ?thesis using r1 r2 ok r3 r4 r5 r6 by simp
qed

section \<open>The rename wait (C8)\<close>

lemma exec_eq:
  "exec E c w = (respond E (calls w) c, snd (exec E c w))"
  by (simp add: exec_def)

lemma calls_snd_exec: "calls (snd (exec E c w)) = calls w @ [c]"
  by (simp add: exec_def)

lemma udev_trigger_fails:
  assumes "\<not> clock w > endTime" "respond E (calls w) udevTrigger = Inl err"
  shows "fst (udevRenameLoop E endTime w) = Inl err"
    and "calls (snd (udevRenameLoop E endTime w)) = calls w @ [udevTrigger]"
  using assms
  by (simp_all add: udevRenameLoop.simps [of E endTime w] exec_def)

lemma udev_settle_fails:
  assumes "\<not> clock w > endTime" "respond E (calls w) udevTrigger = Inr o1"
    "respond E (calls w @ [udevTrigger]) udevSettle = Inl err"
  shows "fst (udevRenameLoop E endTime w) = Inl err"
    and "calls (snd (udevRenameLoop E endTime w)) = calls w @ [udevTrigger, udevSettle]"
  using assms
  by (simp_all add: udevRenameLoop.simps [of E endTime w] exec_def)

lemma udev_match:
  assumes "\<not> clock w > endTime" "respond E (calls w) udevTrigger = Inr o1"
    "respond E (calls w @ [udevTrigger]) udevSettle = Inr o2"
    "respond E (calls w @ [udevTrigger, udevSettle]) journalRenamed = Inr o3"
  shows "fst (udevRenameLoop E endTime w) = Inr ()"
    and "calls (snd (udevRenameLoop E endTime w)) =
           calls w @ [udevTrigger, udevSettle, journalRenamed]"
  using assms
  by (simp_all add: udevRenameLoop.simps [of E endTime w] exec_def)

lemma udev_no_match:
  assumes "\<not> clock w > endTime" "respond E (calls w) udevTrigger = Inr o1"
    "respond E (calls w @ [udevTrigger]) udevSettle = Inr o2"
    "respond E (calls w @ [udevTrigger, udevSettle]) journalRenamed = Inl err"
  shows "\<exists>w4. calls w4 = calls w @ [udevTrigger, udevSettle, journalRenamed,
                                     Sleep (500 * Millisecond)]
            \<and> clock w + 500 * Millisecond \<le> clock w4
            \<and> udevRenameLoop E endTime w = udevRenameLoop E endTime w4"
proof -
  let ?w3 = "snd (exec E journalRenamed (snd (exec E udevSettle (snd (exec E udevTrigger w)))))"
  let ?w4 = "sleep E (500 * Millisecond) ?w3"
  have "calls ?w4 = calls w @ [udevTrigger, udevSettle, journalRenamed, Sleep (500 * Millisecond)]"
    by (simp add: calls_sleep calls_snd_exec)
  moreover have "clock w \<le> clock ?w3"
    using clock_exec [of w E udevTrigger] clock_exec [of "snd (exec E udevTrigger w)" E udevSettle]
      clock_exec [of "snd (exec E udevSettle (snd (exec E udevTrigger w)))" E journalRenamed]
    by linarith
  then have "clock w + 500 * Millisecond \<le> clock ?w4"
    using clock_sleep [of "500 * Millisecond" ?w3 E] by (simp add: Millisecond_def)
  moreover have "udevRenameLoop E endTime w = udevRenameLoop E endTime ?w4"
    using assms
    by (simp add: udevRenameLoop.simps [of E endTime w] exec_def)
  ultimately show ?thesis by blast
qed

lemma udev_deadline:
  "clock w > endTime \<Longrightarrow> udevRenameLoop E endTime w = (Inl udevTimeout, w)"
  by (simp add: udevRenameLoop.simps [of E endTime w])

lemma udev_outcomes:
  "udevRenameLoop E endTime w = (r, w') \<Longrightarrow>
     (r = Inr () \<and> (\<exists>h out. calls w' = h @ [journalRenamed] \<and>
                              respond E h journalRenamed = Inr out))
   \<or> (r = Inl udevTimeout \<and> clock w' > endTime)
   \<or> (\<exists>err h c. r = Inl err \<and> calls w' = h @ [c] \<and> (c = udevTrigger \<or> c = udevSettle) \<and>
                  respond E h c = Inl err)"
proof (induction E endTime w rule: udevRenameLoop.induct)
  case (1 E endTime w)
  show ?case
  proof (cases "clock w > endTime")
    case True
    then show ?thesis using "1.prems" by (simp add: udev_deadline)
  next
    case False
    obtain r1 w1 where e1: "exec E udevTrigger w = (r1, w1)" by (cases "exec E udevTrigger w")
    obtain r2 w2 where e2: "exec E udevSettle w1 = (r2, w2)" by (cases "exec E udevSettle w1")
    obtain r3 w3 where e3: "exec E journalRenamed w2 = (r3, w3)"
      by (cases "exec E journalRenamed w2")
    note c1 = calls_exec [OF e1] and c2 = calls_exec [OF e2] and c3 = calls_exec [OF e3]
    note q1 = result_exec [OF e1] and q2 = result_exec [OF e2] and q3 = result_exec [OF e3]
    show ?thesis
    proof (cases r1)
      case (Inl err)
      then have "r = Inl err" "w' = w1"
        using "1.prems" False e1 by (simp_all add: udevRenameLoop.simps [of E endTime w])
      then show ?thesis using c1 q1 Inl by auto
    next
      case i1: (Inr o1)
      show ?thesis
      proof (cases r2)
        case (Inl err)
        then have "r = Inl err" "w' = w2"
          using "1.prems" False e1 e2 i1 by (simp_all add: udevRenameLoop.simps [of E endTime w])
        then show ?thesis using c2 q2 Inl by auto
      next
        case i2: (Inr o2)
        show ?thesis
        proof (cases r3)
          case (Inr o3)
          then have "r = Inr ()" "w' = w3"
            using "1.prems" False e1 e2 e3 i1 i2
            by (simp_all add: udevRenameLoop.simps [of E endTime w])
          moreover have "respond E (calls w2) journalRenamed = Inr o3" using q3 Inr by simp
          ultimately show ?thesis using c3 by blast
        next
          case (Inl err)
          have "udevRenameLoop E endTime (sleep E (500 * Millisecond) w3) = (r, w')"
            using "1.prems" False e1 e2 e3 i1 i2 Inl
            by (simp add: udevRenameLoop.simps [of E endTime w])
          from "1.IH" [OF False e1 [symmetric] i1 e2 [symmetric] i2 e3 [symmetric] Inl this]
          show ?thesis .
        qed
      qed
    qed
  qed
qed


text \<open>
  Claim C8. One turn of the loop of \<open>waitForUdevInterfaceRename\<close>, from a world \<open>w\<close>: past the
  deadline it returns the timeout error and calls nothing; otherwise an error of
  \<open>udevadm trigger\<close> is returned at once, after that one call; an error of \<open>udevadm settle\<close> is
  returned at once, after those two calls; a successful \<open>journalctl\<close> (a rename event was
  found) is success; and a failed \<open>journalctl\<close> is followed by \<open>Sleep\<close> of 500 ms and the
  loop goes on from there, at least 500 ms later. Over the whole wait the result is success
  after a successful \<open>journalctl\<close> as the last call, or the timeout error with the clock past
  the deadline, or the error of a \<open>udevadm trigger\<close> or \<open>udevadm settle\<close> that was the last call.
\<close>

theorem rename_wait_outcomes:
  "(clock w > endTime \<longrightarrow> udevRenameLoop E endTime w = (Inl udevTimeout, w))
   \<and> (\<not> clock w > endTime \<and> respond E (calls w) udevTrigger = Inl err \<longrightarrow>
        fst (udevRenameLoop E endTime w) = Inl err
      \<and> calls (snd (udevRenameLoop E endTime w)) = calls w @ [udevTrigger])
   \<and> (\<not> clock w > endTime \<and> respond E (calls w) udevTrigger = Inr o1 \<and>
       respond E (calls w @ [udevTrigger]) udevSettle = Inl err \<longrightarrow>
        fst (udevRenameLoop E endTime w) = Inl err
      \<and> calls (snd (udevRenameLoop E endTime w)) = calls w @ [udevTrigger, udevSettle])
   \<and> (\<not> clock w > endTime \<and> respond E (calls w) udevTrigger = Inr o1 \<and>
       respond E (calls w @ [udevTrigger]) udevSettle = Inr o2 \<and>
       respond E (calls w @ [udevTrigger, udevSettle]) journalRenamed = Inr o3 \<longrightarrow>
        fst (udevRenameLoop E endTime w) = Inr ()
      \<and> calls (snd (udevRenameLoop E endTime w)) =
          calls w @ [udevTrigger, udevSettle, journalRenamed])
   \<and> (\<not> clock w > endTime \<and> respond E (calls w) udevTrigger = Inr o1 \<and>
       respond E (calls w @ [udevTrigger]) udevSettle = Inr o2 \<and>
       respond E (calls w @ [udevTrigger, udevSettle]) journalRenamed = Inl err \<longrightarrow>
        (\<exists>w4. calls w4 = calls w @ [udevTrigger, udevSettle, journalRenamed,
                                     Sleep (500 * Millisecond)]
            \<and> clock w + 500 * Millisecond \<le> clock w4
            \<and> udevRenameLoop E endTime w = udevRenameLoop E endTime w4))
   \<and> (waitForUdevInterfaceRename E timeout w = (r, w') \<longrightarrow>
        (r = Inr () \<and> (\<exists>h out. calls w' = h @ [journalRenamed] \<and>
                                 respond E h journalRenamed = Inr out))
      \<or> (r = Inl udevTimeout \<and> clock w' > clock w + timeout)
      \<or> (\<exists>e h c. r = Inl e \<and> calls w' = h @ [c] \<and> (c = udevTrigger \<or> c = udevSettle) \<and>
                   respond E h c = Inl e))"
proof (intro conjI impI)
  assume "clock w > endTime"
  then show "udevRenameLoop E endTime w = (Inl udevTimeout, w)" by (rule udev_deadline)
next
  assume a: "\<not> clock w > endTime \<and> respond E (calls w) udevTrigger = Inl err"
  then show "fst (udevRenameLoop E endTime w) = Inl err"
    by (intro udev_trigger_fails(1)) simp_all
  from a show "calls (snd (udevRenameLoop E endTime w)) = calls w @ [udevTrigger]"
    by (intro udev_trigger_fails(2) [where err = err]) simp_all
next
  assume a: "\<not> clock w > endTime \<and> respond E (calls w) udevTrigger = Inr o1 \<and>
       respond E (calls w @ [udevTrigger]) udevSettle = Inl err"
  then show "fst (udevRenameLoop E endTime w) = Inl err"
    by (intro udev_settle_fails(1) [where ?o1.0 = o1]) simp_all
  from a show "calls (snd (udevRenameLoop E endTime w)) = calls w @ [udevTrigger, udevSettle]"
    by (intro udev_settle_fails(2) [where ?o1.0 = o1 and err = err]) simp_all
next
  assume a: "\<not> clock w > endTime \<and> respond E (calls w) udevTrigger = Inr o1 \<and>
       respond E (calls w @ [udevTrigger]) udevSettle = Inr o2 \<and>
       respond E (calls w @ [udevTrigger, udevSettle]) journalRenamed = Inr o3"
  then show "fst (udevRenameLoop E endTime w) = Inr ()"
    by (intro udev_match(1) [where ?o1.0 = o1 and ?o2.0 = o2 and ?o3.0 = o3]) simp_all
  from a show "calls (snd (udevRenameLoop E endTime w)) =
          calls w @ [udevTrigger, udevSettle, journalRenamed]"
    by (intro udev_match(2) [where ?o1.0 = o1 and ?o2.0 = o2 and ?o3.0 = o3]) simp_all
next
  assume a: "\<not> clock w > endTime \<and> respond E (calls w) udevTrigger = Inr o1 \<and>
       respond E (calls w @ [udevTrigger]) udevSettle = Inr o2 \<and>
       respond E (calls w @ [udevTrigger, udevSettle]) journalRenamed = Inl err"
  then show "\<exists>w4. calls w4 = calls w @ [udevTrigger, udevSettle, journalRenamed,
                                     Sleep (500 * Millisecond)]
            \<and> clock w + 500 * Millisecond \<le> clock w4
            \<and> udevRenameLoop E endTime w = udevRenameLoop E endTime w4"
    by (intro udev_no_match [where ?o1.0 = o1 and ?o2.0 = o2 and err = err]) simp_all
next
  assume "waitForUdevInterfaceRename E timeout w = (r, w')"
  then have "udevRenameLoop E (clock w + timeout) w = (r, w')"
    by (simp add: waitForUdevInterfaceRename_def)
  from udev_outcomes [OF this]
  show "(r = Inr () \<and> (\<exists>h out. calls w' = h @ [journalRenamed] \<and>
                                 respond E h journalRenamed = Inr out))
      \<or> (r = Inl udevTimeout \<and> clock w' > clock w + timeout)
      \<or> (\<exists>e h c. r = Inl e \<and> calls w' = h @ [c] \<and> (c = udevTrigger \<or> c = udevSettle) \<and>
                   respond E h c = Inl e)" .
qed

lemma udev_calls_distinct:
  "udevTrigger \<noteq> udevSettle" "udevSettle \<noteq> udevTrigger"
  "udevTrigger \<noteq> journalRenamed" "journalRenamed \<noteq> udevTrigger"
  "udevSettle \<noteq> journalRenamed" "journalRenamed \<noteq> udevSettle"
  by (simp_all add: udevTrigger_def udevSettle_def journalRenamed_def)

theorem rename_wait_outcomes_witness:
  "udevRenameLoop (quietEnv (\<lambda>h c. Inr [])) 0 \<lparr>clock = 1, calls = []\<rparr> =
     (Inl udevTimeout, \<lparr>clock = 1, calls = []\<rparr>)
   \<and> fst (udevRenameLoop (quietEnv (\<lambda>h c. Inl (External 3))) 5 \<lparr>clock = 0, calls = []\<rparr>) =
       Inl (External 3)
   \<and> calls (snd (udevRenameLoop (quietEnv (\<lambda>h c. Inl (External 3))) 5 \<lparr>clock = 0, calls = []\<rparr>)) =
       [udevTrigger]
   \<and> fst (udevRenameLoop (quietEnv (\<lambda>h c. if c = udevSettle then Inl (External 4) else Inr []))
            5 \<lparr>clock = 0, calls = []\<rparr>) = Inl (External 4)
   \<and> calls (snd (udevRenameLoop (quietEnv (\<lambda>h c. if c = udevSettle then Inl (External 4) else Inr []))
            5 \<lparr>clock = 0, calls = []\<rparr>)) = [udevTrigger, udevSettle]
   \<and> fst (udevRenameLoop (quietEnv (\<lambda>h c. Inr [])) 5 \<lparr>clock = 0, calls = []\<rparr>) = Inr ()
   \<and> (\<exists>w4. calls w4 = [udevTrigger, udevSettle, journalRenamed, Sleep (500 * Millisecond)]
          \<and> 500 * Millisecond \<le> clock w4
          \<and> udevRenameLoop (quietEnv (\<lambda>h c. if c = journalRenamed then Inl (External 1) else Inr []))
               5 \<lparr>clock = 0, calls = []\<rparr> =
            udevRenameLoop (quietEnv (\<lambda>h c. if c = journalRenamed then Inl (External 1) else Inr []))
               5 w4)
   \<and> waitForUdevInterfaceRename (quietEnv (\<lambda>h c. Inl (External 3))) (5 * Second)
        \<lparr>clock = 0, calls = []\<rparr> = (Inl (External 3), \<lparr>clock = 0, calls = [udevTrigger]\<rparr>)
   \<and> (\<exists>h c. [udevTrigger] = h @ [c] \<and> (c = udevTrigger \<or> c = udevSettle) \<and>
              respond (quietEnv (\<lambda>h c. Inl (External 3))) h c = Inl (External 3))"
proof -
  let ?w = "\<lparr>clock = 0, calls = []\<rparr>"
  let ?Eok = "quietEnv (\<lambda>h c. Inr [])"
  let ?Et = "quietEnv (\<lambda>h c. Inl (External 3))"
  let ?Es = "quietEnv (\<lambda>h c. if c = udevSettle then Inl (External 4) else Inr [])"
  let ?Ej = "quietEnv (\<lambda>h c. if c = journalRenamed then Inl (External 1) else Inr [])"
  have c1: "udevRenameLoop ?Eok 0 \<lparr>clock = 1, calls = []\<rparr> = (Inl udevTimeout, \<lparr>clock = 1, calls = []\<rparr>)"
    using rename_wait_outcomes [where w = "\<lparr>clock = 1, calls = []\<rparr>" and endTime = 0 and E = ?Eok]
    by (simp add: udev_calls_distinct respond_quietEnv elapsed_quietEnv)
  have c2: "fst (udevRenameLoop ?Et 5 ?w) = Inl (External 3)
          \<and> calls (snd (udevRenameLoop ?Et 5 ?w)) = [udevTrigger]"
    using rename_wait_outcomes [where w = ?w and endTime = 5 and E = ?Et and err = "External 3"]
    by (simp add: udev_calls_distinct respond_quietEnv elapsed_quietEnv)
  have c3: "fst (udevRenameLoop ?Es 5 ?w) = Inl (External 4)
          \<and> calls (snd (udevRenameLoop ?Es 5 ?w)) = [udevTrigger, udevSettle]"
    using rename_wait_outcomes [where w = ?w and endTime = 5 and E = ?Es and err = "External 4"
        and ?o1.0 = "[]"]
    by (simp add: udev_calls_distinct respond_quietEnv elapsed_quietEnv)
  have c4: "fst (udevRenameLoop ?Eok 5 ?w) = Inr ()"
    using rename_wait_outcomes [where w = ?w and endTime = 5 and E = ?Eok
        and ?o1.0 = "[]" and ?o2.0 = "[]" and ?o3.0 = "[]"]
    by (simp add: udev_calls_distinct respond_quietEnv elapsed_quietEnv)
  have c5: "\<exists>w4. calls w4 = [udevTrigger, udevSettle, journalRenamed, Sleep (500 * Millisecond)]
          \<and> 500 * Millisecond \<le> clock w4
          \<and> udevRenameLoop ?Ej 5 ?w = udevRenameLoop ?Ej 5 w4"
    using rename_wait_outcomes [where w = ?w and endTime = 5 and E = ?Ej and err = "External 1"
        and ?o1.0 = "[]" and ?o2.0 = "[]"]
    by (simp add: udev_calls_distinct respond_quietEnv elapsed_quietEnv)
  have e: "waitForUdevInterfaceRename ?Et (5 * Second) ?w =
             (Inl (External 3), \<lparr>clock = 0, calls = [udevTrigger]\<rparr>)"
    unfolding waitForUdevInterfaceRename_def
    by (subst udevRenameLoop.simps)
       (simp add: Second_def exec_def udevTrigger_def respond_quietEnv elapsed_quietEnv)
  have c6: "\<exists>h c. [udevTrigger] = h @ [c] \<and> (c = udevTrigger \<or> c = udevSettle) \<and>
              respond ?Et h c = Inl (External 3)"
    using rename_wait_outcomes [where w = ?w and E = ?Et and timeout = "5 * Second"
        and r = "Inl (External 3)" and w' = "\<lparr>clock = 0, calls = [udevTrigger]\<rparr>"] e
    by (auto simp: udevTimeout_def respond_quietEnv)
  show ?thesis using c1 c2 c3 c4 c5 e c6 by (intro conjI) simp_all
qed

section \<open>The online wait (C1)\<close>

text \<open>
  The devices a configuration declares, as \<open>(Name, Addresses)\<close> pairs: interfaces, bonds,
  VLANs. \<open>expectedDevices\<close> are those that declare at least one address, each with the number
  of its address entries.
\<close>

definition declaredDevices :: "SystemNetworkConfig \<Rightarrow> (string \<times> string list) list" where
  "declaredDevices networkCfg =
     map (\<lambda>i. (if_Name i, if_Addresses i)) (Interfaces networkCfg) @
     map (\<lambda>b. (bond_Name b, bond_Addresses b)) (Bonds networkCfg) @
     map (\<lambda>v. (vlan_Name v, vlan_Addresses v)) (VLANs networkCfg)"

definition expectedDevices :: "(string \<times> string list) list \<Rightarrow> (string \<times> int) list" where
  "expectedDevices ds =
     map (\<lambda>d. (fst d, int (length (snd d)))) (filter (\<lambda>d. snd d \<noteq> []) ds)"

text \<open>
  The two queries, and what they say after a history \<open>h\<close> of calls: a device reports online
  when \<open>networkctl status\<close> succeeds and its output contains \<open>Online state: online\<close>; its
  observed addresses are the matches in the output of \<open>ip address show\<close> that do not start
  with \<open>fe80:\<close> (nothing is observed when the query fails). \<open>allPass E h ds\<close>: asked one after
  the other from the history \<open>h\<close>, every device of \<open>ds\<close> reports online and shows exactly its
  number of addresses; \<open>cycleCalls ds\<close> are the calls of that pass.
\<close>

definition statusCall :: "string \<Rightarrow> call" where
  "statusCall name = RunCommand [''networkctl'', ''status'', name]"

definition addressCall :: "string \<Rightarrow> call" where
  "addressCall name = RunCommand [''ip'', ''address'', ''show'', name]"

definition reportsOnline :: "env \<Rightarrow> call list \<Rightarrow> string \<Rightarrow> bool" where
  "reportsOnline E h name =
     (case respond E h (statusCall name) of
        Inl err \<Rightarrow> False
      | Inr output \<Rightarrow> Contains output ''Online state: online'')"

definition observedAddresses :: "env \<Rightarrow> call list \<Rightarrow> string \<Rightarrow> int option" where
  "observedAddresses E h name =
     (case respond E h (addressCall name) of
        Inl err \<Rightarrow> None
      | Inr output \<Rightarrow>
          Some (int (length (filter (\<lambda>addr. \<not> HasPrefix addr ''fe80:'')
                               (FindAllStringSubmatch output)))))"

fun allPass :: "env \<Rightarrow> call list \<Rightarrow> (string \<times> int) list \<Rightarrow> bool" where
  "allPass E h [] = True"
| "allPass E h ((name, numIPs) # ds) =
     (reportsOnline E h name \<and>
      observedAddresses E (h @ [statusCall name]) name = Some numIPs \<and>
      allPass E (h @ [statusCall name, addressCall name]) ds)"

definition cycleCalls :: "(string \<times> int) list \<Rightarrow> call list" where
  "cycleCalls ds = concat (map (\<lambda>d. [statusCall (fst d), addressCall (fst d)]) ds)"

text \<open>
  The output of \<open>ip address show\<close>, line by line, as far as the regular expression of
  \<open>getNumberOfIPs\<close> is concerned. An address line is four spaces, \<open>inet\<close> or \<open>inet6\<close>, a space,
  the address, a slash, the prefix length, a space and the rest of the line; any other line
  (the header, \<open>link/ether\<close>, \<open>valid_lft\<close>) holds no slash or does not hold \<open>inet\<close>.
  \<open>addressesOf\<close> are the addresses of the address lines, in order.
\<close>

datatype outputLine = AddressLine bool string string string | OtherLine string

fun renderLine :: "outputLine \<Rightarrow> string" where
  "renderLine (AddressLine v6 addr plen rest) =
     ''    '' @ (if v6 then ''inet6 '' else ''inet '') @ addr @ ''/'' @ plen @ '' '' @ rest @ NL"
| "renderLine (OtherLine line) = line @ NL"

definition renderOutput :: "outputLine list \<Rightarrow> string" where
  "renderOutput lines = concat (map renderLine lines)"

fun wellFormedLine :: "outputLine \<Rightarrow> bool" where
  "wellFormedLine (AddressLine v6 addr plen rest) =
     (addr \<noteq> [] \<and> CHR 0x0A \<notin> set addr \<and> plen \<noteq> [] \<and> list_all isDigit plen \<and>
      CHR ''/'' \<notin> set rest \<and> CHR 0x0A \<notin> set rest)"
| "wellFormedLine (OtherLine line) =
     (CHR 0x0A \<notin> set line \<and> (CHR ''/'' \<notin> set line \<or> \<not> Contains line ''inet''))"

fun addressOf :: "outputLine \<Rightarrow> string list" where
  "addressOf (AddressLine v6 addr plen rest) = [addr]"
| "addressOf (OtherLine line) = []"

definition addressesOf :: "outputLine list \<Rightarrow> string list" where
  "addressesOf lines = concat (map addressOf lines)"

text \<open>What the matcher finds in such an output: the addresses of its address lines.\<close>

lemma matchTail_slash: "matchTail s = Some r \<Longrightarrow> \<exists>t. s = CHR ''/'' # t"
  by (cases s) (auto simp: matchTail_def split: if_splits)

lemma matchGroup_slash:
  "matchGroup acc s = Some (g, r) \<Longrightarrow> CHR ''/'' \<in> set (takeWhile (\<lambda>c. c \<noteq> CHR 0x0A) s)"
proof (induction s arbitrary: acc)
  case Nil
  then show ?case by simp
next
  case (Cons c s)
  show ?case
  proof (cases "if c = CHR 0x0A then None else matchGroup (acc @ [c]) s")
    case (Some x)
    then have c: "c \<noteq> CHR 0x0A" and "matchGroup (acc @ [c]) s = Some (g, r)"
      using Cons.prems by (auto split: if_splits)
    from Cons.IH [OF this(2)] c show ?thesis by simp
  next
    case None
    then have "matchTail (c # s) = Some r"
      using Cons.prems by (auto split: if_splits option.splits)
    then have "c = CHR ''/''" using matchTail_slash by blast
    then show ?thesis by simp
  qed
qed

lemma HasPrefix_inet: "HasPrefix s ''inet'' = (take 4 s = ''inet'')"
  by (simp add: HasPrefix_def numeral_eq_Suc)

lemma matchAt_prefix: "matchAt s = Some r \<Longrightarrow> HasPrefix s ''inet''"
  by (simp add: matchAt_def split: if_splits)

lemma takeWhile_pre:
  "CHR 0x0A \<notin> set x \<Longrightarrow>
   takeWhile (\<lambda>c. c \<noteq> CHR 0x0A) (x @ u) = x @ takeWhile (\<lambda>c. c \<noteq> CHR 0x0A) u"
  by (induction x) auto

lemma matchAt_slash:
  assumes "matchAt s = Some (g, r)"
  shows "CHR ''/'' \<in> set (takeWhile (\<lambda>c. c \<noteq> CHR 0x0A) s)"
proof -
  have p: "take 4 s = ''inet''"
    using matchAt_prefix [OF assms] by (simp add: HasPrefix_inet)
  then have s: "s = ''inet'' @ drop 4 s" by (metis append_take_drop_id)
  have "\<exists>x u. drop 4 s = x @ u \<and> CHR 0x0A \<notin> set x \<and> matchGroup [] u = Some (g, r)"
  proof (cases "drop 4 s")
    case Nil
    then show ?thesis using assms by (simp add: matchAt_def split: if_splits)
  next
    case (Cons c u)
    show ?thesis
    proof (cases "(case u of d # u' \<Rightarrow> if c = CHR ''6'' \<and> d = CHR '' '' then matchGroup [] u' else None
                           | [] \<Rightarrow> None)")
      case (Some a)
      then obtain d u' where u: "u = d # u'" "c = CHR ''6''" "d = CHR '' ''"
        "matchGroup [] u' = Some a"
        by (auto split: list.splits if_splits)
      then have "a = (g, r)" using assms Cons p
        by (simp add: matchAt_def HasPrefix_inet del: matchGroup.simps)
      then have "drop 4 s = ''6 '' @ u' \<and> CHR 0x0A \<notin> set ''6 '' \<and> matchGroup [] u' = Some (g, r)"
        using u Cons by simp
      then show ?thesis by blast
    next
      case None
      then have "c = CHR '' ''" "matchGroup [] u = Some (g, r)"
        using assms Cons p
        by (auto simp add: matchAt_def HasPrefix_inet simp del: matchGroup.simps
            split: if_splits list.splits option.splits)
      then have "drop 4 s = '' '' @ u \<and> CHR 0x0A \<notin> set '' '' \<and> matchGroup [] u = Some (g, r)"
        using Cons by simp
      then show ?thesis by blast
    qed
  qed
  then obtain x u where x: "drop 4 s = x @ u" "CHR 0x0A \<notin> set x" "matchGroup [] u = Some (g, r)"
    by blast
  have "takeWhile (\<lambda>c. c \<noteq> CHR 0x0A) (''inet'' @ x @ u) =
          ''inet'' @ x @ takeWhile (\<lambda>c. c \<noteq> CHR 0x0A) u"
    using takeWhile_pre [OF x(2), of u] by simp
  then show ?thesis using matchGroup_slash [OF x(3)] s x(1) by (metis Un_iff set_append)
qed

lemma HasPrefix_before:
  "HasPrefix (t @ x # rest) p \<Longrightarrow> x \<notin> set p \<Longrightarrow> HasPrefix t p"
proof (induction p arbitrary: t)
  case Nil
  then show ?case by (simp add: HasPrefix_def)
next
  case (Cons c p)
  show ?case
  proof (cases t)
    case Nil
    then show ?thesis using Cons.prems by (simp add: HasPrefix_def)
  next
    case (Cons a t')
    then have "HasPrefix (t' @ x # rest) p" "a = c"
      using Cons.prems by (simp_all add: HasPrefix_def)
    then show ?thesis using Cons.IH [of t'] Cons.prems Cons by (simp add: HasPrefix_def)
  qed
qed

lemma HasPrefix_inet_line:
  assumes "HasPrefix (t @ NL @ rest) ''inet''" "CHR 0x0A \<notin> set t"
  shows "HasPrefix t ''inet''"
  using HasPrefix_before [of t "CHR 0x0A" rest "''inet''"] assms(1) by simp

lemma takeWhile_line:
  "CHR 0x0A \<notin> set t \<Longrightarrow> takeWhile (\<lambda>c. c \<noteq> CHR 0x0A) (t @ NL @ rest) = t"
  by (induction t) auto

lemma matchAt_line_None:
  assumes "CHR 0x0A \<notin> set t" "CHR ''/'' \<notin> set t \<or> \<not> HasPrefix t ''inet''"
  shows "matchAt (t @ NL @ rest) = None"
proof (rule ccontr)
  assume "matchAt (t @ NL @ rest) \<noteq> None"
  then obtain g r where m: "matchAt (t @ NL @ rest) = Some (g, r)" by auto
  have "takeWhile (\<lambda>c. c \<noteq> CHR 0x0A) (t @ NL @ rest) = t"
    using assms(1) by (rule takeWhile_line)
  then have "CHR ''/'' \<in> set t" using matchAt_slash [OF m] by simp
  moreover have "HasPrefix t ''inet''"
    using HasPrefix_inet_line [OF matchAt_prefix [OF m] assms(1)] .
  ultimately show False using assms(2) by blast
qed

lemma FindAll_skip_line:
  "CHR 0x0A \<notin> set t \<Longrightarrow> CHR ''/'' \<notin> set t \<or> \<not> Contains t ''inet'' \<Longrightarrow>
   FindAllStringSubmatch (t @ NL @ rest) = FindAllStringSubmatch rest"
proof (induction t)
  case Nil
  have "matchAt (NL @ rest) = None" using matchAt_line_None [of "[]" rest] by simp
  then show ?case by simp
next
  case (Cons c t)
  have "matchAt ((c # t) @ NL @ rest) = None"
    using Cons.prems by (intro matchAt_line_None) auto
  moreover have "CHR ''/'' \<notin> set t \<or> \<not> Contains t ''inet''" using Cons.prems by auto
  ultimately show ?case using Cons by simp
qed

lemma isDigit_not_slash: "list_all isDigit d \<Longrightarrow> CHR ''/'' \<notin> set d \<and> CHR 0x0A \<notin> set d"
  by (induction d) (auto simp: isDigit_def)

lemma matchTail_address:
  assumes "d \<noteq> []" "list_all isDigit d"
  shows "matchTail (CHR ''/'' # d @ CHR '' '' # u) = Some u"
proof -
  have nd: "\<not> isDigit CHR '' ''" by (simp add: isDigit_def)
  have all: "\<forall>x \<in> set d. isDigit x" using assms(2) by (simp add: list_all_iff)
  have "takeWhile isDigit (d @ CHR '' '' # u) = d"
    using all nd by (simp add: takeWhile_tail)
  moreover have "dropWhile isDigit (d @ CHR '' '' # u) = CHR '' '' # u"
    using all nd by (simp add: dropWhile_append3)
  ultimately show ?thesis using assms(1) by (simp add: matchTail_def)
qed

lemma matchGroup_address:
  assumes "CHR 0x0A \<notin> set a" "acc @ a \<noteq> []" "d \<noteq> []" "list_all isDigit d"
    "CHR ''/'' \<notin> set t" "CHR 0x0A \<notin> set t"
  shows "matchGroup acc (a @ CHR ''/'' # d @ CHR '' '' # t @ NL @ rest) =
           Some (acc @ a, t @ NL @ rest)"
  using assms(1,2)
proof (induction a arbitrary: acc)
  case Nil
  let ?s = "d @ CHR '' '' # t @ NL @ rest"
  have "matchGroup (acc @ ''/'') ?s = None"
  proof (rule ccontr)
    assume "matchGroup (acc @ ''/'') ?s \<noteq> None"
    then obtain g r where "matchGroup (acc @ ''/'') ?s = Some (g, r)" by auto
    from matchGroup_slash [OF this]
    have "CHR ''/'' \<in> set (takeWhile (\<lambda>c. c \<noteq> CHR 0x0A) ((d @ CHR '' '' # t) @ NL @ rest))"
      by simp
    moreover have "takeWhile (\<lambda>c. c \<noteq> CHR 0x0A) ((d @ CHR '' '' # t) @ NL @ rest) = d @ CHR '' '' # t"
      using isDigit_not_slash [OF assms(4)] assms(6) by (intro takeWhile_line) auto
    ultimately show False using isDigit_not_slash [OF assms(4)] assms(5) by auto
  qed
  then show ?case using Nil matchTail_address [OF assms(3,4), of "t @ NL @ rest"] by simp
next
  case (Cons c a)
  have "matchGroup (acc @ [c]) (a @ CHR ''/'' # d @ CHR '' '' # t @ NL @ rest) =
          Some ((acc @ [c]) @ a, t @ NL @ rest)"
    using Cons.prems by (intro Cons.IH) auto
  moreover have "c \<noteq> CHR 0x0A" using Cons.prems by auto
  ultimately show ?case by simp
qed

lemma matchAt_inet:
  assumes "a \<noteq> []" "CHR 0x0A \<notin> set a" "d \<noteq> []" "list_all isDigit d"
    "CHR ''/'' \<notin> set t" "CHR 0x0A \<notin> set t"
  shows "matchAt (''inet '' @ a @ CHR ''/'' # d @ CHR '' '' # t @ NL @ rest) =
           Some (a, t @ NL @ rest)"
proof -
  obtain x a' where a: "a = x # a'" using assms(1) by (cases a) auto
  have g: "matchGroup [] (a @ CHR ''/'' # d @ CHR '' '' # t @ NL @ rest) = Some (a, t @ NL @ rest)"
    using matchGroup_address [of a "[]" d t rest] assms by simp
  show ?thesis
    unfolding matchAt_def using g
    by (simp add: HasPrefix_def a del: matchGroup.simps)
qed

lemma matchAt_inet6:
  assumes "a \<noteq> []" "CHR 0x0A \<notin> set a" "d \<noteq> []" "list_all isDigit d"
    "CHR ''/'' \<notin> set t" "CHR 0x0A \<notin> set t"
  shows "matchAt (''inet6 '' @ a @ CHR ''/'' # d @ CHR '' '' # t @ NL @ rest) =
           Some (a, t @ NL @ rest)"
proof -
  have g: "matchGroup [] (a @ CHR ''/'' # d @ CHR '' '' # t @ NL @ rest) = Some (a, t @ NL @ rest)"
    using matchGroup_address [of a "[]" d t rest] assms by simp
  show ?thesis
    unfolding matchAt_def using g
    by (simp add: HasPrefix_def del: matchGroup.simps)
qed

lemma matchAt_space: "matchAt (CHR '' '' # s) = None"
  by (simp add: matchAt_def HasPrefix_def)

lemma FindAll_line:
  assumes "wellFormedLine l"
  shows "FindAllStringSubmatch (renderLine l @ rest) = addressOf l @ FindAllStringSubmatch rest"
proof (cases l)
  case (OtherLine line)
  then show ?thesis using assms FindAll_skip_line [of line rest] by simp
next
  case (AddressLine v6 a d t)
  then have wf: "a \<noteq> []" "CHR 0x0A \<notin> set a" "d \<noteq> []" "list_all isDigit d"
    "CHR ''/'' \<notin> set t" "CHR 0x0A \<notin> set t"
    using assms by simp_all
  let ?u = "a @ CHR ''/'' # d @ CHR '' '' # t @ NL @ rest"
  have skip: "FindAllStringSubmatch (''    '' @ s) = FindAllStringSubmatch s" for s
    by (simp add: matchAt_space)
  have tail: "FindAllStringSubmatch (t @ NL @ rest) = FindAllStringSubmatch rest"
    using wf by (intro FindAll_skip_line) simp_all
  show ?thesis
  proof (cases v6)
    case True
    have "FindAllStringSubmatch (''inet6 '' @ ?u) = a # FindAllStringSubmatch (t @ NL @ rest)"
      using matchAt_inet6 [OF wf, of rest] by simp
    then have "FindAllStringSubmatch (''    '' @ ''inet6 '' @ ?u) = a # FindAllStringSubmatch rest"
      unfolding skip tail .
    then show ?thesis using AddressLine True by simp
  next
    case False
    have "FindAllStringSubmatch (''inet '' @ ?u) = a # FindAllStringSubmatch (t @ NL @ rest)"
      using matchAt_inet [OF wf, of rest] by simp
    then have "FindAllStringSubmatch (''    '' @ ''inet '' @ ?u) = a # FindAllStringSubmatch rest"
      unfolding skip tail .
    then show ?thesis using AddressLine False by simp
  qed
qed

lemma FindAll_output:
  "list_all wellFormedLine lines \<Longrightarrow> FindAllStringSubmatch (renderOutput lines) = addressesOf lines"
proof (induction lines)
  case Nil
  then show ?case by (simp add: renderOutput_def addressesOf_def)
next
  case (Cons l lines)
  then show ?case
    using FindAll_line [of l "renderOutput lines"]
    by (simp add: renderOutput_def addressesOf_def)
qed

lemma countIPs_eq:
  "countIPs ms n = n + int (length (filter (\<lambda>addr. \<not> HasPrefix addr ''fe80:'') ms))"
  by (induction ms arbitrary: n) auto

lemma addDevices_append: "addDevices (xs @ ys) m = addDevices ys (addDevices xs m)"
  by (induction xs m rule: addDevices.induct) auto

lemma devicesToCheck_declared:
  "devicesToCheck networkCfg = addDevices (declaredDevices networkCfg) []"
  by (simp add: devicesToCheck_def declaredDevices_def addDevices_append)

lemma mapAssign_fresh: "name \<notin> fst ` set m \<Longrightarrow> mapAssign name n m = m @ [(name, n)]"
  by (induction m) auto

lemma addDevices_fresh:
  "distinct (map fst ds) \<Longrightarrow> fst ` set m \<inter> fst ` set ds = {} \<Longrightarrow>
   addDevices ds m = m @ expectedDevices ds"
proof (induction ds m rule: addDevices.induct)
  case (1 m)
  then show ?case by (simp add: expectedDevices_def)
next
  case (2 name addresses ds m)
  show ?case
  proof (cases "addresses = []")
    case True
    then have "addDevices ds m = m @ expectedDevices ds"
      using 2 by auto
    then show ?thesis using True by (simp add: expectedDevices_def)
  next
    case False
    have fresh: "name \<notin> fst ` set m" using "2.prems" by auto
    let ?m' = "mapAssign name (int (length addresses)) m"
    have m': "?m' = m @ [(name, int (length addresses))]" by (rule mapAssign_fresh [OF fresh])
    have "fst ` set ?m' \<inter> fst ` set ds = {}"
      using "2.prems" unfolding m' by auto
    moreover have "distinct (map fst ds)" using "2.prems" by simp
    ultimately have "addDevices ds ?m' = ?m' @ expectedDevices ds"
      using "2.IH"(2) False by simp
    then show ?thesis using False m' by (simp add: expectedDevices_def)
  qed
qed

lemma devicesToCheck_expected:
  "distinct (map fst (declaredDevices networkCfg)) \<Longrightarrow>
   devicesToCheck networkCfg = expectedDevices (declaredDevices networkCfg)"
  using addDevices_fresh [of "declaredDevices networkCfg" "[]"]
  by (simp add: devicesToCheck_declared)

lemma mapAssign_positive:
  "0 < n \<Longrightarrow> \<forall>d \<in> set m. 0 < snd d \<Longrightarrow> \<forall>d \<in> set (mapAssign name n m). 0 < snd d"
  by (induction m) (fastforce split: if_splits)+

lemma addDevices_positive:
  "\<forall>d \<in> set m. 0 < snd d \<Longrightarrow> \<forall>d \<in> set (addDevices ds m). 0 < snd d"
proof (induction ds m rule: addDevices.induct)
  case (1 m)
  then show ?case by simp
next
  case (2 name addresses ds m)
  show ?case
  proof (cases "addresses = []")
    case True
    then show ?thesis using 2 by simp
  next
    case False
    then have "\<forall>d \<in> set (mapAssign name (int (length addresses)) m). 0 < snd d"
      using "2.prems" by (intro mapAssign_positive) simp_all
    then show ?thesis using "2.IH"(2) False by simp
  qed
qed

lemma devicesToCheck_positive: "\<forall>d \<in> set (devicesToCheck networkCfg). 0 < snd d"
  using addDevices_positive [of "[]" "declaredDevices networkCfg"]
  by (simp add: devicesToCheck_declared)

lemma isOnline_eq:
  "isOnline E name w = (reportsOnline E (calls w) name, snd (exec E (statusCall name) w))"
  by (simp add: isOnline_def reportsOnline_def statusCall_def exec_def split: sum.splits)

lemma getNumberOfIPs_eq:
  "getNumberOfIPs E name w =
     ((case observedAddresses E (calls w) name of None \<Rightarrow> - 1 | Some n \<Rightarrow> n),
      snd (exec E (addressCall name) w))"
  by (simp add: getNumberOfIPs_def observedAddresses_def addressCall_def exec_def countIPs_eq
      split: sum.splits)

lemma calls_snd_exec': "calls (snd (exec E c w)) = calls w @ [c]"
  by (simp add: exec_def)

lemma checkDevices_True:
  "checkDevices E ds w = (True, w') \<Longrightarrow> \<forall>d \<in> set ds. 0 < snd d \<Longrightarrow>
   allPass E (calls w) ds \<and> calls w' = calls w @ cycleCalls ds"
proof (induction ds arbitrary: w)
  case Nil
  then show ?case by (simp add: cycleCalls_def)
next
  case (Cons d ds)
  obtain name numIPs where d: "d = (name, numIPs)" by (cases d)
  let ?w1 = "snd (exec E (statusCall name) w)"
  let ?w2 = "snd (exec E (addressCall name) ?w1)"
  have pos: "0 < numIPs" using Cons.prems d by simp
  have on: "reportsOnline E (calls w) name"
    using Cons.prems(1) d by (auto simp: isOnline_eq split: if_splits bool.splits)
  have cnt: "(case observedAddresses E (calls ?w1) name of None \<Rightarrow> - 1 | Some n \<Rightarrow> n) = numIPs"
    using Cons.prems(1) d on by (auto simp: isOnline_eq getNumberOfIPs_eq split: if_splits)
  then have obs: "observedAddresses E (calls w @ [statusCall name]) name = Some numIPs"
    using pos by (auto simp: calls_snd_exec' split: option.splits)
  have "checkDevices E ds ?w2 = (True, w')"
    using Cons.prems(1) d on cnt by (simp add: isOnline_eq getNumberOfIPs_eq)
  from Cons.IH [OF this] Cons.prems(2)
  have "allPass E (calls ?w2) ds \<and> calls w' = calls ?w2 @ cycleCalls ds" by simp
  then show ?case using on obs d by (simp add: calls_snd_exec' cycleCalls_def)
qed

lemma checkDevices_query_fails:
  assumes "respond E (calls w) (statusCall name) = Inl err
           \<or> respond E (calls w @ [statusCall name]) (addressCall name) = Inl err \<and> 0 \<le> numIPs"
  shows "fst (checkDevices E ((name, numIPs) # ds) w) = False"
  using assms
  by (auto simp: isOnline_eq getNumberOfIPs_eq reportsOnline_def observedAddresses_def
      calls_snd_exec' split: bool.splits)

lemma set_rangeOver: "set (rangeOver E w m) = set m"
  by (simp add: rangeOver_def)

lemma mset_rangeOver: "mset (rangeOver E w m) = mset m"
  by (simp add: rangeOver_def)

lemma online_deadline:
  "clock w > endTime \<Longrightarrow> onlineLoop E devices endTime w = (Inl onlineTimeout, w)"
  by (simp add: onlineLoop.simps [of E devices endTime w])

lemma online_retry:
  "\<not> clock w > endTime \<Longrightarrow> checkDevices E (rangeOver E w devices) w = (False, w1) \<Longrightarrow>
   onlineLoop E devices endTime w = onlineLoop E devices endTime (sleep E (500 * Millisecond) w1)"
  by (simp add: onlineLoop.simps [of E devices endTime w])

lemma online_success:
  "\<not> clock w > endTime \<Longrightarrow> checkDevices E (rangeOver E w devices) w = (True, w1) \<Longrightarrow>
   onlineLoop E devices endTime w = (Inr (), w1)"
  by (simp add: onlineLoop.simps [of E devices endTime w])

lemma onlineLoop_outcomes:
  "onlineLoop E devices endTime w = (r, w') \<Longrightarrow> \<forall>d \<in> set devices. 0 < snd d \<Longrightarrow>
     (r = Inr () \<and>
      (\<exists>w0. prefix (calls w) (calls w0) \<and> \<not> clock w0 > endTime \<and>
            allPass E (calls w0) (rangeOver E w0 devices) \<and>
            calls w' = calls w0 @ cycleCalls (rangeOver E w0 devices)))
   \<or> (r = Inl onlineTimeout \<and> clock w' > endTime)"
proof (induction E devices endTime w rule: onlineLoop.induct)
  case (1 E devices endTime w)
  show ?case
  proof (cases "clock w > endTime")
    case True
    then show ?thesis using "1.prems" by (simp add: online_deadline)
  next
    case False
    obtain b w1 where c: "checkDevices E (rangeOver E w devices) w = (b, w1)"
      by (cases "checkDevices E (rangeOver E w devices) w")
    show ?thesis
    proof (cases b)
      case True
      then have r: "r = Inr ()" "w' = w1"
        using "1.prems"(1) online_success [OF False] c by simp_all
      have "\<forall>d \<in> set (rangeOver E w devices). 0 < snd d"
        using "1.prems"(2) by (simp add: set_rangeOver)
      have "checkDevices E (rangeOver E w devices) w = (True, w1)" using c True by simp
      from checkDevices_True [OF this \<open>\<forall>d \<in> set (rangeOver E w devices). 0 < snd d\<close>]
      have "allPass E (calls w) (rangeOver E w devices) \<and>
            calls w1 = calls w @ cycleCalls (rangeOver E w devices)" .
      then show ?thesis using r False by blast
    next
      case b: False
      then have bf: "b = False" by simp
      let ?w2 = "sleep E (500 * Millisecond) w1"
      have l: "onlineLoop E devices endTime ?w2 = (r, w')"
        using "1.prems"(1) online_retry [OF False, of E devices w1] c bf by simp
      have p: "prefix (calls w) (calls ?w2)"
        using onlyCalls_checkDevices [OF c] by (auto simp: onlyCalls_def calls_sleep)
      from "1.IH" [OF False c [symmetric] bf l "1.prems"(2)]
      show ?thesis using p by (blast intro: prefix_order.trans)
    qed
  qed
qed

lemma wait_outcome:
  "fst (waitForNetworkOnline E networkCfg timeout w) = Inr () \<or>
   fst (waitForNetworkOnline E networkCfg timeout w) = Inl onlineTimeout"
proof -
  obtain r w2 where l: "onlineLoop E (devicesToCheck networkCfg) (clock w + timeout) w = (r, w2)"
    by (cases "onlineLoop E (devicesToCheck networkCfg) (clock w + timeout) w")
  from onlineLoop_outcomes [OF l devicesToCheck_positive]
  have "r = Inr () \<or> r = Inl onlineTimeout" by blast
  then show ?thesis using l by (simp add: waitForNetworkOnline_def)
qed

lemma wait_failure:
  assumes "waitForNetworkOnline E networkCfg timeout w = (Inl err, w')"
  shows "err = onlineTimeout \<and> clock w' > clock w + timeout"
proof -
  have l: "onlineLoop E (devicesToCheck networkCfg) (clock w + timeout) w = (Inl err, w')"
    using assms by (simp add: waitForNetworkOnline_def)
  from onlineLoop_outcomes [OF l devicesToCheck_positive] show ?thesis by simp
qed

lemma wait_success:
  assumes "waitForNetworkOnline E networkCfg timeout w = (Inr (), w')"
  shows "\<exists>h ds. mset ds = mset (devicesToCheck networkCfg) \<and> prefix (calls w) h \<and>
                 allPass E h ds \<and> calls w' = h @ cycleCalls ds"
proof -
  have l: "onlineLoop E (devicesToCheck networkCfg) (clock w + timeout) w = (Inr (), w')"
    using assms by (simp add: waitForNetworkOnline_def)
  from onlineLoop_outcomes [OF l devicesToCheck_positive]
  obtain w0 where w0: "prefix (calls w) (calls w0)"
      "allPass E (calls w0) (rangeOver E w0 (devicesToCheck networkCfg))"
      "calls w' = calls w0 @ cycleCalls (rangeOver E w0 (devicesToCheck networkCfg))"
    by auto
  have "mset (rangeOver E w0 (devicesToCheck networkCfg)) = mset (devicesToCheck networkCfg)"
    by (rule mset_rangeOver)
  then show ?thesis using w0 by blast
qed

lemma getNumberOfIPs_count:
  "fst (getNumberOfIPs E name w) =
     (case respond E (calls w) (addressCall name) of
        Inl e \<Rightarrow> - 1
      | Inr output \<Rightarrow>
          int (length (filter (\<lambda>addr. \<not> HasPrefix addr ''fe80:'')
                         (FindAllStringSubmatch output))))"
  by (simp add: getNumberOfIPs_eq observedAddresses_def split: sum.splits)

lemma getNumberOfIPs_lines:
  assumes "list_all wellFormedLine lines"
    and "respond E (calls w) (addressCall name) = Inr (renderOutput lines)"
  shows "fst (getNumberOfIPs E name w) =
           int (length (filter (\<lambda>addr. \<not> HasPrefix addr ''fe80:'') (addressesOf lines)))"
  using assms(2) by (simp add: getNumberOfIPs_count FindAll_output [OF assms(1)])

lemma allPass_member:
  "allPass E h ds \<Longrightarrow> (name, n) \<in> set ds \<Longrightarrow> \<exists>h'. observedAddresses E h' name = Some n"
proof (induction ds arbitrary: h)
  case Nil
  then show ?case by simp
next
  case (Cons d ds)
  obtain name' n' where d: "d = (name', n')" by (cases d)
  show ?case
  proof (cases "(name, n) = d")
    case True
    then show ?thesis using Cons.prems(1) d by auto
  next
    case False
    then have "(name, n) \<in> set ds" using Cons.prems(2) by simp
    moreover have "allPass E (h @ [statusCall name', addressCall name']) ds"
      using Cons.prems(1) d by simp
    ultimately show ?thesis using Cons.IH by blast
  qed
qed

lemma wait_never_succeeds:
  assumes dev: "(name, numIPs) \<in> set (devicesToCheck networkCfg)"
    and wf: "list_all wellFormedLine lines"
    and out: "\<forall>h. respond E h (addressCall name) = Inr (renderOutput lines)"
    and ne: "int (length (filter (\<lambda>addr. \<not> HasPrefix addr ''fe80:'') (addressesOf lines))) \<noteq> numIPs"
  shows "fst (waitForNetworkOnline E networkCfg timeout w) = Inl onlineTimeout"
proof -
  have "fst (waitForNetworkOnline E networkCfg timeout w) \<noteq> Inr ()"
  proof
    assume "fst (waitForNetworkOnline E networkCfg timeout w) = Inr ()"
    then have "waitForNetworkOnline E networkCfg timeout w =
                 (Inr (), snd (waitForNetworkOnline E networkCfg timeout w))"
      by (metis prod.collapse)
    from wait_success [OF this]
    obtain h ds where ds: "mset ds = mset (devicesToCheck networkCfg)" "allPass E h ds"
      by blast
    have "(name, numIPs) \<in> set ds" using dev ds(1) by (metis set_mset_mset)
    from allPass_member [OF ds(2) this]
    obtain h' where "observedAddresses E h' name = Some numIPs" by blast
    then show False
      using out ne by (simp add: observedAddresses_def FindAll_output [OF wf])
  qed
  then show ?thesis using wait_outcome [of E networkCfg timeout w] by blast
qed

lemma linkLocal_line_count:
  assumes "respond E (calls w) (addressCall name) = Inr (''    inet6 fe80::1/64 scope link '' @ NL)"
  shows "fst (getNumberOfIPs E name w) = 0"
proof -
  let ?lines = "[AddressLine True ''fe80::1'' ''64'' ''scope link '']"
  have wf: "list_all wellFormedLine ?lines" by (simp add: isDigit_def)
  have r: "renderOutput ?lines = ''    inet6 fe80::1/64 scope link '' @ NL"
    by (simp add: renderOutput_def)
  have "respond E (calls w) (addressCall name) = Inr (renderOutput ?lines)"
    unfolding r by (rule assms)
  from getNumberOfIPs_lines [OF wf this] show ?thesis
    by (simp add: addressesOf_def HasPrefix_def)
qed

lemma linkLocal_line_never_succeeds:
  assumes dev: "(name, numIPs) \<in> set (devicesToCheck networkCfg)"
    and out: "\<forall>h. respond E h (addressCall name) = Inr (''    inet6 fe80::1/64 scope link '' @ NL)"
  shows "fst (waitForNetworkOnline E networkCfg timeout w) = Inl onlineTimeout"
proof -
  let ?lines = "[AddressLine True ''fe80::1'' ''64'' ''scope link '']"
  have wf: "list_all wellFormedLine ?lines" by (simp add: isDigit_def)
  have r: "renderOutput ?lines = ''    inet6 fe80::1/64 scope link '' @ NL"
    by (simp add: renderOutput_def)
  have o: "\<forall>h. respond E h (addressCall name) = Inr (renderOutput ?lines)"
    unfolding r by (rule out)
  have "0 < numIPs" using devicesToCheck_positive dev by fastforce
  then have ne: "int (length (filter (\<lambda>addr. \<not> HasPrefix addr ''fe80:'') (addressesOf ?lines)))
                   \<noteq> numIPs"
    by (simp add: addressesOf_def HasPrefix_def)
  show ?thesis by (rule wait_never_succeeds [OF dev wf o ne])
qed

text \<open>
  Claim C1. When the names of the declared devices are distinct, the devices checked are
  exactly those that declare at least one address, each with the number of its address
  entries; a device with an empty address list is not among them. \<open>waitForNetworkOnline\<close>
  returns success or the timeout error and nothing else; the timeout error only with the
  clock past the deadline; and success only when its last calls are one pass over all the
  devices checked, in some order, in which each reports online and shows exactly its number
  of addresses that do not start with \<open>fe80:\<close>. \<open>getNumberOfIPs\<close> is that count, or -1 when
  the query fails. A failed query makes the pass over the devices fail, not the wait: after a
  failed pass before the deadline the loop sleeps 500 ms and goes on. On the text of the
  output: in an output of \<open>ip address show\<close> the matches are the addresses of the address
  lines, so \<open>getNumberOfIPs\<close> is the number of address lines whose address does not start with
  \<open>fe80:\<close>; and when a device that is checked always shows an output in which that number is
  not the number of its address entries (so when it shows link-local addresses only), the
  wait does not succeed: it ends with the timeout error. So for the one line
  \<open>inet6 fe80::1/64 scope link\<close>: the count is 0, and a checked device that always shows it
  never lets the wait succeed.
\<close>

theorem online_wait:
  "(distinct (map fst (declaredDevices networkCfg)) \<longrightarrow>
      devicesToCheck networkCfg = expectedDevices (declaredDevices networkCfg))
   \<and> (fst (waitForNetworkOnline E networkCfg timeout w) = Inr () \<or>
      fst (waitForNetworkOnline E networkCfg timeout w) = Inl onlineTimeout)
   \<and> (waitForNetworkOnline E networkCfg timeout w = (Inl err, w') \<longrightarrow>
        err = onlineTimeout \<and> clock w' > clock w + timeout)
   \<and> (waitForNetworkOnline E networkCfg timeout w = (Inr (), w') \<longrightarrow>
        (\<exists>h ds. mset ds = mset (devicesToCheck networkCfg) \<and> prefix (calls w) h \<and>
                 allPass E h ds \<and> calls w' = h @ cycleCalls ds))
   \<and> fst (getNumberOfIPs E name w) =
        (case respond E (calls w) (addressCall name) of
           Inl e \<Rightarrow> - 1
         | Inr output \<Rightarrow>
             int (length (filter (\<lambda>addr. \<not> HasPrefix addr ''fe80:'')
                            (FindAllStringSubmatch output))))
   \<and> (respond E (calls w) (statusCall name) = Inl err \<or>
       respond E (calls w @ [statusCall name]) (addressCall name) = Inl err \<and> 0 \<le> numIPs \<longrightarrow>
        fst (checkDevices E ((name, numIPs) # ds) w) = False)
   \<and> (\<not> clock w > endTime \<and> checkDevices E (rangeOver E w devices) w = (False, w1) \<longrightarrow>
        onlineLoop E devices endTime w =
        onlineLoop E devices endTime (sleep E (500 * Millisecond) w1))
   \<and> (list_all wellFormedLine lines \<longrightarrow>
        FindAllStringSubmatch (renderOutput lines) = addressesOf lines)
   \<and> (list_all wellFormedLine lines \<and>
       respond E (calls w) (addressCall name) = Inr (renderOutput lines) \<longrightarrow>
        fst (getNumberOfIPs E name w) =
          int (length (filter (\<lambda>addr. \<not> HasPrefix addr ''fe80:'') (addressesOf lines))))
   \<and> ((name, numIPs) \<in> set (devicesToCheck networkCfg) \<and>
       list_all wellFormedLine lines \<and>
       (\<forall>h. respond E h (addressCall name) = Inr (renderOutput lines)) \<and>
       int (length (filter (\<lambda>addr. \<not> HasPrefix addr ''fe80:'') (addressesOf lines))) \<noteq> numIPs \<longrightarrow>
        fst (waitForNetworkOnline E networkCfg timeout w) = Inl onlineTimeout)
   \<and> (respond E (calls w) (addressCall name) =
         Inr (''    inet6 fe80::1/64 scope link '' @ NL) \<longrightarrow>
        fst (getNumberOfIPs E name w) = 0)
   \<and> ((name, numIPs) \<in> set (devicesToCheck networkCfg) \<and>
       (\<forall>h. respond E h (addressCall name) =
              Inr (''    inet6 fe80::1/64 scope link '' @ NL)) \<longrightarrow>
        fst (waitForNetworkOnline E networkCfg timeout w) = Inl onlineTimeout)"
proof (intro conjI impI)
  assume "distinct (map fst (declaredDevices networkCfg))"
  then show "devicesToCheck networkCfg = expectedDevices (declaredDevices networkCfg)"
    by (rule devicesToCheck_expected)
next
  show "fst (waitForNetworkOnline E networkCfg timeout w) = Inr () \<or>
      fst (waitForNetworkOnline E networkCfg timeout w) = Inl onlineTimeout"
    by (rule wait_outcome)
next
  assume a: "waitForNetworkOnline E networkCfg timeout w = (Inl err, w')"
  show "err = onlineTimeout" using wait_failure [OF a] by simp
  show "clock w' > clock w + timeout" using wait_failure [OF a] by simp
next
  assume "waitForNetworkOnline E networkCfg timeout w = (Inr (), w')"
  then show "\<exists>h ds. mset ds = mset (devicesToCheck networkCfg) \<and> prefix (calls w) h \<and>
                 allPass E h ds \<and> calls w' = h @ cycleCalls ds"
    by (rule wait_success)
next
  show "fst (getNumberOfIPs E name w) =
        (case respond E (calls w) (addressCall name) of
           Inl e \<Rightarrow> - 1
         | Inr output \<Rightarrow>
             int (length (filter (\<lambda>addr. \<not> HasPrefix addr ''fe80:'')
                            (FindAllStringSubmatch output))))"
    by (rule getNumberOfIPs_count)
next
  assume "respond E (calls w) (statusCall name) = Inl err \<or>
       respond E (calls w @ [statusCall name]) (addressCall name) = Inl err \<and> 0 \<le> numIPs"
  then show "fst (checkDevices E ((name, numIPs) # ds) w) = False"
    by (rule checkDevices_query_fails)
next
  assume "\<not> clock w > endTime \<and> checkDevices E (rangeOver E w devices) w = (False, w1)"
  then show "onlineLoop E devices endTime w =
        onlineLoop E devices endTime (sleep E (500 * Millisecond) w1)"
    by (intro online_retry) simp_all
next
  assume "list_all wellFormedLine lines"
  then show "FindAllStringSubmatch (renderOutput lines) = addressesOf lines"
    by (rule FindAll_output)
next
  assume "list_all wellFormedLine lines \<and>
       respond E (calls w) (addressCall name) = Inr (renderOutput lines)"
  then show "fst (getNumberOfIPs E name w) =
          int (length (filter (\<lambda>addr. \<not> HasPrefix addr ''fe80:'') (addressesOf lines)))"
    by (intro getNumberOfIPs_lines) simp_all
next
  assume "(name, numIPs) \<in> set (devicesToCheck networkCfg) \<and>
       list_all wellFormedLine lines \<and>
       (\<forall>h. respond E h (addressCall name) = Inr (renderOutput lines)) \<and>
       int (length (filter (\<lambda>addr. \<not> HasPrefix addr ''fe80:'') (addressesOf lines))) \<noteq> numIPs"
  then show "fst (waitForNetworkOnline E networkCfg timeout w) = Inl onlineTimeout"
    by (intro wait_never_succeeds [of name numIPs networkCfg lines E]) simp_all
next
  assume "respond E (calls w) (addressCall name) =
         Inr (''    inet6 fe80::1/64 scope link '' @ NL)"
  then show "fst (getNumberOfIPs E name w) = 0"
    by (rule linkLocal_line_count)
next
  assume a: "(name, numIPs) \<in> set (devicesToCheck networkCfg) \<and>
       (\<forall>h. respond E h (addressCall name) =
              Inr (''    inet6 fe80::1/64 scope link '' @ NL))"
  show "fst (waitForNetworkOnline E networkCfg timeout w) = Inl onlineTimeout"
    by (rule linkLocal_line_never_succeeds [OF conjunct1 [OF a] conjunct2 [OF a]])
qed

text \<open>
  An example: \<open>br0\<close> asks for DHCP, \<open>br1\<close> declares no address; \<open>br0\<close> is online with one IPv4
  address and a link-local one.
\<close>

definition exampleConfig :: SystemNetworkConfig where
  "exampleConfig =
     \<lparr>Interfaces =
        [\<lparr>if_Name = ''br0'', if_Hwaddr = ''00:11:22:33:44:55'', if_MTU = 0,
          if_Addresses = [''dhcp4''], if_Routes = [], if_LLDP = False, if_VLAN = 0,
          if_VLANTags = []\<rparr>,
         \<lparr>if_Name = ''br1'', if_Hwaddr = ''00:11:22:33:44:66'', if_MTU = 0,
          if_Addresses = [], if_Routes = [], if_LLDP = False, if_VLAN = 0,
          if_VLANTags = []\<rparr>],
      Bonds = [], VLANs = [], DNS = None, NTP = None, Proxy = None\<rparr>"

definition exampleStatusOutput :: string where
  "exampleStatusOutput = ''        Online state: online'' @ NL"

definition exampleAddressOutput :: string where
  "exampleAddressOutput =
     ''    inet 10.0.0.2/24 brd 10.0.0.255 scope global dynamic br0'' @ NL @
     ''    inet6 fe80::1/64 scope link '' @ NL"

definition exampleAnswers :: "call list \<Rightarrow> call \<Rightarrow> error + string" where
  "exampleAnswers h c =
     (if c = statusCall ''br0'' then Inr exampleStatusOutput else Inr exampleAddressOutput)"

lemma example_matches: "FindAllStringSubmatch exampleAddressOutput = [''10.0.0.2'', ''fe80::1'']"
  by code_simp

lemma example_online: "Contains exampleStatusOutput ''Online state: online''"
  by code_simp

lemma example_devices: "devicesToCheck exampleConfig = [(''br0'', 1)]"
  by (simp add: devicesToCheck_def exampleConfig_def)

lemma example_wait:
  "waitForNetworkOnline (quietEnv exampleAnswers) exampleConfig (30 * Second)
     \<lparr>clock = 0, calls = []\<rparr> =
   (Inr (), \<lparr>clock = 0, calls = [statusCall ''br0'', addressCall ''br0'']\<rparr>)"
  unfolding waitForNetworkOnline_def example_devices
  by (subst onlineLoop.simps)
     (simp add: Second_def rangeOver_def isOnline_def getNumberOfIPs_def exec_def
       exampleAnswers_def statusCall_def addressCall_def example_matches example_online
       HasPrefix_def respond_quietEnv elapsed_quietEnv)


text \<open>
  A second example: \<open>br0\<close> is online, but the only address it shows is the link-local one.
\<close>

definition linkLocalLines :: "outputLine list" where
  "linkLocalLines =
     [OtherLine ''2: br0: <BROADCAST,MULTICAST,UP,LOWER_UP> mtu 1500 qdisc noqueue state UP'',
      OtherLine ''    link/ether 00:11:22:33:44:55 brd ff:ff:ff:ff:ff:ff'',
      AddressLine True ''fe80::211:22ff:fe33:4455'' ''64'' ''scope link '',
      OtherLine ''       valid_lft forever preferred_lft forever'']"

definition linkLocalOutput :: string where
  "linkLocalOutput =
     ''2: br0: <BROADCAST,MULTICAST,UP,LOWER_UP> mtu 1500 qdisc noqueue state UP'' @ NL @
     ''    link/ether 00:11:22:33:44:55 brd ff:ff:ff:ff:ff:ff'' @ NL @
     ''    inet6 fe80::211:22ff:fe33:4455/64 scope link '' @ NL @
     ''       valid_lft forever preferred_lft forever'' @ NL"

definition linkLocalAnswers :: "call list \<Rightarrow> call \<Rightarrow> error + string" where
  "linkLocalAnswers h c =
     (if c = statusCall ''br0'' then Inr exampleStatusOutput else Inr linkLocalOutput)"

lemma linkLocal_render: "renderOutput linkLocalLines = linkLocalOutput"
  by (simp add: renderOutput_def linkLocalLines_def linkLocalOutput_def)

lemma linkLocal_wellFormed: "list_all wellFormedLine linkLocalLines"
  by code_simp

lemma linkLocal_addresses: "addressesOf linkLocalLines = [''fe80::211:22ff:fe33:4455'']"
  by (simp add: addressesOf_def linkLocalLines_def)

theorem online_wait_witness:
  "devicesToCheck exampleConfig = [(''br0'', 1)]
   \<and> waitForNetworkOnline (quietEnv exampleAnswers) exampleConfig (30 * Second)
        \<lparr>clock = 0, calls = []\<rparr> =
      (Inr (), \<lparr>clock = 0, calls = [statusCall ''br0'', addressCall ''br0'']\<rparr>)
   \<and> (\<exists>h ds. mset ds = mset [(''br0'', 1)] \<and> allPass (quietEnv exampleAnswers) h ds \<and>
               [statusCall ''br0'', addressCall ''br0''] = h @ cycleCalls ds)
   \<and> fst (getNumberOfIPs (quietEnv exampleAnswers) ''br0'' \<lparr>clock = 0, calls = []\<rparr>) = 1
   \<and> waitForNetworkOnline (quietEnv exampleAnswers) exampleConfig (- 1)
        \<lparr>clock = 0, calls = []\<rparr> = (Inl onlineTimeout, \<lparr>clock = 0, calls = []\<rparr>)
   \<and> fst (checkDevices (quietEnv (\<lambda>h c. Inl (External 9))) [(''br0'', 1)]
            \<lparr>clock = 0, calls = []\<rparr>) = False
   \<and> onlineLoop (quietEnv (\<lambda>h c. Inl (External 9))) [(''br0'', 1)] 5 \<lparr>clock = 0, calls = []\<rparr> =
      onlineLoop (quietEnv (\<lambda>h c. Inl (External 9))) [(''br0'', 1)] 5
        (sleep (quietEnv (\<lambda>h c. Inl (External 9))) (500 * Millisecond)
           \<lparr>clock = 0, calls = [statusCall ''br0'']\<rparr>)
   \<and> FindAllStringSubmatch linkLocalOutput = [''fe80::211:22ff:fe33:4455'']
   \<and> fst (getNumberOfIPs (quietEnv linkLocalAnswers) ''br0'' \<lparr>clock = 0, calls = []\<rparr>) = 0
   \<and> fst (waitForNetworkOnline (quietEnv linkLocalAnswers) exampleConfig (30 * Second)
            \<lparr>clock = 0, calls = []\<rparr>) = Inl onlineTimeout
   \<and> fst (getNumberOfIPs (quietEnv (\<lambda>h c. Inr (''    inet6 fe80::1/64 scope link '' @ NL)))
            ''br0'' \<lparr>clock = 0, calls = []\<rparr>) = 0
   \<and> fst (waitForNetworkOnline
            (quietEnv (\<lambda>h c. Inr (''    inet6 fe80::1/64 scope link '' @ NL)))
            exampleConfig (30 * Second) \<lparr>clock = 0, calls = []\<rparr>) = Inl onlineTimeout"
proof -
  let ?E = "quietEnv exampleAnswers"
  let ?F = "quietEnv (\<lambda>h c. Inl (External 9))"
  let ?w = "\<lparr>clock = 0, calls = []\<rparr>"
  let ?w' = "\<lparr>clock = 0, calls = [statusCall ''br0'', addressCall ''br0'']\<rparr>"
  note t = online_wait [where networkCfg = exampleConfig and E = ?E and w = ?w
      and timeout = "30 * Second" and w' = ?w' and name = "''br0''"]
  have d: "distinct (map fst (declaredDevices exampleConfig))"
    by (simp add: declaredDevices_def exampleConfig_def)
  have c1: "devicesToCheck exampleConfig = [(''br0'', 1)]"
    using mp [OF conjunct1 [OF t] d]
    by (simp add: expectedDevices_def declaredDevices_def exampleConfig_def)
  have c3: "\<exists>h ds. mset ds = mset [(''br0'', 1)] \<and> allPass ?E h ds \<and>
               [statusCall ''br0'', addressCall ''br0''] = h @ cycleCalls ds"
    using mp [OF conjunct1 [OF conjunct2 [OF conjunct2 [OF conjunct2 [OF t]]]] example_wait]
    unfolding c1 by auto
  have c4: "fst (getNumberOfIPs ?E ''br0'' ?w) = 1"
    using conjunct1 [OF conjunct2 [OF conjunct2 [OF conjunct2 [OF conjunct2 [OF t]]]]]
    by (simp add: exampleAnswers_def statusCall_def addressCall_def example_matches HasPrefix_def
        respond_quietEnv)
  have c5: "waitForNetworkOnline ?E exampleConfig (- 1) ?w = (Inl onlineTimeout, ?w)"
    unfolding waitForNetworkOnline_def
    by (subst onlineLoop.simps) simp
  note f = online_wait [where E = ?F and w = ?w and name = "''br0''" and numIPs = 1
      and err = "External 9" and ds = "[]" and endTime = 5 and devices = "[(''br0'', 1)]"
      and ?w1.0 = "\<lparr>clock = 0, calls = [statusCall ''br0'']\<rparr>"]
  have c6: "fst (checkDevices ?F [(''br0'', 1)] ?w) = False"
    using conjunct1 [OF conjunct2 [OF conjunct2 [OF conjunct2 [OF conjunct2 [OF conjunct2 [OF f]]]]]]
    by simp
  have k: "checkDevices ?F (rangeOver ?F ?w [(''br0'', 1)]) ?w =
             (False, \<lparr>clock = 0, calls = [statusCall ''br0'']\<rparr>)"
    by (simp add: rangeOver_def isOnline_def exec_def statusCall_def respond_quietEnv
        elapsed_quietEnv)
  have c7: "onlineLoop ?F [(''br0'', 1)] 5 ?w =
      onlineLoop ?F [(''br0'', 1)] 5
        (sleep ?F (500 * Millisecond) \<lparr>clock = 0, calls = [statusCall ''br0'']\<rparr>)"
    using conjunct2 [OF conjunct2 [OF conjunct2 [OF conjunct2 [OF conjunct2 [OF conjunct2 [OF f]]]]]] k
    by simp
  let ?G = "quietEnv linkLocalAnswers"
  note g = online_wait [where E = ?G and networkCfg = exampleConfig and w = ?w
      and timeout = "30 * Second" and name = "''br0''" and numIPs = 1
      and lines = linkLocalLines]
  have c8: "FindAllStringSubmatch linkLocalOutput = [''fe80::211:22ff:fe33:4455'']"
    using mp [OF g [THEN conjunct2, THEN conjunct2, THEN conjunct2, THEN conjunct2,
          THEN conjunct2, THEN conjunct2, THEN conjunct2, THEN conjunct1] linkLocal_wellFormed]
    by (simp only: linkLocal_render linkLocal_addresses)
  have ans: "respond ?G h (addressCall ''br0'') = Inr (renderOutput linkLocalLines)" for h
    by (simp add: linkLocalAnswers_def statusCall_def addressCall_def linkLocal_render)
  have cnt: "int (length (filter (\<lambda>addr. \<not> HasPrefix addr ''fe80:'')
                            (addressesOf linkLocalLines))) = 0"
    by (simp add: linkLocal_addresses HasPrefix_def)
  have c9: "fst (getNumberOfIPs ?G ''br0'' ?w) = 0"
    using mp [OF g [THEN conjunct2, THEN conjunct2, THEN conjunct2, THEN conjunct2,
          THEN conjunct2, THEN conjunct2, THEN conjunct2, THEN conjunct2, THEN conjunct1]
          conjI [OF linkLocal_wellFormed ans]]
    by (simp only: cnt)
  have dev: "(''br0'', 1) \<in> set (devicesToCheck exampleConfig)"
    by (simp add: example_devices)
  have ne: "int (length (filter (\<lambda>addr. \<not> HasPrefix addr ''fe80:'')
                           (addressesOf linkLocalLines))) \<noteq> 1"
    by (simp only: cnt)
  have c10: "fst (waitForNetworkOnline ?G exampleConfig (30 * Second) ?w) = Inl onlineTimeout"
    by (rule mp [OF g [THEN conjunct2, THEN conjunct2, THEN conjunct2, THEN conjunct2,
          THEN conjunct2, THEN conjunct2, THEN conjunct2, THEN conjunct2, THEN conjunct2,
          THEN conjunct1]
          conjI [OF dev conjI [OF linkLocal_wellFormed conjI [OF allI [OF ans] ne]]]])
  let ?H = "quietEnv (\<lambda>h c. Inr (''    inet6 fe80::1/64 scope link '' @ NL))"
  note k = online_wait [where E = ?H and networkCfg = exampleConfig and w = ?w
      and timeout = "30 * Second" and name = "''br0''" and numIPs = 1]
  have one: "respond ?H h (addressCall ''br0'') = Inr (''    inet6 fe80::1/64 scope link '' @ NL)"
    for h
    by (simp only: respond_quietEnv)
  have c11: "fst (getNumberOfIPs ?H ''br0'' ?w) = 0"
    by (rule mp [OF k [THEN conjunct2, THEN conjunct2, THEN conjunct2, THEN conjunct2,
          THEN conjunct2, THEN conjunct2, THEN conjunct2, THEN conjunct2, THEN conjunct2,
          THEN conjunct2, THEN conjunct1] one])
  have c12: "fst (waitForNetworkOnline ?H exampleConfig (30 * Second) ?w) = Inl onlineTimeout"
    by (rule mp [OF k [THEN conjunct2, THEN conjunct2, THEN conjunct2, THEN conjunct2,
          THEN conjunct2, THEN conjunct2, THEN conjunct2, THEN conjunct2, THEN conjunct2,
          THEN conjunct2, THEN conjunct2] conjI [OF dev allI [OF one]]])
  show ?thesis using c1 example_wait c3 c4 c5 c6 c7 c8 c9 c10 c11 c12 by (intro conjI)
qed

end
